(* ===== verification/Aes_Prelude.thy ===== *)
theory Aes_Prelude
  imports Main "HOL-Library.Word"
begin

text \<open>
  Shared vocabulary of the aeslib development: the machine types of the source
  (\<^verbatim>\<open>std::uint8_t\<close>, \<^verbatim>\<open>std::uint32_t\<close>, \<^verbatim>\<open>std::uint64_t\<close>, \<^verbatim>\<open>std::byte\<close>), the exception
  classes of \<^verbatim>\<open>include/aeslib/exceptions.hpp\<close> as values, and the generic lemmas on
  words, exclusive-or and lists that the component theories share. Fixed-size arrays
  of the source (\<^verbatim>\<open>std::array<std::byte, N>\<close>) are lists whose length is stated where it
  matters.
\<close>

unbundle bit_operations_syntax

type_synonym byte = "8 word"
type_synonym u32 = "32 word"
type_synonym u64 = "64 word"
type_synonym bytes = "byte list"

named_theorems len_simps \<open>lengths of the byte strings the operations build\<close>
named_theorems eval_simps \<open>equations that evaluate the model on literals\<close>

section \<open>Exclusive or on words\<close>

lemma xor_self_cancel [simp]:
  fixes a b :: "'a::len word"
  shows "a XOR (a XOR b) = b" and "(b XOR a) XOR a = b" and "a XOR (b XOR a) = b"
proof -
  show "a XOR (a XOR b) = b" and *: "(b XOR a) XOR a = b"
    by (simp_all flip: xor.assoc) (simp add: xor.assoc)
  from * show "a XOR (b XOR a) = b"
    by (simp add: xor.commute)
qed

lemmas xor_ac = xor.assoc xor.commute xor.left_commute

lemma xor_left_inject [simp]:
  fixes a b c :: "'a::len word"
  shows "a XOR b = a XOR c \<longleftrightarrow> b = c"
  by (metis xor_self_cancel(1))

lemma xor_right_inject [simp]:
  fixes a b c :: "'a::len word"
  shows "b XOR a = c XOR a \<longleftrightarrow> b = c"
  by (metis xor_self_cancel(2))

lemma xor_eq_0_iff [simp]:
  fixes a b :: "'a::len word"
  shows "a XOR b = 0 \<longleftrightarrow> a = b"
  by (metis xor_left_inject xor_self_eq)

lemma word_or_zero_iff [simp]:
  fixes a b :: "'a::len word"
  shows "a OR b = 0 \<longleftrightarrow> a = 0 \<and> b = 0"
  by (auto simp: bit_eq_iff bit_or_iff)

lemma and_mask_bit0:
  fixes a b :: "'a::len word"
  shows "a AND - (b AND 1) = (if bit b 0 then a else 0)"
  by (auto simp: and_one_eq bit_0 odd_iff_mod_2_eq_one even_iff_mod_2_eq_zero)

section \<open>Exclusive-or sums over an initial segment\<close>

primrec xorsum :: "(nat \<Rightarrow> 'a::len word) \<Rightarrow> nat \<Rightarrow> 'a word" where
  "xorsum f 0 = 0"
| "xorsum f (Suc n) = xorsum f n XOR f n"

lemma xorsum_cong: "(\<And>i. i < n \<Longrightarrow> f i = g i) \<Longrightarrow> xorsum f n = xorsum g n"
  by (induction n) auto

lemma xorsum_zero [simp]: "xorsum (\<lambda>_. 0) n = 0"
  by (induction n) auto

lemma xorsum_xor: "xorsum (\<lambda>i. f i XOR g i) n = xorsum f n XOR xorsum g n"
  by (induction n) (auto simp: xor_ac)

lemma xorsum_swap:
  "xorsum (\<lambda>i. xorsum (\<lambda>j. f i j) m) n = xorsum (\<lambda>j. xorsum (\<lambda>i. f i j) n) m"
  by (induction n) (auto simp: xorsum_xor)

lemma xorsum_shift: "xorsum f (Suc n) = f 0 XOR xorsum (\<lambda>i. f (Suc i)) n"
  by (induction n) (simp_all add: xor_ac)

text \<open>A word is the sum of its bits, listed in any order \<open>g\<close>.\<close>

lemma bit_xorsum_basis:
  fixes y :: "'a::len word"
  assumes "inj_on g {..<n}"
  shows "bit (xorsum (\<lambda>i. if bit y (g i) then push_bit (g i) 1 else (0 :: 'a word)) n) k \<longleftrightarrow>
    k \<in> g ` {..<n} \<and> bit y k"
  using assms
proof (induction n)
  case (Suc n)
  then have IH: "bit (xorsum (\<lambda>i. if bit y (g i) then push_bit (g i) 1 else (0 :: 'a word)) n) k \<longleftrightarrow>
      k \<in> g ` {..<n} \<and> bit y k"
    and fresh: "g n \<notin> g ` {..<n}"
    by (auto simp: lessThan_Suc inj_on_insert)
  have "bit (if bit y (g n) then push_bit (g n) 1 else (0::'a word)) k \<longleftrightarrow> k = g n \<and> bit y k"
    by (auto simp: bit_exp_iff dest: bit_imp_le_length)
  with IH fresh show ?case
    by (auto simp: bit_xor_iff lessThan_Suc)
qed simp

lemma xorsum_basis:
  fixes y :: "'a::len word"
  assumes "inj_on g {..<LENGTH('a)}" and "g ` {..<LENGTH('a)} = {..<LENGTH('a)}"
  shows "xorsum (\<lambda>i. if bit y (g i) then push_bit (g i) 1 else (0 :: 'a word)) LENGTH('a) = y"
  by (rule bit_word_eqI) (simp add: bit_xorsum_basis assms)

section \<open>Exceptions as values\<close>

text \<open>
  The exception classes of \<^verbatim>\<open>include/aeslib/exceptions.hpp\<close>, each with its message,
  \<^verbatim>\<open>std::logic_error\<close>, which the hardware backends throw on a build without them, and any
  other \<^verbatim>\<open>std::exception\<close> of the standard library (\<^verbatim>\<open>std::bad_alloc\<close>,
  \<^verbatim>\<open>std::filesystem::filesystem_error\<close>). A function that may throw returns \<open>Inl\<close> of the
  exception.
\<close>

datatype aes_error =
    IoError string
  | FormatError string
  | LimitError string
  | AuthenticationError string
  | LogicError string
  | StdException string

type_synonym 'a res = "aes_error + 'a"

definition res_bind :: "'a res \<Rightarrow> ('a \<Rightarrow> 'b res) \<Rightarrow> 'b res" where
  "res_bind r f = (case r of Inl e \<Rightarrow> Inl e | Inr x \<Rightarrow> f x)"

lemma res_bind_simps [simp]:
  "res_bind (Inl e) f = Inl e" "res_bind (Inr x) f = f x"
  by (simp_all add: res_bind_def)

lemma res_bind_Inr_iff:
  "res_bind r f = Inr y \<longleftrightarrow> (\<exists>x. r = Inr x \<and> f x = Inr y)"
  by (cases r) simp_all

section \<open>Byte strings\<close>

definition xor_bytes :: "bytes \<Rightarrow> bytes \<Rightarrow> bytes" where
  "xor_bytes xs ys = map2 (XOR) xs ys"

lemma length_xor_bytes [simp, len_simps]:
  "length (xor_bytes xs ys) = min (length xs) (length ys)"
  by (simp add: xor_bytes_def)

lemma xor_bytes_simps [simp]:
  "xor_bytes [] ys = []" "xor_bytes xs [] = []"
  "xor_bytes (x # xs) (y # ys) = (x XOR y) # xor_bytes xs ys"
  by (simp_all add: xor_bytes_def)

lemma nth_xor_bytes [simp]:
  "i < length xs \<Longrightarrow> i < length ys \<Longrightarrow> xor_bytes xs ys ! i = xs ! i XOR ys ! i"
  by (simp add: xor_bytes_def)

lemma xor_bytes_commute: "xor_bytes xs ys = xor_bytes ys xs"
  by (induction xs ys rule: list_induct2') (simp_all add: xor.commute)

lemma xor_bytes_assoc: "xor_bytes (xor_bytes xs ys) zs = xor_bytes xs (xor_bytes ys zs)"
  by (rule nth_equalityI) (simp_all add: xor.assoc)

lemma xor_bytes_left_commute:
  "xor_bytes xs (xor_bytes ys zs) = xor_bytes ys (xor_bytes xs zs)"
  by (metis xor_bytes_assoc xor_bytes_commute)

lemmas xor_bytes_ac = xor_bytes_assoc xor_bytes_commute xor_bytes_left_commute

lemma xor_bytes_cancel:
  "length xs \<le> length ys \<Longrightarrow> xor_bytes (xor_bytes xs ys) ys = xs"
  by (induction xs ys rule: list_induct2') simp_all

lemma xor_bytes_append:
  "length xs = length us \<Longrightarrow>
   xor_bytes (xs @ ys) (us @ vs) = xor_bytes xs us @ xor_bytes ys vs"
  by (induction xs us rule: list_induct2) simp_all

lemma xor_bytes_take: "xor_bytes xs (take (length xs) ys) = xor_bytes xs ys"
  by (induction xs ys rule: list_induct2') simp_all

text \<open>A list of known length, element by element.\<close>

lemma list_of_4:
  "length xs = 4 \<Longrightarrow> \<exists>a b c d. xs = [a, b, c, d]"
  by (auto simp: numeral_eq_Suc length_Suc_conv)

lemma list_of_16:
  "length xs = 16 \<Longrightarrow> \<exists>a b c d e f g h i j k l m n p q.
     xs = [a, b, c, d, e, f, g, h, i, j, k, l, m, n, p, q]"
  by (auto simp: numeral_eq_Suc length_Suc_conv)

text \<open>The element-wise copy loop of the source, from an offset of one array into another.\<close>

lemma copy_loop:
  assumes "k \<le> length dst" and "off + k \<le> length src"
  shows "fold (\<lambda>i b. b[i := src ! (off + i)]) [0..<k] dst = take k (drop off src) @ drop k dst"
  using assms
proof (induction k)
  case (Suc k)
  then have "fold (\<lambda>i b. b[i := src ! (off + i)]) [0..<Suc k] dst =
      (take k (drop off src) @ drop k dst)[k := src ! (off + k)]"
    by simp
  also have "\<dots> = take k (drop off src) @ (drop k dst)[0 := src ! (off + k)]"
    using Suc.prems by (simp add: list_update_append)
  also have "drop k dst = dst ! k # drop (Suc k) dst"
    using Suc.prems by (simp add: Cons_nth_drop_Suc)
  finally show ?case
    using Suc.prems by (simp add: take_Suc_conv_app_nth)
qed simp

lemma map_xor_upt:
  "length xs = n \<Longrightarrow> length ys = n \<Longrightarrow>
   map (\<lambda>i. xs ! i XOR ys ! i) [0..<n] = xor_bytes xs ys"
  by (rule nth_equalityI) simp_all

section \<open>Numbers in messages\<close>

text \<open>\<^verbatim>\<open>std::to_string\<close> of an unsigned value: its decimal digits.\<close>

fun to_string :: "nat \<Rightarrow> string" where
  "to_string n =
     (if n < 10 then [char_of (48 + n)] else to_string (n div 10) @ [char_of (48 + n mod 10)])"

declare to_string.simps [simp del]

end
