(* ===== verification/Shift_Field.thy ===== *)
theory Shift_Field
  imports Aes_Prelude
begin

text \<open>
  The contract shared by the two bit-serial field multipliers of the library,
  \<^verbatim>\<open>gmul\<close> (\<^verbatim>\<open>src/aes_core_soft.cpp\<close>, GF(2^8)) and \<^verbatim>\<open>gf128_mul\<close> (\<^verbatim>\<open>src/ghash.cpp\<close>,
  GF(2^128)): both scan the bits of one operand and add up a register that a linear
  \<open>step\<close> (multiplication by the polynomial's root) shifts once per bit. From
  linearity of the step and the fact that the shifted unit runs through the bit basis,
  the locale derives that the product is a commutative, associative, bilinear
  operation with unit; the component theories interpret it on their own definitions.
\<close>

locale shift_field =
  fixes n :: nat
    and step :: "'a::len word \<Rightarrow> 'a word"
    and sel :: "'a word \<Rightarrow> nat \<Rightarrow> bool"
    and one :: "'a word"
    and mult :: "'a word \<Rightarrow> 'a word \<Rightarrow> 'a word"
  assumes step_xor: "step (x XOR y) = step x XOR step y"
    and sel_xor: "sel (x XOR y) i = (sel x i \<noteq> sel y i)"
    and basis: "y = xorsum (\<lambda>i. if sel y i then (step ^^ i) one else 0) n"
    and mult_eq: "mult x y = xorsum (\<lambda>i. if sel y i then (step ^^ i) x else 0) n"
begin

lemma step_0 [simp]: "step 0 = 0"
  using step_xor [of 0 0] by simp

lemma pow_xor: "(step ^^ i) (x XOR y) = (step ^^ i) x XOR (step ^^ i) y"
  by (induction i) (simp_all add: step_xor)

lemma pow_0 [simp]: "(step ^^ i) 0 = 0"
  by (induction i) simp_all

lemma pow_xorsum: "(step ^^ i) (xorsum f m) = xorsum (\<lambda>j. (step ^^ i) (f j)) m"
  by (induction m) (simp_all add: pow_xor)

lemma sel_0 [simp]: "\<not> sel 0 i"
  using sel_xor [of 0 0 i] by simp

lemma mult_0_left: "mult 0 y = 0"
  using xorsum_cong [of n "\<lambda>i. if sel y i then (step ^^ i) 0 else 0" "\<lambda>_. 0"]
  by (simp add: mult_eq)

lemma mult_0_right: "mult x 0 = 0"
  by (simp add: mult_eq)

lemma mult_xor_left: "mult (x XOR y) z = mult x z XOR mult y z"
  unfolding mult_eq xorsum_xor [symmetric] by (rule xorsum_cong) (simp add: pow_xor)

lemma mult_xor_right: "mult x (y XOR z) = mult x y XOR mult x z"
  unfolding mult_eq xorsum_xor [symmetric] by (rule xorsum_cong) (auto simp: sel_xor)

lemma mult_xorsum_left: "mult (xorsum f m) z = xorsum (\<lambda>i. mult (f i) z) m"
  by (induction m) (simp_all add: mult_xor_left mult_0_left)

lemma one_mult: "mult one y = y"
  unfolding mult_eq by (rule basis [symmetric])

text \<open>Expanding both operands over the basis makes the product visibly symmetric.\<close>

lemma mult_double_sum:
  "mult x y = xorsum (\<lambda>i. xorsum (\<lambda>j.
     if sel x j \<and> sel y i then (step ^^ (i + j)) one else 0) n) n"
proof -
  have "(step ^^ i) x = xorsum (\<lambda>j. if sel x j then (step ^^ (i + j)) one else 0) n" for i
    by (subst basis [of x])
      (auto simp: pow_xorsum funpow_add intro!: xorsum_cong)
  then show ?thesis
    unfolding mult_eq by (auto intro!: xorsum_cong)
qed

lemma mult_commute: "mult x y = mult y x"
  unfolding mult_double_sum by (subst xorsum_swap) (auto intro!: xorsum_cong simp: add.commute)

lemma mult_one: "mult x one = x"
  by (simp add: mult_commute [of x] one_mult)

lemma pow_pow_commute: "(step ^^ k) ((step ^^ i) x) = (step ^^ i) ((step ^^ k) x)"
  by (metis add.commute comp_apply funpow_add)

lemma mult_pow_left: "mult ((step ^^ i) x) y = (step ^^ i) (mult x y)"
  unfolding mult_eq pow_xorsum
  by (rule xorsum_cong) (simp add: pow_pow_commute)

lemma mult_step_left: "mult (step x) y = step (mult x y)"
  using mult_pow_left [of 1] by simp

lemma mult_assoc: "mult (mult x y) z = mult x (mult y z)"
proof -
  have expand: "mult (mult a b) c =
      xorsum (\<lambda>k. if sel c k then mult ((step ^^ k) a) b else 0) n" for a b c
    by (subst mult_eq) (auto intro!: xorsum_cong simp: mult_pow_left)
  have "mult (mult x y) z = mult (mult y x) z"
    by (simp only: mult_commute [of x y])
  also have "\<dots> = xorsum (\<lambda>k. if sel z k then mult ((step ^^ k) y) x else 0) n"
    by (rule expand)
  also have "\<dots> = mult (mult y z) x"
    unfolding mult_eq [of y z] mult_xorsum_left
    by (rule xorsum_cong) (simp add: mult_0_left)
  finally show ?thesis
    by (simp only: mult_commute [of x])
qed

lemma mult_left_commute: "mult x (mult y z) = mult y (mult x z)"
  by (simp only: mult_assoc [symmetric] mult_commute [of x y])

end

end
