(* ===== verification/Gf256.thy ===== *)
theory Gf256
  imports Shift_Field
begin

text \<open>
  The GF(2^8) arithmetic and the constant-time S-box of \<^verbatim>\<open>src/aes_core_soft.cpp\<close>:
  \<^verbatim>\<open>xtime\<close>, the branch-free \<^verbatim>\<open>gmul\<close>, the square-and-multiply inversion \<^verbatim>\<open>gf256_inv\<close>,
  \<^verbatim>\<open>rotl8\<close> and \<^verbatim>\<open>ct_sbox\<close>. The theory interprets the field contract on \<open>gmul\<close>, shows
  that \<open>gf256_inv\<close> inverts every nonzero byte, and that \<open>ct_sbox\<close> is a permutation of
  the bytes equal to the FIPS-197 table.
\<close>

section \<open>Definitions\<close>

definition xtime :: "byte \<Rightarrow> byte" where
  "xtime b = push_bit 1 b XOR (if b AND 0x80 \<noteq> 0 then 0x1b else 0x00)"

text \<open>The loop of \<^verbatim>\<open>gmul\<close>: the first argument counts the remaining iterations.\<close>

primrec gmul_loop :: "nat \<Rightarrow> byte \<Rightarrow> byte \<Rightarrow> byte \<Rightarrow> byte" where
  "gmul_loop 0 a b product = product"
| "gmul_loop (Suc k) a b product =
     (let mask = - (b AND 1)
      in gmul_loop k (xtime a) (drop_bit 1 b) (product XOR (a AND mask)))"

definition gmul :: "byte \<Rightarrow> byte \<Rightarrow> byte" where
  "gmul a b = gmul_loop 8 a b 0"

definition gf256_inv_step :: "byte \<Rightarrow> nat \<Rightarrow> byte \<Rightarrow> byte" where
  "gf256_inv_step x i result =
     (let sq = gmul result result
      in if drop_bit i (254 :: nat) AND 1 \<noteq> 0 then gmul sq x else sq)"

definition gf256_inv :: "byte \<Rightarrow> byte" where
  "gf256_inv x = fold (gf256_inv_step x) [7, 6, 5, 4, 3, 2, 1, 0] 1"

definition rotl8 :: "byte \<Rightarrow> nat \<Rightarrow> byte" where
  "rotl8 v shift = push_bit shift v OR drop_bit (8 - shift) v"

definition ct_sbox :: "byte \<Rightarrow> byte" where
  "ct_sbox x =
     (let inv = gf256_inv x
      in inv XOR rotl8 inv 1 XOR rotl8 inv 2 XOR rotl8 inv 3 XOR rotl8 inv 4 XOR 0x63)"

section \<open>The product is a field multiplication\<close>

lemma xtime_bit: "xtime b = push_bit 1 b XOR (if bit b 7 then 0x1b else 0)"
proof -
  have "(b AND 0x80 \<noteq> 0) = bit b 7"
    using and_exp_eq_0_iff_not_bit [of b 7] by simp
  then show ?thesis
    by (simp add: xtime_def)
qed

lemma xtime_xor: "xtime (a XOR b) = xtime a XOR xtime b"
  by (auto simp: xtime_bit push_bit_xor bit_xor_iff xor_ac)

lemma gmul_loop_sum:
  "gmul_loop k a b p = p XOR xorsum (\<lambda>i. if bit b i then (xtime ^^ i) a else 0) k"
proof (induction k arbitrary: a b p)
  case (Suc k)
  have "xorsum (\<lambda>i. if bit (drop_bit 1 b) i then (xtime ^^ i) (xtime a) else 0) k =
      xorsum (\<lambda>i. if bit b (Suc i) then (xtime ^^ Suc i) a else 0) k"
    by (rule xorsum_cong) (simp add: bit_drop_bit_eq funpow_swap1)
  then show ?case
    by (simp add: Suc.IH xorsum_shift and_mask_bit0 xor.assoc Let_def del: xorsum.simps)
qed simp

lemma xtime_pow_one: "i < 8 \<Longrightarrow> (xtime ^^ i) 1 = push_bit i 1"
proof (induction i)
  case (Suc i)
  then have "(xtime ^^ Suc i) 1 = xtime (push_bit i 1)"
    by simp
  also have "\<dots> = push_bit (Suc i) 1"
    using Suc.prems by (simp add: xtime_bit bit_exp_iff)
  finally show ?case .
qed simp

interpretation gf256: shift_field 8 xtime bit 1 gmul
proof
  show "y = xorsum (\<lambda>i. if bit y i then (xtime ^^ i) 1 else 0) 8" for y :: byte
  proof -
    have "xorsum (\<lambda>i. if bit y i then (xtime ^^ i) 1 else 0) 8 =
        xorsum (\<lambda>i. if bit y i then push_bit i 1 else 0) 8"
      by (rule xorsum_cong) (simp add: xtime_pow_one)
    then show ?thesis
      using xorsum_basis [of "\<lambda>i. i" y] by simp
  qed
  show "gmul x y = xorsum (\<lambda>i. if bit y i then (xtime ^^ i) x else 0) 8" for x y
    by (simp add: gmul_def gmul_loop_sum)
qed (simp_all add: xtime_xor bit_xor_iff)

lemmas gmul_ac = gf256.mult_assoc gf256.mult_commute gf256.mult_left_commute

lemma gmul_small [simp]:
  "gmul 0 a = 0" "gmul a 0 = 0" "gmul 1 a = a" "gmul a 1 = a"
  by (simp_all add: gf256.mult_0_left gf256.mult_0_right gf256.one_mult gf256.mult_one)

lemma gmul_2: "gmul a 2 = xtime a"
  using gf256.mult_step_left [of 1 a] by (simp add: gf256.mult_commute [of a] xtime_def)

lemma gmul_3: "gmul a 3 = xtime a XOR a"
proof -
  have "(3 :: byte) = 2 XOR 1" by simp
  then show ?thesis
    by (simp only: gf256.mult_xor_right gmul_2 gmul_small)
qed

section \<open>Inversion\<close>

primrec gpow :: "byte \<Rightarrow> nat \<Rightarrow> byte" where
  "gpow x 0 = 1"
| "gpow x (Suc k) = gmul x (gpow x k)"

lemma gpow_add: "gpow x (m + k) = gmul (gpow x m) (gpow x k)"
  by (induction m) (simp_all add: gf256.mult_assoc)

lemma gpow_mult: "gpow x (m * k) = gpow (gpow x k) m"
  by (induction m) (simp_all add: gpow_add)

lemma gpow_one [simp]: "gpow 1 k = 1"
  by (induction k) simp_all

lemma gf256_inv_step_gpow:
  "gf256_inv_step x i (gpow x m) =
     gpow x (2 * m + (if drop_bit i (254 :: nat) AND 1 \<noteq> 0 then 1 else 0))"
  by (simp add: gf256_inv_step_def Let_def mult_2 gpow_add gf256.mult_commute [of _ x])

text \<open>The square-and-multiply chain computes the 254th power.\<close>

lemma gf256_inv_gpow: "gf256_inv x = gpow x 254"
proof -
  have "gf256_inv x = fold (gf256_inv_step x) [7, 6, 5, 4, 3, 2, 1, 0] (gpow x 0)"
    by (simp add: gf256_inv_def)
  then show ?thesis
    by (simp add: gf256_inv_step_gpow del: gpow.simps)
qed

text \<open>
  The byte 3 generates the multiplicative group: its first 255 powers, computed by
  repeated \<open>xtime x XOR x\<close>, run through all nonzero bytes.
\<close>

primrec gens :: "nat \<Rightarrow> byte \<Rightarrow> byte list" where
  "gens 0 x = []"
| "gens (Suc k) x = x # gens k (xtime x XOR x)"

lemma gens_numeral [eval_simps]:
  "gens (numeral k) x = x # gens (pred_numeral k) (xtime x XOR x)"
  by (simp add: numeral_eq_Suc)

lemma gens_gpow: "gens k (gpow 3 m) = map (gpow 3) [m..<m + k]"
proof (induction k arbitrary: m)
  case (Suc k)
  have "xtime (gpow 3 m) XOR gpow 3 m = gpow 3 (Suc m)"
    by (simp add: gmul_3 [symmetric] gf256.mult_commute)
  then have "gens (Suc k) (gpow 3 m) = gpow 3 m # map (gpow 3) [Suc m..<Suc m + k]"
    using Suc.IH [of "Suc m"] by (simp del: upt_Suc)
  then show ?case
    by (simp add: upt_conv_Cons del: upt_Suc)
qed simp

lemma gens_lit:
  "gens 255 1 = [
    0x01, 0x03, 0x05, 0x0f, 0x11, 0x33, 0x55, 0xff, 0x1a, 0x2e, 0x72, 0x96, 0xa1, 0xf8, 0x13, 0x35,
    0x5f, 0xe1, 0x38, 0x48, 0xd8, 0x73, 0x95, 0xa4, 0xf7, 0x02, 0x06, 0x0a, 0x1e, 0x22, 0x66, 0xaa,
    0xe5, 0x34, 0x5c, 0xe4, 0x37, 0x59, 0xeb, 0x26, 0x6a, 0xbe, 0xd9, 0x70, 0x90, 0xab, 0xe6, 0x31,
    0x53, 0xf5, 0x04, 0x0c, 0x14, 0x3c, 0x44, 0xcc, 0x4f, 0xd1, 0x68, 0xb8, 0xd3, 0x6e, 0xb2, 0xcd,
    0x4c, 0xd4, 0x67, 0xa9, 0xe0, 0x3b, 0x4d, 0xd7, 0x62, 0xa6, 0xf1, 0x08, 0x18, 0x28, 0x78, 0x88,
    0x83, 0x9e, 0xb9, 0xd0, 0x6b, 0xbd, 0xdc, 0x7f, 0x81, 0x98, 0xb3, 0xce, 0x49, 0xdb, 0x76, 0x9a,
    0xb5, 0xc4, 0x57, 0xf9, 0x10, 0x30, 0x50, 0xf0, 0x0b, 0x1d, 0x27, 0x69, 0xbb, 0xd6, 0x61, 0xa3,
    0xfe, 0x19, 0x2b, 0x7d, 0x87, 0x92, 0xad, 0xec, 0x2f, 0x71, 0x93, 0xae, 0xe9, 0x20, 0x60, 0xa0,
    0xfb, 0x16, 0x3a, 0x4e, 0xd2, 0x6d, 0xb7, 0xc2, 0x5d, 0xe7, 0x32, 0x56, 0xfa, 0x15, 0x3f, 0x41,
    0xc3, 0x5e, 0xe2, 0x3d, 0x47, 0xc9, 0x40, 0xc0, 0x5b, 0xed, 0x2c, 0x74, 0x9c, 0xbf, 0xda, 0x75,
    0x9f, 0xba, 0xd5, 0x64, 0xac, 0xef, 0x2a, 0x7e, 0x82, 0x9d, 0xbc, 0xdf, 0x7a, 0x8e, 0x89, 0x80,
    0x9b, 0xb6, 0xc1, 0x58, 0xe8, 0x23, 0x65, 0xaf, 0xea, 0x25, 0x6f, 0xb1, 0xc8, 0x43, 0xc5, 0x54,
    0xfc, 0x1f, 0x21, 0x63, 0xa5, 0xf4, 0x07, 0x09, 0x1b, 0x2d, 0x77, 0x99, 0xb0, 0xcb, 0x46, 0xca,
    0x45, 0xcf, 0x4a, 0xde, 0x79, 0x8b, 0x86, 0x91, 0xa8, 0xe3, 0x3e, 0x42, 0xc6, 0x51, 0xf3, 0x0e,
    0x12, 0x36, 0x5a, 0xee, 0x29, 0x7b, 0x8d, 0x8c, 0x8f, 0x8a, 0x85, 0x94, 0xa7, 0xf2, 0x0d, 0x17,
    0x39, 0x4b, 0xdd, 0x7c, 0x84, 0x97, 0xa2, 0xfd, 0x1c, 0x24, 0x6c, 0xb4, 0xc7, 0x52, 0xf6]"
  by (simp add: gens_numeral xtime_def)

lemma gpow_3_lit: "map (gpow 3) [0..<255] = gens 255 1"
  using gens_gpow [of 255 0] by simp

lemma gpow_3_255: "gpow 3 255 = 1"
proof -
  have "gpow 3 254 = map (gpow 3) [0..<255] ! 254"
    by simp
  also have "\<dots> = 0xf6"
    by (simp only: gpow_3_lit gens_lit) simp
  finally have "gpow 3 254 = 0xf6" .
  then show ?thesis
    using gpow.simps(2) [of 3 254] by (simp add: gf256.mult_commute [of 3] gmul_3 xtime_def del: gpow.simps)
qed

text \<open>Every byte, listed.\<close>

primrec bytes_from :: "nat \<Rightarrow> byte \<Rightarrow> byte list" where
  "bytes_from 0 x = []"
| "bytes_from (Suc k) x = x # bytes_from k (x + 1)"

lemma bytes_from_numeral [eval_simps]:
  "bytes_from (numeral k) x = x # bytes_from (pred_numeral k) (x + 1)"
  by (simp add: numeral_eq_Suc)

lemma bytes_from_upt: "bytes_from k (of_nat m) = map of_nat [m..<m + k]"
proof (induction k arbitrary: m)
  case (Suc k)
  from Suc.IH [of "Suc m"] show ?case
    by (simp add: upt_conv_Cons add.commute [of 1] del: upt_Suc)
qed simp

lemma bytes_lit:
  "map (of_nat :: nat \<Rightarrow> byte) [0..<256] = [
    0x00, 0x01, 0x02, 0x03, 0x04, 0x05, 0x06, 0x07, 0x08, 0x09, 0x0a, 0x0b, 0x0c, 0x0d, 0x0e, 0x0f,
    0x10, 0x11, 0x12, 0x13, 0x14, 0x15, 0x16, 0x17, 0x18, 0x19, 0x1a, 0x1b, 0x1c, 0x1d, 0x1e, 0x1f,
    0x20, 0x21, 0x22, 0x23, 0x24, 0x25, 0x26, 0x27, 0x28, 0x29, 0x2a, 0x2b, 0x2c, 0x2d, 0x2e, 0x2f,
    0x30, 0x31, 0x32, 0x33, 0x34, 0x35, 0x36, 0x37, 0x38, 0x39, 0x3a, 0x3b, 0x3c, 0x3d, 0x3e, 0x3f,
    0x40, 0x41, 0x42, 0x43, 0x44, 0x45, 0x46, 0x47, 0x48, 0x49, 0x4a, 0x4b, 0x4c, 0x4d, 0x4e, 0x4f,
    0x50, 0x51, 0x52, 0x53, 0x54, 0x55, 0x56, 0x57, 0x58, 0x59, 0x5a, 0x5b, 0x5c, 0x5d, 0x5e, 0x5f,
    0x60, 0x61, 0x62, 0x63, 0x64, 0x65, 0x66, 0x67, 0x68, 0x69, 0x6a, 0x6b, 0x6c, 0x6d, 0x6e, 0x6f,
    0x70, 0x71, 0x72, 0x73, 0x74, 0x75, 0x76, 0x77, 0x78, 0x79, 0x7a, 0x7b, 0x7c, 0x7d, 0x7e, 0x7f,
    0x80, 0x81, 0x82, 0x83, 0x84, 0x85, 0x86, 0x87, 0x88, 0x89, 0x8a, 0x8b, 0x8c, 0x8d, 0x8e, 0x8f,
    0x90, 0x91, 0x92, 0x93, 0x94, 0x95, 0x96, 0x97, 0x98, 0x99, 0x9a, 0x9b, 0x9c, 0x9d, 0x9e, 0x9f,
    0xa0, 0xa1, 0xa2, 0xa3, 0xa4, 0xa5, 0xa6, 0xa7, 0xa8, 0xa9, 0xaa, 0xab, 0xac, 0xad, 0xae, 0xaf,
    0xb0, 0xb1, 0xb2, 0xb3, 0xb4, 0xb5, 0xb6, 0xb7, 0xb8, 0xb9, 0xba, 0xbb, 0xbc, 0xbd, 0xbe, 0xbf,
    0xc0, 0xc1, 0xc2, 0xc3, 0xc4, 0xc5, 0xc6, 0xc7, 0xc8, 0xc9, 0xca, 0xcb, 0xcc, 0xcd, 0xce, 0xcf,
    0xd0, 0xd1, 0xd2, 0xd3, 0xd4, 0xd5, 0xd6, 0xd7, 0xd8, 0xd9, 0xda, 0xdb, 0xdc, 0xdd, 0xde, 0xdf,
    0xe0, 0xe1, 0xe2, 0xe3, 0xe4, 0xe5, 0xe6, 0xe7, 0xe8, 0xe9, 0xea, 0xeb, 0xec, 0xed, 0xee, 0xef,
    0xf0, 0xf1, 0xf2, 0xf3, 0xf4, 0xf5, 0xf6, 0xf7, 0xf8, 0xf9, 0xfa, 0xfb, 0xfc, 0xfd, 0xfe, 0xff]"
  unfolding bytes_from_upt [of 256 0, simplified, symmetric]
  by (simp add: bytes_from_numeral)

lemma byte_in_upt: "x \<in> set (map (of_nat :: nat \<Rightarrow> byte) [0..<256])"
proof -
  have "x = of_nat (unat x)" and "unat x < 256"
    using unsigned_less [of x] by simp_all
  then show ?thesis
    by (metis (no_types, lifting) atLeast0LessThan atLeast_upt image_eqI lessThan_iff list.set_map)
qed

lemma all_bytes: "(\<forall>x :: byte. P x) \<longleftrightarrow> list_all P (map of_nat [0..<256])"
  using byte_in_upt by (auto simp: list_all_iff simp del: set_map)

definition is_gpow :: "byte \<Rightarrow> bool" where
  "is_gpow x \<longleftrightarrow> (\<exists>k<255. x = gpow 3 k)"

lemma is_gpow_gens: "list_all is_gpow (gens 255 1)"
  by (auto simp: list_all_iff is_gpow_def simp flip: gpow_3_lit)

lemma nonzero_is_gpow: "x \<noteq> 0 \<Longrightarrow> is_gpow x"
proof -
  have "list_all (\<lambda>x. x \<noteq> 0 \<longrightarrow> is_gpow x) (map (of_nat :: nat \<Rightarrow> byte) [0..<256])"
    unfolding bytes_lit using is_gpow_gens unfolding gens_lit list.pred_inject by simp
  then show "x \<noteq> 0 \<Longrightarrow> is_gpow x"
    using all_bytes [of "\<lambda>x. x \<noteq> 0 \<longrightarrow> is_gpow x"] by blast
qed

lemma gmul_inv: "x \<noteq> 0 \<Longrightarrow> gmul x (gf256_inv x) = 1"
proof -
  assume "x \<noteq> 0"
  then obtain k where "x = gpow 3 k"
    using nonzero_is_gpow is_gpow_def by blast
  then have "gmul x (gf256_inv x) = gpow (gpow 3 k) 255"
    using gpow.simps(2) [of x 254] by (simp add: gf256_inv_gpow del: gpow.simps)
  also have "\<dots> = gpow (gpow 3 255) k"
    by (simp only: gpow_mult [symmetric] mult.commute)
  finally show ?thesis
    by (simp only: gpow_3_255 gpow_one)
qed

section \<open>The S-box\<close>

definition sbox_affine :: "byte \<Rightarrow> byte" where
  "sbox_affine v = v XOR rotl8 v 1 XOR rotl8 v 2 XOR rotl8 v 3 XOR rotl8 v 4 XOR 0x63"

lemma ct_sbox_affine: "ct_sbox x = sbox_affine (gf256_inv x)"
  by (simp add: ct_sbox_def sbox_affine_def Let_def)

lemma gf256_inv_0: "gf256_inv 0 = 0"
  by (simp add: gf256_inv_gpow numeral_eq_Suc)

lemma gf256_inv_gpow_3: "k < 255 \<Longrightarrow> gf256_inv (gpow 3 (Suc k)) = gpow 3 (254 - k)"
proof -
  assume k: "k < 255"
  have "gf256_inv (gpow 3 (Suc k)) = gpow 3 (254 * Suc k)"
    by (simp only: gf256_inv_gpow gpow_mult)
  also have "254 * Suc k = k * 255 + (254 - k)"
    using k by simp
  also have "gpow 3 \<dots> = gpow 3 (254 - k)"
    by (simp only: gpow_add gpow_mult gpow_3_255 gpow_one gmul_small)
  finally show ?thesis .
qed

lemma gf256_inv_gens: "map gf256_inv (gens 255 1) = 1 # rev (tl (gens 255 1))"
proof (rule nth_equalityI)
  fix i
  assume "i < length (map gf256_inv (gens 255 1))"
  then have i: "i < 255"
    by (simp flip: gpow_3_lit)
  show "map gf256_inv (gens 255 1) ! i = (1 # rev (tl (gens 255 1))) ! i"
  proof (cases i)
    case 0
    then show ?thesis by (simp add: gf256_inv_gpow flip: gpow_3_lit)
  next
    case (Suc k)
    with i have "rev (tl (map (gpow 3) [0..<255])) ! k = gpow 3 (254 - k)"
      by (simp add: rev_nth nth_tl Suc_diff_le [symmetric] del: gpow.simps)
    with Suc i show ?thesis
      by (simp add: gf256_inv_gpow_3 del: gpow.simps flip: gpow_3_lit)
  qed
qed (simp flip: gpow_3_lit)

lemma ct_sbox_gens:
  "map ct_sbox (gens 255 1) = [
    0x7c, 0x7b, 0x6b, 0x76, 0x82, 0xc3, 0xfc, 0x16, 0xa2, 0x31, 0x40, 0x90, 0x32, 0x41, 0x7d, 0x96,
    0xcf, 0xf8, 0x07, 0x52, 0x61, 0x8f, 0x2a, 0x49, 0x68, 0x77, 0x6f, 0x67, 0x72, 0x93, 0x33, 0xac,
    0xd9, 0x18, 0x4a, 0x69, 0x9a, 0xcb, 0xe9, 0xf7, 0x02, 0xae, 0x35, 0x51, 0x60, 0x62, 0x8e, 0xc7,
    0xed, 0xe6, 0xf2, 0xfe, 0xfa, 0xeb, 0x1b, 0x4b, 0x84, 0x3e, 0x45, 0x6c, 0x66, 0x9f, 0x37, 0xbd,
    0x29, 0x48, 0x85, 0xd3, 0xe1, 0xe2, 0xe3, 0x0e, 0xaa, 0x24, 0xa1, 0x30, 0xad, 0x34, 0xbc, 0xc4,
    0xec, 0x0b, 0x56, 0x70, 0x7f, 0x7a, 0x86, 0xd2, 0x0c, 0x46, 0x6d, 0x8b, 0x3b, 0xb9, 0x38, 0xb8,
    0xd5, 0x1c, 0x5b, 0x99, 0xca, 0x04, 0x53, 0x8c, 0x2b, 0xa4, 0xcc, 0xf9, 0xea, 0xf6, 0xef, 0x0a,
    0xbb, 0xd4, 0xf1, 0xff, 0x17, 0x4f, 0x95, 0xce, 0x15, 0xa3, 0xdc, 0xe4, 0x1e, 0xb7, 0xd0, 0xe0,
    0x0f, 0x47, 0x80, 0x2f, 0xb5, 0x3c, 0xa9, 0x25, 0x4c, 0x94, 0x23, 0xb1, 0x2d, 0x59, 0x75, 0x83,
    0x2e, 0x58, 0x98, 0x27, 0xa0, 0xdd, 0x09, 0xba, 0x39, 0x55, 0x71, 0x92, 0xde, 0x08, 0x57, 0x9d,
    0xdb, 0xf4, 0x03, 0x43, 0x91, 0xdf, 0xe5, 0xf3, 0x13, 0x5e, 0x65, 0x9e, 0xda, 0x19, 0xa7, 0xcd,
    0x14, 0x4e, 0x78, 0x6a, 0x9b, 0x26, 0x4d, 0x79, 0x87, 0x3f, 0xa8, 0xc8, 0xe8, 0x1a, 0xa6, 0x20,
    0xb0, 0xc0, 0xfd, 0xfb, 0x06, 0xbf, 0xc5, 0x01, 0xaf, 0xd8, 0xf5, 0xee, 0xe7, 0x1f, 0x5a, 0x74,
    0x6e, 0x8a, 0xd6, 0x1d, 0xb6, 0x3d, 0x44, 0x81, 0xc2, 0x11, 0xb2, 0x2c, 0xb4, 0xd1, 0x0d, 0xab,
    0xc9, 0x05, 0xbe, 0x28, 0xa5, 0x21, 0x5d, 0x64, 0x73, 0x7e, 0x97, 0x22, 0x5c, 0x89, 0xd7, 0xf0,
    0x12, 0xb3, 0xc1, 0x10, 0x5f, 0x88, 0x3a, 0x54, 0x9c, 0x36, 0x50, 0x8d, 0xc6, 0x00, 0x42]"
proof -
  have "map ct_sbox (gens 255 1) = map sbox_affine (1 # rev (tl (gens 255 1)))"
    unfolding gf256_inv_gens [symmetric] by (simp add: ct_sbox_affine comp_def)
  also have "\<dots> = [
    0x7c, 0x7b, 0x6b, 0x76, 0x82, 0xc3, 0xfc, 0x16, 0xa2, 0x31, 0x40, 0x90, 0x32, 0x41, 0x7d, 0x96,
    0xcf, 0xf8, 0x07, 0x52, 0x61, 0x8f, 0x2a, 0x49, 0x68, 0x77, 0x6f, 0x67, 0x72, 0x93, 0x33, 0xac,
    0xd9, 0x18, 0x4a, 0x69, 0x9a, 0xcb, 0xe9, 0xf7, 0x02, 0xae, 0x35, 0x51, 0x60, 0x62, 0x8e, 0xc7,
    0xed, 0xe6, 0xf2, 0xfe, 0xfa, 0xeb, 0x1b, 0x4b, 0x84, 0x3e, 0x45, 0x6c, 0x66, 0x9f, 0x37, 0xbd,
    0x29, 0x48, 0x85, 0xd3, 0xe1, 0xe2, 0xe3, 0x0e, 0xaa, 0x24, 0xa1, 0x30, 0xad, 0x34, 0xbc, 0xc4,
    0xec, 0x0b, 0x56, 0x70, 0x7f, 0x7a, 0x86, 0xd2, 0x0c, 0x46, 0x6d, 0x8b, 0x3b, 0xb9, 0x38, 0xb8,
    0xd5, 0x1c, 0x5b, 0x99, 0xca, 0x04, 0x53, 0x8c, 0x2b, 0xa4, 0xcc, 0xf9, 0xea, 0xf6, 0xef, 0x0a,
    0xbb, 0xd4, 0xf1, 0xff, 0x17, 0x4f, 0x95, 0xce, 0x15, 0xa3, 0xdc, 0xe4, 0x1e, 0xb7, 0xd0, 0xe0,
    0x0f, 0x47, 0x80, 0x2f, 0xb5, 0x3c, 0xa9, 0x25, 0x4c, 0x94, 0x23, 0xb1, 0x2d, 0x59, 0x75, 0x83,
    0x2e, 0x58, 0x98, 0x27, 0xa0, 0xdd, 0x09, 0xba, 0x39, 0x55, 0x71, 0x92, 0xde, 0x08, 0x57, 0x9d,
    0xdb, 0xf4, 0x03, 0x43, 0x91, 0xdf, 0xe5, 0xf3, 0x13, 0x5e, 0x65, 0x9e, 0xda, 0x19, 0xa7, 0xcd,
    0x14, 0x4e, 0x78, 0x6a, 0x9b, 0x26, 0x4d, 0x79, 0x87, 0x3f, 0xa8, 0xc8, 0xe8, 0x1a, 0xa6, 0x20,
    0xb0, 0xc0, 0xfd, 0xfb, 0x06, 0xbf, 0xc5, 0x01, 0xaf, 0xd8, 0xf5, 0xee, 0xe7, 0x1f, 0x5a, 0x74,
    0x6e, 0x8a, 0xd6, 0x1d, 0xb6, 0x3d, 0x44, 0x81, 0xc2, 0x11, 0xb2, 0x2c, 0xb4, 0xd1, 0x0d, 0xab,
    0xc9, 0x05, 0xbe, 0x28, 0xa5, 0x21, 0x5d, 0x64, 0x73, 0x7e, 0x97, 0x22, 0x5c, 0x89, 0xd7, 0xf0,
    0x12, 0xb3, 0xc1, 0x10, 0x5f, 0x88, 0x3a, 0x54, 0x9c, 0x36, 0x50, 0x8d, 0xc6, 0x00, 0x42]"
    unfolding gens_lit list.sel rev.simps append.simps list.map
    by (simp add: sbox_affine_def rotl8_def)
  finally show ?thesis .
qed

lemma ct_sbox_0: "ct_sbox 0 = 0x63"
  by (simp add: ct_sbox_affine gf256_inv_0 sbox_affine_def rotl8_def)

text \<open>Evaluation of the S-box on literals, one equation per byte.\<close>

lemmas ct_sbox_lit [eval_simps] =
  ct_sbox_0 ct_sbox_gens [unfolded gens_lit list.map list.inject simp_thms]

text \<open>
  Evaluation of \<open>xtime\<close> on literals; the results are reduced below 256, so that the
  table equations apply to them again.
\<close>

lemma xtime_bytes:
  "map xtime (map of_nat [0..<256]) = [
    0x00, 0x02, 0x04, 0x06, 0x08, 0x0a, 0x0c, 0x0e, 0x10, 0x12, 0x14, 0x16, 0x18, 0x1a, 0x1c, 0x1e,
    0x20, 0x22, 0x24, 0x26, 0x28, 0x2a, 0x2c, 0x2e, 0x30, 0x32, 0x34, 0x36, 0x38, 0x3a, 0x3c, 0x3e,
    0x40, 0x42, 0x44, 0x46, 0x48, 0x4a, 0x4c, 0x4e, 0x50, 0x52, 0x54, 0x56, 0x58, 0x5a, 0x5c, 0x5e,
    0x60, 0x62, 0x64, 0x66, 0x68, 0x6a, 0x6c, 0x6e, 0x70, 0x72, 0x74, 0x76, 0x78, 0x7a, 0x7c, 0x7e,
    0x80, 0x82, 0x84, 0x86, 0x88, 0x8a, 0x8c, 0x8e, 0x90, 0x92, 0x94, 0x96, 0x98, 0x9a, 0x9c, 0x9e,
    0xa0, 0xa2, 0xa4, 0xa6, 0xa8, 0xaa, 0xac, 0xae, 0xb0, 0xb2, 0xb4, 0xb6, 0xb8, 0xba, 0xbc, 0xbe,
    0xc0, 0xc2, 0xc4, 0xc6, 0xc8, 0xca, 0xcc, 0xce, 0xd0, 0xd2, 0xd4, 0xd6, 0xd8, 0xda, 0xdc, 0xde,
    0xe0, 0xe2, 0xe4, 0xe6, 0xe8, 0xea, 0xec, 0xee, 0xf0, 0xf2, 0xf4, 0xf6, 0xf8, 0xfa, 0xfc, 0xfe,
    0x1b, 0x19, 0x1f, 0x1d, 0x13, 0x11, 0x17, 0x15, 0x0b, 0x09, 0x0f, 0x0d, 0x03, 0x01, 0x07, 0x05,
    0x3b, 0x39, 0x3f, 0x3d, 0x33, 0x31, 0x37, 0x35, 0x2b, 0x29, 0x2f, 0x2d, 0x23, 0x21, 0x27, 0x25,
    0x5b, 0x59, 0x5f, 0x5d, 0x53, 0x51, 0x57, 0x55, 0x4b, 0x49, 0x4f, 0x4d, 0x43, 0x41, 0x47, 0x45,
    0x7b, 0x79, 0x7f, 0x7d, 0x73, 0x71, 0x77, 0x75, 0x6b, 0x69, 0x6f, 0x6d, 0x63, 0x61, 0x67, 0x65,
    0x9b, 0x99, 0x9f, 0x9d, 0x93, 0x91, 0x97, 0x95, 0x8b, 0x89, 0x8f, 0x8d, 0x83, 0x81, 0x87, 0x85,
    0xbb, 0xb9, 0xbf, 0xbd, 0xb3, 0xb1, 0xb7, 0xb5, 0xab, 0xa9, 0xaf, 0xad, 0xa3, 0xa1, 0xa7, 0xa5,
    0xdb, 0xd9, 0xdf, 0xdd, 0xd3, 0xd1, 0xd7, 0xd5, 0xcb, 0xc9, 0xcf, 0xcd, 0xc3, 0xc1, 0xc7, 0xc5,
    0xfb, 0xf9, 0xff, 0xfd, 0xf3, 0xf1, 0xf7, 0xf5, 0xeb, 0xe9, 0xef, 0xed, 0xe3, 0xe1, 0xe7, 0xe5]"
  unfolding bytes_lit by (simp add: xtime_def)

lemmas xtime_lit [eval_simps] = xtime_bytes [unfolded bytes_lit list.map list.inject simp_thms]

text \<open>The S-box of FIPS-197, figure 7, by rows.\<close>

definition fips_sbox :: "byte list" where
  "fips_sbox = [
    0x63, 0x7c, 0x77, 0x7b, 0xf2, 0x6b, 0x6f, 0xc5, 0x30, 0x01, 0x67, 0x2b, 0xfe, 0xd7, 0xab, 0x76,
    0xca, 0x82, 0xc9, 0x7d, 0xfa, 0x59, 0x47, 0xf0, 0xad, 0xd4, 0xa2, 0xaf, 0x9c, 0xa4, 0x72, 0xc0,
    0xb7, 0xfd, 0x93, 0x26, 0x36, 0x3f, 0xf7, 0xcc, 0x34, 0xa5, 0xe5, 0xf1, 0x71, 0xd8, 0x31, 0x15,
    0x04, 0xc7, 0x23, 0xc3, 0x18, 0x96, 0x05, 0x9a, 0x07, 0x12, 0x80, 0xe2, 0xeb, 0x27, 0xb2, 0x75,
    0x09, 0x83, 0x2c, 0x1a, 0x1b, 0x6e, 0x5a, 0xa0, 0x52, 0x3b, 0xd6, 0xb3, 0x29, 0xe3, 0x2f, 0x84,
    0x53, 0xd1, 0x00, 0xed, 0x20, 0xfc, 0xb1, 0x5b, 0x6a, 0xcb, 0xbe, 0x39, 0x4a, 0x4c, 0x58, 0xcf,
    0xd0, 0xef, 0xaa, 0xfb, 0x43, 0x4d, 0x33, 0x85, 0x45, 0xf9, 0x02, 0x7f, 0x50, 0x3c, 0x9f, 0xa8,
    0x51, 0xa3, 0x40, 0x8f, 0x92, 0x9d, 0x38, 0xf5, 0xbc, 0xb6, 0xda, 0x21, 0x10, 0xff, 0xf3, 0xd2,
    0xcd, 0x0c, 0x13, 0xec, 0x5f, 0x97, 0x44, 0x17, 0xc4, 0xa7, 0x7e, 0x3d, 0x64, 0x5d, 0x19, 0x73,
    0x60, 0x81, 0x4f, 0xdc, 0x22, 0x2a, 0x90, 0x88, 0x46, 0xee, 0xb8, 0x14, 0xde, 0x5e, 0x0b, 0xdb,
    0xe0, 0x32, 0x3a, 0x0a, 0x49, 0x06, 0x24, 0x5c, 0xc2, 0xd3, 0xac, 0x62, 0x91, 0x95, 0xe4, 0x79,
    0xe7, 0xc8, 0x37, 0x6d, 0x8d, 0xd5, 0x4e, 0xa9, 0x6c, 0x56, 0xf4, 0xea, 0x65, 0x7a, 0xae, 0x08,
    0xba, 0x78, 0x25, 0x2e, 0x1c, 0xa6, 0xb4, 0xc6, 0xe8, 0xdd, 0x74, 0x1f, 0x4b, 0xbd, 0x8b, 0x8a,
    0x70, 0x3e, 0xb5, 0x66, 0x48, 0x03, 0xf6, 0x0e, 0x61, 0x35, 0x57, 0xb9, 0x86, 0xc1, 0x1d, 0x9e,
    0xe1, 0xf8, 0x98, 0x11, 0x69, 0xd9, 0x8e, 0x94, 0x9b, 0x1e, 0x87, 0xe9, 0xce, 0x55, 0x28, 0xdf,
    0x8c, 0xa1, 0x89, 0x0d, 0xbf, 0xe6, 0x42, 0x68, 0x41, 0x99, 0x2d, 0x0f, 0xb0, 0x54, 0xbb, 0x16]"

definition fips_inv_sbox :: "byte list" where
  "fips_inv_sbox = [
    0x52, 0x09, 0x6a, 0xd5, 0x30, 0x36, 0xa5, 0x38, 0xbf, 0x40, 0xa3, 0x9e, 0x81, 0xf3, 0xd7, 0xfb,
    0x7c, 0xe3, 0x39, 0x82, 0x9b, 0x2f, 0xff, 0x87, 0x34, 0x8e, 0x43, 0x44, 0xc4, 0xde, 0xe9, 0xcb,
    0x54, 0x7b, 0x94, 0x32, 0xa6, 0xc2, 0x23, 0x3d, 0xee, 0x4c, 0x95, 0x0b, 0x42, 0xfa, 0xc3, 0x4e,
    0x08, 0x2e, 0xa1, 0x66, 0x28, 0xd9, 0x24, 0xb2, 0x76, 0x5b, 0xa2, 0x49, 0x6d, 0x8b, 0xd1, 0x25,
    0x72, 0xf8, 0xf6, 0x64, 0x86, 0x68, 0x98, 0x16, 0xd4, 0xa4, 0x5c, 0xcc, 0x5d, 0x65, 0xb6, 0x92,
    0x6c, 0x70, 0x48, 0x50, 0xfd, 0xed, 0xb9, 0xda, 0x5e, 0x15, 0x46, 0x57, 0xa7, 0x8d, 0x9d, 0x84,
    0x90, 0xd8, 0xab, 0x00, 0x8c, 0xbc, 0xd3, 0x0a, 0xf7, 0xe4, 0x58, 0x05, 0xb8, 0xb3, 0x45, 0x06,
    0xd0, 0x2c, 0x1e, 0x8f, 0xca, 0x3f, 0x0f, 0x02, 0xc1, 0xaf, 0xbd, 0x03, 0x01, 0x13, 0x8a, 0x6b,
    0x3a, 0x91, 0x11, 0x41, 0x4f, 0x67, 0xdc, 0xea, 0x97, 0xf2, 0xcf, 0xce, 0xf0, 0xb4, 0xe6, 0x73,
    0x96, 0xac, 0x74, 0x22, 0xe7, 0xad, 0x35, 0x85, 0xe2, 0xf9, 0x37, 0xe8, 0x1c, 0x75, 0xdf, 0x6e,
    0x47, 0xf1, 0x1a, 0x71, 0x1d, 0x29, 0xc5, 0x89, 0x6f, 0xb7, 0x62, 0x0e, 0xaa, 0x18, 0xbe, 0x1b,
    0xfc, 0x56, 0x3e, 0x4b, 0xc6, 0xd2, 0x79, 0x20, 0x9a, 0xdb, 0xc0, 0xfe, 0x78, 0xcd, 0x5a, 0xf4,
    0x1f, 0xdd, 0xa8, 0x33, 0x88, 0x07, 0xc7, 0x31, 0xb1, 0x12, 0x10, 0x59, 0x27, 0x80, 0xec, 0x5f,
    0x60, 0x51, 0x7f, 0xa9, 0x19, 0xb5, 0x4a, 0x0d, 0x2d, 0xe5, 0x7a, 0x9f, 0x93, 0xc9, 0x9c, 0xef,
    0xa0, 0xe0, 0x3b, 0x4d, 0xae, 0x2a, 0xf5, 0xb0, 0xc8, 0xeb, 0xbb, 0x3c, 0x83, 0x53, 0x99, 0x61,
    0x17, 0x2b, 0x04, 0x7e, 0xba, 0x77, 0xd6, 0x26, 0xe1, 0x69, 0x14, 0x63, 0x55, 0x21, 0x0c, 0x7d]"

lemma fips_sbox_map: "fips_sbox = map ct_sbox (map of_nat [0..<256])"
  unfolding bytes_lit fips_sbox_def by (simp add: ct_sbox_lit)

lemma ct_sbox_table: "ct_sbox x = fips_sbox ! unat x"
proof -
  have "unat x < 256"
    using unsigned_less [of x] by simp
  then show ?thesis
    by (simp add: fips_sbox_map)
qed

definition inv_sbox :: "byte \<Rightarrow> byte" where
  "inv_sbox x = fips_inv_sbox ! unat x"

lemma inv_sbox_ct_sbox [simp]: "inv_sbox (ct_sbox x) = x"
proof -
  have "list_all (\<lambda>x. inv_sbox (ct_sbox x) = x) (map of_nat [0..<256])"
    unfolding bytes_lit by (simp add: ct_sbox_lit inv_sbox_def fips_inv_sbox_def)
  then show ?thesis
    using all_bytes [of "\<lambda>x. inv_sbox (ct_sbox x) = x"] by blast
qed

lemma inj_ct_sbox: "inj ct_sbox"
  by (rule inj_on_inverseI [where g = inv_sbox]) simp

text \<open>Products of literals, for the inverse of the column mix.\<close>

lemma gmul_loop_numeral [eval_simps]:
  "gmul_loop (numeral k) a b p =
     gmul_loop (pred_numeral k) (xtime a) (drop_bit 1 b) (p XOR (a AND - (b AND 1)))"
  by (simp add: numeral_eq_Suc)

lemma gmul_scale_sum:
  "gmul (gmul a p XOR gmul b q XOR gmul c r XOR gmul d s) k =
     gmul a (gmul p k) XOR gmul b (gmul q k) XOR gmul c (gmul r k) XOR gmul d (gmul s k)"
  by (simp only: gf256.mult_xor_left gf256.mult_assoc)

section \<open>Properties\<close>

text \<open>
  C22. The constant-time S-box, computed by inversion and the affine map without any
  table, agrees with the published FIPS-197 S-box on every byte.
\<close>

theorem ct_sbox_is_fips_sbox: "ct_sbox x = fips_sbox ! unat x"
  by (rule ct_sbox_table)

text \<open>
  The square-and-multiply chain is inversion in GF(2^8): a byte times its image is 1
  unless the byte is 0, which maps to 0; and the branch-free product it is built from is
  commutative, associative, distributes over exclusive or and has unit 1.
\<close>

theorem gf256_inv_is_inverse:
  "gmul x (gf256_inv x) = (if x = 0 then 0 else 1) \<and> gf256_inv 0 = 0 \<and>
   gmul x y = gmul y x \<and> gmul (gmul x y) z = gmul x (gmul y z) \<and>
   gmul x (y XOR z) = gmul x y XOR gmul x z \<and> gmul x 1 = x"
  using gmul_inv gf256.mult_commute gf256.mult_assoc gf256.mult_xor_right
  by (simp add: gf256_inv_0)

end
