(* ===== verification/Posix.thy ===== *)
theory Posix
  imports Aes_Prelude
begin

text \<open>
  The operating-system calls the library makes, as parameters. Their code is not part
  of the repository, so a model function that performs I/O takes a record of type
  \<open>'w system\<close>: the system the build is for, and one function per system call over an
  abstract world of type \<open>'w\<close>. The source selects a branch per system with \<^verbatim>\<open>#if\<close>; the
  model selects it by the field \<open>sys_target\<close>, and a branch uses only the calls of its
  system. Effects are threaded explicitly by \<open>('w, 'a) io\<close>: a computation that may not
  return (\<open>None\<close>), may throw (\<open>Inl\<close>) or yields a value with the new world.
\<close>

section \<open>System calls\<close>

datatype target_os = OsLinux | OsApple | OsWindows | OsOther

text \<open>\<^verbatim>\<open>getrandom(2)\<close> fills a prefix of the buffer, is interrupted, or fails.\<close>

datatype getrandom_result = GrBytes bytes | GrEintr | GrError string

text \<open>
  POSIX: file descriptors and \<^verbatim>\<open>ssize_t\<close> results are \<open>int\<close> (negative on error); a read yields
  \<open>None\<close> on error and otherwise the bytes stored. \<open>sys_open_wr\<close> is \<^verbatim>\<open>open\<close> with
  \<^verbatim>\<open>O_WRONLY | O_CREAT | O_TRUNC | O_NOFOLLOW\<close> and a creation mode, \<open>sys_open_rd\<close> is
  \<^verbatim>\<open>open\<close> with \<^verbatim>\<open>O_RDONLY\<close>.

  Win32: a handle is an \<open>int\<close> and \<open>None\<close> is \<^verbatim>\<open>INVALID_HANDLE_VALUE\<close>. \<open>w32_create_wr\<close> is
  \<^verbatim>\<open>CreateFileW\<close> with \<^verbatim>\<open>GENERIC_WRITE\<close>, \<^verbatim>\<open>CREATE_ALWAYS\<close> and the reparse-point flag,
  \<open>w32_create_rd\<close> is \<^verbatim>\<open>CreateFileW\<close> with \<^verbatim>\<open>GENERIC_READ\<close> and \<^verbatim>\<open>OPEN_EXISTING\<close>.
  \<^verbatim>\<open>WriteFile\<close> gets the buffer of the \<^verbatim>\<open>DWORD\<close> length it is called with and answers its
  success and the \<^verbatim>\<open>DWORD\<close> count; \<^verbatim>\<open>ReadFile\<close> answers its success and the bytes stored;
  \<^verbatim>\<open>GetFileInformationByHandle\<close> answers the attributes or fails; \<^verbatim>\<open>BCryptGenRandom\<close> takes
  a \<^verbatim>\<open>ULONG\<close> length and answers the bytes stored, or \<open>None\<close> for a status other than 0.

  The \<open>ifs\<close> calls are the \<^verbatim>\<open>std::ifstream\<close> operations of \<^verbatim>\<open>read_file\<close>, on every system:
  opening at the end, \<^verbatim>\<open>tellg\<close>, and \<^verbatim>\<open>seekg(0)\<close> followed by \<^verbatim>\<open>read\<close>.
\<close>

record 'w system =
  sys_target :: target_os
  sys_getrandom :: "nat \<Rightarrow> 'w \<Rightarrow> getrandom_result \<times> 'w"
  sys_arc4random_buf :: "nat \<Rightarrow> 'w \<Rightarrow> bytes \<times> 'w"
  sys_open_wr :: "string \<Rightarrow> nat \<Rightarrow> 'w \<Rightarrow> int \<times> 'w"
  sys_open_rd :: "string \<Rightarrow> 'w \<Rightarrow> int \<times> 'w"
  sys_write :: "int \<Rightarrow> bytes \<Rightarrow> 'w \<Rightarrow> int \<times> 'w"
  sys_read :: "int \<Rightarrow> nat \<Rightarrow> 'w \<Rightarrow> bytes option \<times> 'w"
  sys_close :: "int \<Rightarrow> 'w \<Rightarrow> 'w"
  w32_BCryptGenRandom :: "u32 \<Rightarrow> 'w \<Rightarrow> bytes option \<times> 'w"
  w32_create_wr :: "string \<Rightarrow> 'w \<Rightarrow> int option \<times> 'w"
  w32_create_rd :: "string \<Rightarrow> 'w \<Rightarrow> int option \<times> 'w"
  w32_file_information :: "int \<Rightarrow> 'w \<Rightarrow> u32 option \<times> 'w"
  w32_WriteFile :: "int \<Rightarrow> bytes \<Rightarrow> 'w \<Rightarrow> bool \<times> u32 \<times> 'w"
  w32_ReadFile :: "int \<Rightarrow> u32 \<Rightarrow> 'w \<Rightarrow> bool \<times> bytes \<times> 'w"
  w32_CloseHandle :: "int \<Rightarrow> 'w \<Rightarrow> 'w"
  ifs_open :: "string \<Rightarrow> 'w \<Rightarrow> int option \<times> 'w"
  ifs_tellg :: "int \<Rightarrow> 'w \<Rightarrow> int \<times> 'w"
  ifs_read :: "int \<Rightarrow> nat \<Rightarrow> 'w \<Rightarrow> bytes option \<times> 'w"
  ifs_close :: "int \<Rightarrow> 'w \<Rightarrow> 'w"

section \<open>Effects\<close>

type_synonym ('w, 'a) io = "'w \<Rightarrow> ('a res \<times> 'w) option"

definition io_return :: "'a \<Rightarrow> ('w, 'a) io" where
  "io_return x = (\<lambda>w. Some (Inr x, w))"

definition io_throw :: "aes_error \<Rightarrow> ('w, 'a) io" where
  "io_throw e = (\<lambda>w. Some (Inl e, w))"

definition io_bind :: "('w, 'a) io \<Rightarrow> ('a \<Rightarrow> ('w, 'b) io) \<Rightarrow> ('w, 'b) io" where
  "io_bind m f = (\<lambda>w. case m w of
      None \<Rightarrow> None
    | Some (Inl e, w') \<Rightarrow> Some (Inl e, w')
    | Some (Inr x, w') \<Rightarrow> f x w')"

definition io_lift :: "'a res \<Rightarrow> ('w, 'a) io" where
  "io_lift r = (\<lambda>w. Some (r, w))"

lemma io_simps [simp]:
  "io_return x w = Some (Inr x, w)"
  "io_throw e w = Some (Inl e, w)"
  "io_lift r w = Some (r, w)"
  by (simp_all add: io_return_def io_throw_def io_lift_def)

lemma io_bind_step [simp]:
  "m w = None \<Longrightarrow> io_bind m f w = None"
  "m w = Some (Inl e, w') \<Longrightarrow> io_bind m f w = Some (Inl e, w')"
  "m w = Some (Inr x, w') \<Longrightarrow> io_bind m f w = f x w'"
  by (simp_all add: io_bind_def)

lemma io_bind_InrE:
  assumes "io_bind m f w = Some (Inr y, w'')"
  obtains x w' where "m w = Some (Inr x, w')" and "f x w' = Some (Inr y, w'')"
  using assms by (auto simp: io_bind_def split: option.splits sum.splits prod.splits)

lemma io_lift_bind [simp]:
  "io_bind (io_lift (Inr x)) f = f x"
  "io_bind (io_lift (Inl e)) f = io_throw e"
  "io_bind (io_return x) f = f x"
  "io_bind (io_throw e) f = io_throw e"
  by (simp_all add: io_bind_def io_lift_def io_return_def io_throw_def fun_eq_iff)

lemma io_bind_cong:
  "(\<And>x w'. m w = Some (Inr x, w') \<Longrightarrow> f x w' = g x w') \<Longrightarrow> io_bind m f w = io_bind m g w"
  by (auto simp: io_bind_def split: option.split sum.split)

end
