(* ===== verification/Csprng.thy ===== *)
theory Csprng
  imports Posix
begin

text \<open>
  The random-byte source of \<^verbatim>\<open>src/csprng.cpp\<close>, one \<^verbatim>\<open>fill_random\<close> per system:
  \<^verbatim>\<open>BCryptGenRandom\<close> on Windows, \<^verbatim>\<open>getrandom(2)\<close> in a loop on Linux, \<^verbatim>\<open>arc4random_buf\<close>
  elsewhere. The result is what has been stored in the buffer, from its start on. The
  Linux branch retries on \<^verbatim>\<open>EINTR\<close> without a bound, so its loop is a partial function.
\<close>

section \<open>Definitions\<close>

text \<open>The length is cast to a \<^verbatim>\<open>ULONG\<close>, 32 bits wide.\<close>

definition fill_random_win32 :: "'w system \<Rightarrow> nat \<Rightarrow> ('w, bytes) io" where
  "fill_random_win32 os sz w =
     (case w32_BCryptGenRandom os (of_nat sz) w of
        (None, w) \<Rightarrow> Some (Inl (IoError ''BCryptGenRandom failed''), w)
      | (Some bs, w) \<Rightarrow> Some (Inr bs, w))"

text \<open>
  \<open>filled\<close> holds the bytes stored so far, so \<open>length filled\<close> is the variable of the same
  name in the source; at most \<open>sz - length filled\<close> bytes of an answer fit the buffer.
\<close>

partial_function (option) fill_random_loop ::
  "'w system \<Rightarrow> nat \<Rightarrow> bytes \<Rightarrow> 'w \<Rightarrow> (bytes res \<times> 'w) option" where
  "fill_random_loop os sz filled w =
     (if length filled < sz then
        (case sys_getrandom os (sz - length filled) w of
           (GrEintr, w') \<Rightarrow> fill_random_loop os sz filled w'
         | (GrError msg, w') \<Rightarrow> Some (Inl (IoError (''getrandom failed: '' @ msg)), w')
         | (GrBytes bs, w') \<Rightarrow> fill_random_loop os sz (filled @ bs) w')
      else Some (Inr filled, w))"

definition fill_random_linux :: "'w system \<Rightarrow> nat \<Rightarrow> ('w, bytes) io" where
  "fill_random_linux os sz = fill_random_loop os sz []"

definition fill_random_arc4 :: "'w system \<Rightarrow> nat \<Rightarrow> ('w, bytes) io" where
  "fill_random_arc4 os sz w = (case sys_arc4random_buf os sz w of (bs, w) \<Rightarrow> Some (Inr bs, w))"

definition fill_random :: "'w system \<Rightarrow> nat \<Rightarrow> ('w, bytes) io" where
  "fill_random os =
     (case sys_target os of
        OsWindows \<Rightarrow> fill_random_win32 os
      | OsLinux \<Rightarrow> fill_random_linux os
      | _ \<Rightarrow> fill_random_arc4 os)"

section \<open>The stored bytes\<close>

text \<open>
  What the systems document: \<^verbatim>\<open>getrandom\<close> never stores more bytes than it was asked for;
  \<^verbatim>\<open>arc4random_buf\<close> and a successful \<^verbatim>\<open>BCryptGenRandom\<close> store exactly that many.
\<close>

definition getrandom_law :: "'w system \<Rightarrow> bool" where
  "getrandom_law os \<longleftrightarrow> (\<forall>k w bs w'. sys_getrandom os k w = (GrBytes bs, w') \<longrightarrow> length bs \<le> k)"

definition random_documented :: "'w system \<Rightarrow> bool" where
  "random_documented os \<longleftrightarrow>
     (case sys_target os of
        OsWindows \<Rightarrow> (\<forall>k w bs w'. w32_BCryptGenRandom os k w = (Some bs, w') \<longrightarrow> length bs = unat k)
      | OsLinux \<Rightarrow> getrandom_law os
      | _ \<Rightarrow> (\<forall>k w bs w'. sys_arc4random_buf os k w = (bs, w') \<longrightarrow> length bs = k))"

lemma getrandom_lawD:
  "getrandom_law os \<Longrightarrow> sys_getrandom os k w = (GrBytes bs, w') \<Longrightarrow> length bs \<le> k"
  unfolding getrandom_law_def by blast

lemma fill_random_loop_length:
  assumes "fill_random_loop os sz filled w = Some (Inr bs, w')"
    and "getrandom_law os" and "length filled \<le> sz"
  shows "length bs = sz"
proof -
  let ?P = "\<lambda>os sz filled (w :: 'a) (y :: bytes res \<times> 'a).
    getrandom_law os \<longrightarrow> length filled \<le> sz \<longrightarrow>
    (\<forall>bs. fst y = Inr bs \<longrightarrow> length bs = sz)"
  have "?P os sz filled w (Inr bs, w')"
  proof (rule fill_random_loop.raw_induct [where P = ?P, OF _ assms(1)], goal_cases)
    case (1 f os sz filled w y)
    show ?case
    proof (cases "length filled < sz")
      case True
      obtain g w1 where g: "sys_getrandom os (sz - length filled) w = (g, w1)"
        by fastforce
      show ?thesis
      proof (cases g)
        case (GrBytes bs)
        with 1(2) True g have "f os sz (filled @ bs) w1 = Some y" by simp
        note IH = 1(1) [OF this]
        show ?thesis
        proof (intro impI)
          assume os: "getrandom_law os"
          have "length bs \<le> sz - length filled"
            by (rule getrandom_lawD [OF os g [unfolded GrBytes]])
          with True have "length (filled @ bs) \<le> sz" by simp
          with IH os show "\<forall>bs. fst y = Inr bs \<longrightarrow> length bs = sz" by blast
        qed
      next
        case GrEintr
        with 1(2) True g have "f os sz filled w1 = Some y" by simp
        from 1(1) [OF this] show ?thesis .
      next
        case (GrError msg)
        with 1(2) True g show ?thesis by auto
      qed
    next
      case False
      with 1(2) show ?thesis by auto
    qed
  qed
  with assms(2,3) show ?thesis by simp
qed

text \<open>
  On success the buffer is full, for every buffer whose length fits the \<^verbatim>\<open>ULONG\<close> of the
  Windows call; a longer one is filled only up to its length modulo \<open>2 ^ 32\<close> there.
\<close>

lemma fill_random_win32_length:
  assumes "random_documented os" and "sys_target os = OsWindows"
    and "fill_random os sz w = Some (Inr bs, w')"
  shows "length bs = sz mod 2 ^ 32"
proof -
  have "w32_BCryptGenRandom os (of_nat sz) w = (Some bs, w')"
    using assms(2,3) by (auto simp: fill_random_def fill_random_win32_def split: prod.splits option.splits)
  then have "length bs = unat (of_nat sz :: u32)"
    using assms(1,2) unfolding random_documented_def by simp metis
  then show ?thesis by (simp add: unsigned_of_nat take_bit_nat_def)
qed

lemma fill_random_posix_length:
  assumes "random_documented os" and "sys_target os \<noteq> OsWindows"
    and "fill_random os sz w = Some (Inr bs, w')"
  shows "length bs = sz"
  using assms fill_random_loop_length [of os sz "[]" w bs w']
  by (cases "sys_target os") (auto simp: fill_random_def fill_random_linux_def fill_random_arc4_def
      random_documented_def split: prod.splits)

lemma fill_random_length:
  assumes "random_documented os" and "fill_random os sz w = Some (Inr bs, w')" and "sz < 2 ^ 32"
  shows "length bs = sz"
  using assms fill_random_win32_length fill_random_posix_length by (cases "sys_target os = OsWindows") fastforce+

section \<open>Termination\<close>

text \<open>
  What makes the retry loop of \<^verbatim>\<open>fill_random\<close> end: \<^verbatim>\<open>getrandom\<close> stores at least one byte
  when it succeeds, and it is interrupted at most \<open>m w\<close> times in a row.
\<close>

definition getrandom_progress :: "'w system \<Rightarrow> ('w \<Rightarrow> nat) \<Rightarrow> bool" where
  "getrandom_progress os m \<longleftrightarrow> sys_target os \<noteq> OsLinux \<or>
     (\<forall>k w. 0 < k \<longrightarrow> (case sys_getrandom os k w of
        (GrBytes bs, w') \<Rightarrow> bs \<noteq> [] | (GrEintr, w') \<Rightarrow> m w' < m w | (GrError msg, w') \<Rightarrow> True))"

lemma getrandom_progressD:
  "getrandom_progress os m \<Longrightarrow> sys_target os = OsLinux \<Longrightarrow> 0 < k \<Longrightarrow>
     (case sys_getrandom os k w of
        (GrBytes bs, w') \<Rightarrow> bs \<noteq> [] | (GrEintr, w') \<Rightarrow> m w' < m w | (GrError msg, w') \<Rightarrow> True)"
  by (simp add: getrandom_progress_def)

lemma fill_random_loop_returns:
  assumes "getrandom_progress os m" and "sys_target os = OsLinux"
  shows "\<exists>r. fill_random_loop os sz filled w = Some r"
proof (induction "(sz - length filled, m w)" arbitrary: filled w
    rule: wf_induct_rule [OF wf_lex_prod [OF wf_less_than wf_less_than]])
  case 1
  show ?case
  proof (cases "length filled < sz")
    case True
    obtain g w1 where g: "sys_getrandom os (sz - length filled) w = (g, w1)"
      by fastforce
    note p = getrandom_progressD [OF assms, of "sz - length filled" w, unfolded g]
    show ?thesis
    proof (cases g)
      case (GrBytes bs)
      with p True have "bs \<noteq> []" by simp
      with True have "((sz - length (filled @ bs), m w1), (sz - length filled, m w)) \<in> less_than <*lex*> less_than"
        by (cases bs) auto
      then have "\<exists>r. fill_random_loop os sz (filled @ bs) w1 = Some r" by (rule 1)
      with GrBytes g True show ?thesis by (subst fill_random_loop.simps) simp
    next
      case GrEintr
      with p True have "((sz - length filled, m w1), (sz - length filled, m w)) \<in> less_than <*lex*> less_than"
        by simp
      then have "\<exists>r. fill_random_loop os sz filled w1 = Some r" by (rule 1)
      with GrEintr g True show ?thesis by (subst fill_random_loop.simps) simp
    next
      case (GrError msg)
      with g True show ?thesis by (subst fill_random_loop.simps) simp
    qed
  qed (subst fill_random_loop.simps, simp)
qed

lemma fill_random_returns:
  assumes "getrandom_progress os m"
  shows "\<exists>r. fill_random os sz w = Some r"
  using fill_random_loop_returns [OF assms]
  by (cases "sys_target os") (auto simp: fill_random_def fill_random_linux_def fill_random_arc4_def
      fill_random_win32_def split: prod.split option.split)

text \<open>The only error of the random source.\<close>

lemma fill_random_loop_error:
  assumes "fill_random_loop os sz filled w = Some (Inl e, w')"
  shows "\<exists>m. e = IoError m"
proof -
  let ?P = "\<lambda>os sz filled (w :: 'a) (y :: bytes res \<times> 'a). \<forall>e. fst y = Inl e \<longrightarrow> (\<exists>m. e = IoError m)"
  have "?P os sz filled w (Inl e, w')"
    by (rule fill_random_loop.raw_induct [where P = ?P, OF _ assms])
      (auto split: if_splits prod.splits getrandom_result.splits)
  then show ?thesis by simp
qed

lemma fill_random_error: "fill_random os sz w = Some (Inl e, w') \<Longrightarrow> \<exists>m. e = IoError m"
  using fill_random_loop_error [of os sz "[]" w e w']
  by (cases "sys_target os") (auto simp: fill_random_def fill_random_linux_def fill_random_arc4_def
      fill_random_win32_def split: prod.splits option.splits)

end
