(* ===== verification/Secret_Key.thy ===== *)
theory Secret_Key
  imports Csprng
begin

text \<open>
  The in-memory key object of \<^verbatim>\<open>include/aeslib/key.hpp\<close> and \<^verbatim>\<open>src/key.cpp\<close>, with the
  access seam \<^verbatim>\<open>KeyAccess\<close> of \<^verbatim>\<open>src/internal.hpp\<close>. A key is a record of its 32 storage
  bytes, its logical size and its AES-GCM invocation counter. The extra field
  \<open>sk_locked\<close> records which of \<^verbatim>\<open>lock_memory\<close> and \<^verbatim>\<open>unlock_memory\<close> ran last for the
  object's storage; the source ignores the results of both.
\<close>

section \<open>Definitions\<close>

definition kKeySizeBytes :: nat where
  "kKeySizeBytes = 32"

datatype key_size = Aes128 | Aes256

fun key_size_value :: "key_size \<Rightarrow> nat" where
  "key_size_value Aes128 = 16"
| "key_size_value Aes256 = 32"

record secret_key =
  sk_bytes :: bytes
  sk_size :: key_size
  sk_gcm_invocations :: u64
  sk_locked :: bool

definition lock_memory :: "secret_key \<Rightarrow> secret_key" where
  "lock_memory key = key\<lparr>sk_locked := True\<rparr>"

definition unlock_memory :: "secret_key \<Rightarrow> secret_key" where
  "unlock_memory key = key\<lparr>sk_locked := False\<rparr>"

text \<open>The private default constructor: member initialisers, then \<^verbatim>\<open>lock_memory()\<close>.\<close>

definition SecretKey :: secret_key where
  "SecretKey = lock_memory
     \<lparr>sk_bytes = replicate kKeySizeBytes 0, sk_size = Aes256, sk_gcm_invocations = 0,
      sk_locked = False\<rparr>"

definition wipe :: "secret_key \<Rightarrow> secret_key" where
  "wipe key = unlock_memory (key\<lparr>sk_bytes := map (\<lambda>_. 0) (sk_bytes key)\<rparr>)"

definition generate :: "'w system \<Rightarrow> key_size \<Rightarrow> ('w, secret_key) io" where
  "generate os sz =
     (let key = SecretKey\<lparr>sk_size := sz\<rparr>
      in io_bind (fill_random os (length (sk_bytes key)))
           (\<lambda>bs. io_return (key\<lparr>sk_bytes := bs\<rparr>)))"

definition secret_key_size :: "secret_key \<Rightarrow> key_size" where
  "secret_key_size key = sk_size key"

definition key_size_bytes :: "secret_key \<Rightarrow> nat" where
  "key_size_bytes key = key_size_value (sk_size key)"

text \<open>The move constructor: the new object, and what is left of \<^verbatim>\<open>other\<close>.\<close>

definition move_construct :: "secret_key \<Rightarrow> secret_key \<times> secret_key" where
  "move_construct other =
     (lock_memory \<lparr>sk_bytes = sk_bytes other, sk_size = sk_size other,
        sk_gcm_invocations = sk_gcm_invocations other, sk_locked = False\<rparr>,
      wipe other)"

text \<open>
  Move assignment between two distinct objects; assigning an object to itself
  (\<^verbatim>\<open>this == &other\<close>) is the identity and is the \<open>same\<close> case.
\<close>

definition move_assign :: "bool \<Rightarrow> secret_key \<Rightarrow> secret_key \<Rightarrow> secret_key \<times> secret_key" where
  "move_assign same this other =
     (if \<not> same then
        (lock_memory ((wipe this)\<lparr>sk_bytes := sk_bytes other, sk_size := sk_size other,
           sk_gcm_invocations := sk_gcm_invocations other\<rparr>),
         wipe other)
      else (this, other))"

definition key_bytes :: "secret_key \<Rightarrow> bytes" where
  "key_bytes key = sk_bytes key"

text \<open>\<^verbatim>\<open>KeyAccess::from_bytes\<close>: copies the first \<^verbatim>\<open>size\<close> bytes, the rest stays zero.\<close>

definition key_from_bytes :: "bytes \<Rightarrow> key_size \<Rightarrow> secret_key" where
  "key_from_bytes bs sz =
     (let key = SecretKey\<lparr>sk_size := sz\<rparr>; n = key_size_value sz
      in key\<lparr>sk_bytes := take n bs @ drop n (sk_bytes key)\<rparr>)"

text \<open>\<^verbatim>\<open>fetch_add(1)\<close>: the count before the increment, and the key with the new count.\<close>

definition consume_gcm_invocation :: "secret_key \<Rightarrow> u64 \<times> secret_key" where
  "consume_gcm_invocation key =
     (sk_gcm_invocations key,
      key\<lparr>sk_gcm_invocations := sk_gcm_invocations key + 1\<rparr>)"

section \<open>The storage invariant\<close>

text \<open>The backing array always has its full 32-byte capacity.\<close>

definition key_wf :: "secret_key \<Rightarrow> bool" where
  "key_wf key \<longleftrightarrow> length (sk_bytes key) = kKeySizeBytes"

lemma key_size_value_le: "key_size_value sz \<le> kKeySizeBytes"
  by (cases sz) (simp_all add: kKeySizeBytes_def)

lemma key_wf_SecretKey [simp]: "key_wf SecretKey"
  by (simp add: SecretKey_def lock_memory_def key_wf_def)

lemma key_wf_wipe [simp]: "key_wf (wipe key) = key_wf key"
  by (simp add: wipe_def unlock_memory_def key_wf_def)

lemma key_wf_from_bytes:
  "key_size_value sz \<le> length bs \<Longrightarrow> key_wf (key_from_bytes bs sz)"
  by (cases sz) (simp_all add: key_from_bytes_def key_wf_def SecretKey_def lock_memory_def
      kKeySizeBytes_def Let_def)

lemma key_from_bytes_sel:
  "sk_size (key_from_bytes bs sz) = sz" "sk_gcm_invocations (key_from_bytes bs sz) = 0"
  "sk_bytes (key_from_bytes bs sz) =
     take (key_size_value sz) bs @ replicate (kKeySizeBytes - key_size_value sz) 0"
  by (simp_all add: key_from_bytes_def Let_def SecretKey_def lock_memory_def)

lemma key_wf_consume [simp]: "key_wf (snd (consume_gcm_invocation key)) = key_wf key"
  by (simp add: consume_gcm_invocation_def key_wf_def)

lemma key_wf_generate:
  assumes "random_documented os" and "generate os sz w = Some (Inr key, w')"
  shows "key_wf key \<and> sk_size key = sz \<and> sk_gcm_invocations key = 0 \<and> sk_locked key"
proof -
  from assms(2) obtain bs where "fill_random os kKeySizeBytes w = Some (Inr bs, w')"
    and "key = SecretKey\<lparr>sk_size := sz, sk_bytes := bs\<rparr>"
    by (auto simp: generate_def Let_def SecretKey_def lock_memory_def elim!: io_bind_InrE)
  with fill_random_length [OF assms(1), of kKeySizeBytes] show ?thesis
    by (simp add: key_wf_def SecretKey_def lock_memory_def kKeySizeBytes_def)
qed

end
