(* ===== verification/Key_Schedule.thy ===== *)
theory Key_Schedule
  imports Gf256 Secret_Key
begin

text \<open>
  The FIPS-197 round-key schedule of \<^verbatim>\<open>src/aes_key_schedule.hpp\<close>, shared by the software
  and the ARM backend. A \<^verbatim>\<open>Word\<close> is a list of four bytes and the schedule a list of
  words; the template parameters \<^verbatim>\<open>Nk\<close> and \<^verbatim>\<open>Nr\<close> are arguments.
\<close>

section \<open>Definitions\<close>

type_synonym aes_word = "byte list"

definition kScheduleNb :: nat where
  "kScheduleNb = 4"

definition kScheduleRcon :: "byte list" where
  "kScheduleRcon = [0x00, 0x01, 0x02, 0x04, 0x08, 0x10, 0x20, 0x40, 0x80, 0x1B, 0x36]"

definition schedule_sub_word :: "aes_word \<Rightarrow> aes_word" where
  "schedule_sub_word w = map ct_sbox w"

definition schedule_rot_word :: "aes_word \<Rightarrow> aes_word" where
  "schedule_rot_word w = [w ! 1, w ! 2, w ! 3, w ! 0]"

definition schedule_xor_word :: "aes_word \<Rightarrow> aes_word \<Rightarrow> aes_word" where
  "schedule_xor_word a b =
     [a ! 0 XOR b ! 0, a ! 1 XOR b ! 1, a ! 2 XOR b ! 2, a ! 3 XOR b ! 3]"

text \<open>The body of the second loop of \<^verbatim>\<open>expand_key\<close> at index \<open>i\<close>.\<close>

definition expand_key_step :: "nat \<Rightarrow> nat \<Rightarrow> aes_word list \<Rightarrow> aes_word list" where
  "expand_key_step Nk i schedule =
     (let temp = schedule ! (i - 1);
          temp = (if i mod Nk = 0 then
                    schedule_xor_word (schedule_sub_word (schedule_rot_word temp))
                      [kScheduleRcon ! (i div Nk), 0, 0, 0]
                  else if Nk > 6 \<and> i mod Nk = 4 then schedule_sub_word temp
                  else temp)
      in schedule[i := schedule_xor_word (schedule ! (i - Nk)) temp])"

definition expand_key :: "nat \<Rightarrow> nat \<Rightarrow> secret_key \<Rightarrow> aes_word list" where
  "expand_key Nk Nr key =
     (let kScheduleWords = kScheduleNb * (Nr + 1);
          kb = key_bytes key;
          schedule = replicate kScheduleWords [0, 0, 0, 0];
          schedule = fold (\<lambda>i s. s[i := [kb ! (4 * i), kb ! (4 * i + 1), kb ! (4 * i + 2),
                       kb ! (4 * i + 3)]]) [0..<Nk] schedule
      in fold (expand_key_step Nk) [Nk..<kScheduleWords] schedule)"

definition wipe_schedule :: "aes_word list \<Rightarrow> aes_word list" where
  "wipe_schedule schedule = map (map (\<lambda>_. 0)) schedule"

section \<open>Shape of the schedule\<close>

definition words_wf :: "aes_word list \<Rightarrow> bool" where
  "words_wf ws \<longleftrightarrow> (\<forall>w \<in> set ws. length w = 4)"

lemma words_wf_nth: "words_wf ws \<Longrightarrow> i < length ws \<Longrightarrow> length (ws ! i) = 4"
  by (simp add: words_wf_def)

lemma words_wf_update: "words_wf ws \<Longrightarrow> length w = 4 \<Longrightarrow> words_wf (ws[i := w])"
  by (auto simp: words_wf_def dest!: set_update_subset_insert [THEN subsetD])

lemma length_schedule_xor_word [simp]: "length (schedule_xor_word a b) = 4"
  by (simp add: schedule_xor_word_def)

lemma length_expand_key_step [simp]: "length (expand_key_step Nk i s) = length s"
  by (simp add: expand_key_step_def Let_def)

lemma words_wf_expand_key_step: "words_wf s \<Longrightarrow> words_wf (expand_key_step Nk i s)"
  by (simp add: expand_key_step_def Let_def words_wf_update)

lemma fold_length:
  "(\<And>x s. length (f x s) = length s) \<Longrightarrow> length (fold f xs s) = length s"
  by (induction xs arbitrary: s) simp_all

lemma fold_invariant': "(\<And>x s. P s \<Longrightarrow> P (f x s)) \<Longrightarrow> P s \<Longrightarrow> P (fold f xs s)"
  by (induction xs arbitrary: s) simp_all

lemma length_expand_key: "length (expand_key Nk Nr key) = 4 * (Nr + 1)"
  unfolding expand_key_def Let_def by (simp add: fold_length kScheduleNb_def)

lemma words_wf_expand_key: "words_wf (expand_key Nk Nr key)"
  unfolding expand_key_def Let_def
proof (rule fold_invariant' [where P = words_wf])
  show "words_wf (fold (\<lambda>i s. s[i := [key_bytes key ! (4 * i), key_bytes key ! (4 * i + 1),
      key_bytes key ! (4 * i + 2), key_bytes key ! (4 * i + 3)]]) [0..<Nk]
      (replicate (kScheduleNb * (Nr + 1)) [0, 0, 0, 0]))"
    by (rule fold_invariant' [where P = words_wf]) (simp_all add: words_wf_update, simp add: words_wf_def)
qed (rule words_wf_expand_key_step)

lemma wipe_schedule_zero:
  assumes "words_wf s"
  shows "wipe_schedule s = replicate (length s) [0, 0, 0, 0]"
proof -
  have "map (\<lambda>_. 0) w = [0, 0, 0, 0 :: byte]" if "w \<in> set s" for w
    using that assms by (auto simp: words_wf_def dest!: bspec list_of_4)
  then have "wipe_schedule s = map (\<lambda>_. [0, 0, 0, 0]) s"
    by (simp add: wipe_schedule_def)
  then show ?thesis
    by (simp add: map_replicate_const)
qed

section \<open>The FIPS-197 key expansion\<close>

text \<open>
  The recursive specification of the standard (section 5.2): the word at index \<open>i\<close> from
  the words before it, with the S-box as its published table and the round constant as a
  power of \<open>x\<close>.
\<close>

definition fips_sub_word :: "aes_word \<Rightarrow> aes_word" where
  "fips_sub_word w = map (\<lambda>b. fips_sbox ! unat b) w"

definition fips_rcon :: "nat \<Rightarrow> aes_word" where
  "fips_rcon j = [gpow 2 (j - 1), 0, 0, 0]"

function fips_word :: "nat \<Rightarrow> bytes \<Rightarrow> nat \<Rightarrow> aes_word" where
  "fips_word Nk kb i =
     (if i < Nk \<or> Nk = 0 then take 4 (drop (4 * i) kb)
      else xor_bytes (fips_word Nk kb (i - Nk))
        (if i mod Nk = 0
         then xor_bytes (fips_sub_word (rotate1 (fips_word Nk kb (i - 1)))) (fips_rcon (i div Nk))
         else if Nk > 6 \<and> i mod Nk = 4 then fips_sub_word (fips_word Nk kb (i - 1))
         else fips_word Nk kb (i - 1)))"
  by pat_completeness auto
termination
  by (relation "measure (\<lambda>(Nk, kb, i). i)") auto

declare fips_word.simps [simp del]

lemma take_4_drop: "4 * i + 4 \<le> length kb \<Longrightarrow>
  take 4 (drop (4 * i) kb) = [kb ! (4 * i), kb ! (4 * i + 1), kb ! (4 * i + 2), kb ! (4 * i + 3)]"
  by (rule nth_equalityI) (auto simp: less_Suc_eq numeral_eq_Suc)

lemma schedule_xor_word_bytes:
  "length a = 4 \<Longrightarrow> length b = 4 \<Longrightarrow> schedule_xor_word a b = xor_bytes a b"
  by (auto simp: schedule_xor_word_def dest!: list_of_4)

lemma schedule_rot_word_rotate1: "length a = 4 \<Longrightarrow> schedule_rot_word a = rotate1 a"
  by (auto simp: schedule_rot_word_def dest!: list_of_4)

lemma schedule_sub_word_fips: "schedule_sub_word a = fips_sub_word a"
  by (simp add: schedule_sub_word_def fips_sub_word_def ct_sbox_table)

lemma rcon_fips: "1 \<le> j \<Longrightarrow> j \<le> 10 \<Longrightarrow> [kScheduleRcon ! j, 0, 0, 0] = fips_rcon j"
proof -
  have g: "gpow 2 (numeral k) = xtime (gpow 2 (pred_numeral k))" for k
    by (simp add: numeral_eq_Suc gf256.mult_commute [of 2] gmul_2)
  assume "1 \<le> j" "j \<le> 10"
  then have "j \<in> {1, 2, 3, 4, 5, 6, 7, 8, 9, 10}" by simp arith
  then show ?thesis
    by (auto simp: fips_rcon_def kScheduleRcon_def g xtime_def)
qed

lemma length_fips_sub_word [simp]: "length (fips_sub_word w) = length w"
  by (simp add: fips_sub_word_def)

lemma length_fips_rcon [simp]: "length (fips_rcon j) = 4"
  by (simp add: fips_rcon_def)

lemma length_fips_word:
  "4 * Nk \<le> length kb \<Longrightarrow> 0 < Nk \<Longrightarrow> length (fips_word Nk kb i) = 4"
proof (induction Nk kb i rule: fips_word.induct)
  case (1 Nk kb i)
  show ?case
    by (subst fips_word.simps) (use 1 in auto)
qed

text \<open>One iteration of the loop extends the prefix of the schedule that is final.\<close>

definition fips_prefix :: "nat \<Rightarrow> bytes \<Rightarrow> nat \<Rightarrow> aes_word list \<Rightarrow> bool" where
  "fips_prefix Nk kb m s \<longleftrightarrow> (\<forall>j < m. s ! j = fips_word Nk kb j)"

lemma expand_key_step_prefix:
  assumes "fips_prefix Nk kb i s" and "0 < Nk" "Nk \<le> i" "i < length s"
    and "i div Nk \<le> 10" and kb: "4 * Nk \<le> length kb"
  shows "fips_prefix Nk kb (Suc i) (expand_key_step Nk i s)"
proof -
  have len: "length (fips_word Nk kb j) = 4" for j
    using length_fips_word kb assms(2) by blast
  have rc: "1 \<le> i div Nk"
    using assms(2,3) by (simp add: Suc_le_eq div_greater_zero_iff)
  have prev: "s ! (i - 1) = fips_word Nk kb (i - 1)" "s ! (i - Nk) = fips_word Nk kb (i - Nk)"
    "s ! (i - Suc 0) = fips_word Nk kb (i - Suc 0)"
    using assms(1-3) by (auto simp: fips_prefix_def)
  have "expand_key_step Nk i s ! i = fips_word Nk kb i"
    using assms(2-5) rc
    by (subst fips_word.simps)
      (simp add: expand_key_step_def Let_def prev len schedule_xor_word_bytes
        schedule_rot_word_rotate1 schedule_sub_word_fips rcon_fips)
  moreover have "expand_key_step Nk i s ! j = s ! j" if "j < i" for j
    using that by (simp add: expand_key_step_def Let_def)
  ultimately show ?thesis
    using assms(1) by (auto simp: fips_prefix_def less_Suc_eq)
qed

lemma key_load_prefix:
  assumes "k \<le> length s" and "k \<le> Nk" and "4 * Nk \<le> length kb"
  shows "fips_prefix Nk kb k (fold (\<lambda>i s. s[i := [kb ! (4 * i), kb ! (4 * i + 1),
    kb ! (4 * i + 2), kb ! (4 * i + 3)]]) [0..<k] s)" (is "fips_prefix _ _ _ (fold ?f _ _)")
  using assms
proof (induction k)
  case (Suc k)
  let ?s = "fold ?f [0..<k] s"
  have len: "length ?s = length s" by (rule fold_length) simp
  have "fips_prefix Nk kb k ?s"
    using Suc by simp
  moreover have "fips_word Nk kb k =
      [kb ! (4 * k), kb ! (4 * k + 1), kb ! (4 * k + 2), kb ! (4 * k + 3)]"
    using Suc.prems by (subst fips_word.simps) (simp add: take_4_drop)
  ultimately show ?case
    using Suc.prems len by (auto simp: fips_prefix_def less_Suc_eq)
qed (simp add: fips_prefix_def)

lemma expand_loop_prefix:
  assumes "fips_prefix Nk kb Nk s" and "0 < Nk" and "Nk \<le> m" "m \<le> length s"
    and "(length s - 1) div Nk \<le> 10" and "4 * Nk \<le> length kb"
  shows "fips_prefix Nk kb m (fold (expand_key_step Nk) [Nk..<m] s)"
  using assms(3,4)
proof (induction rule: dec_induct)
  case base
  then show ?case using assms(1) by simp
next
  case (step i)
  have "i div Nk \<le> (length s - 1) div Nk"
    using step by (intro div_le_mono) simp
  then have "fips_prefix Nk kb (Suc i) (expand_key_step Nk i (fold (expand_key_step Nk) [Nk..<i] s))"
    using step assms by (intro expand_key_step_prefix) (auto simp: fold_length)
  then show ?case
    using step by simp
qed

lemma expand_key_fips:
  assumes "0 < Nk" and "Nk \<le> 4 * (Nr + 1)" and "(4 * (Nr + 1) - 1) div Nk \<le> 10"
    and "4 * Nk \<le> length (key_bytes key)" and "i < 4 * (Nr + 1)"
  shows "expand_key Nk Nr key ! i = fips_word Nk (key_bytes key) i"
proof -
  let ?s = "fold (\<lambda>i s. s[i := [key_bytes key ! (4 * i), key_bytes key ! (4 * i + 1),
    key_bytes key ! (4 * i + 2), key_bytes key ! (4 * i + 3)]]) [0..<Nk]
    (replicate (4 * (Nr + 1)) [0, 0, 0, 0])"
  have len: "length ?s = 4 * (Nr + 1)"
    by (simp add: fold_length)
  have "fips_prefix Nk (key_bytes key) Nk ?s"
    using assms by (intro key_load_prefix) auto
  then have "fips_prefix Nk (key_bytes key) (4 * (Nr + 1))
      (fold (expand_key_step Nk) [Nk..<4 * (Nr + 1)] ?s)"
    using assms len by (intro expand_loop_prefix) auto
  then show ?thesis
    using assms(5) by (simp add: expand_key_def kScheduleNb_def fips_prefix_def Let_def)
qed

end
