(* ===== verification/Aes_Soft.thy ===== *)
theory Aes_Soft
  imports Key_Schedule
begin

text \<open>
  The portable AES forward cipher of \<^verbatim>\<open>src/aes_core_soft.cpp\<close>: the round transformations
  on the 16-byte column-major state and \<^verbatim>\<open>aes_encrypt_block_soft<Nk, Nr>\<close>, with its two
  instances for AES-128 and AES-256.
\<close>

section \<open>Definitions\<close>

definition kNb :: nat where
  "kNb = kScheduleNb"

definition add_round_key :: "bytes \<Rightarrow> aes_word list \<Rightarrow> nat \<Rightarrow> bytes" where
  "add_round_key state schedule rnd =
     fold (\<lambda>c s.
       let w = schedule ! (rnd * kNb + c)
       in fold (\<lambda>r s. s[c * 4 + r := s ! (c * 4 + r) XOR w ! r]) [0..<4] s)
     [0..<kNb] state"

definition sub_bytes :: "bytes \<Rightarrow> bytes" where
  "sub_bytes state = map ct_sbox state"

definition shift_rows :: "bytes \<Rightarrow> bytes" where
  "shift_rows state =
     (let s = state
      in fold (\<lambda>row st. fold (\<lambda>col st. st[col * 4 + row := s ! (((col + row) mod 4) * 4 + row)])
           [0..<4] st) [1..<4] state)"

definition mix_column :: "nat \<Rightarrow> bytes \<Rightarrow> bytes" where
  "mix_column c state =
     (let a0 = state ! (c * 4 + 0); a1 = state ! (c * 4 + 1);
          a2 = state ! (c * 4 + 2); a3 = state ! (c * 4 + 3)
      in state[c * 4 + 0 := gmul a0 2 XOR gmul a1 3 XOR a2 XOR a3,
               c * 4 + 1 := a0 XOR gmul a1 2 XOR gmul a2 3 XOR a3,
               c * 4 + 2 := a0 XOR a1 XOR gmul a2 2 XOR gmul a3 3,
               c * 4 + 3 := gmul a0 3 XOR a1 XOR a2 XOR gmul a3 2])"

definition mix_columns :: "bytes \<Rightarrow> bytes" where
  "mix_columns state = fold mix_column [0..<4] state"

text \<open>
  \<^verbatim>\<open>aes_encrypt_block_soft<Nk, Nr>\<close>; the second component is the local schedule after
  \<^verbatim>\<open>wipe_schedule\<close>, as it goes out of scope.
\<close>

definition aes_encrypt_block_soft_run :: "nat \<Rightarrow> nat \<Rightarrow> secret_key \<Rightarrow> bytes \<Rightarrow> bytes \<times> aes_word list" where
  "aes_encrypt_block_soft_run Nk Nr key block =
     (let schedule = expand_key Nk Nr key;
          state = map (\<lambda>i. block ! i) [0..<16];
          state = add_round_key state schedule 0;
          state = fold (\<lambda>rnd st. add_round_key (mix_columns (shift_rows (sub_bytes st)))
                    schedule rnd) [1..<Nr] state;
          state = sub_bytes state;
          state = shift_rows state;
          state = add_round_key state schedule Nr;
          schedule = wipe_schedule schedule
      in (map (\<lambda>i. state ! i) [0..<16], schedule))"

definition aes_encrypt_block_soft :: "nat \<Rightarrow> nat \<Rightarrow> secret_key \<Rightarrow> bytes \<Rightarrow> bytes" where
  "aes_encrypt_block_soft Nk Nr key block = fst (aes_encrypt_block_soft_run Nk Nr key block)"

definition aes256_encrypt_block_soft :: "secret_key \<Rightarrow> bytes \<Rightarrow> bytes" where
  "aes256_encrypt_block_soft key block = aes_encrypt_block_soft 8 14 key block"

definition aes128_encrypt_block_soft :: "secret_key \<Rightarrow> bytes \<Rightarrow> bytes" where
  "aes128_encrypt_block_soft key block = aes_encrypt_block_soft 4 10 key block"

section \<open>Evaluation on literals\<close>

lemma upt_eval [eval_simps]:
  "[0..<numeral k] = 0 # [Suc 0..<numeral k]"
  "[Suc 0..<numeral k] = (if 2 \<le> (numeral k :: nat) then Suc 0 # [2..<numeral k] else [])"
  by (simp_all add: upt_conv_Cons numeral_2_eq_2 del: upt_Suc)

lemma list_update_numeral [eval_simps]:
  "(x # xs)[numeral k := v] = x # xs[pred_numeral k := v]"
  by (simp add: numeral_eq_Suc)

lemma replicate_eval [eval_simps]: "replicate (numeral k) x = x # replicate (pred_numeral k) x"
  by (simp add: numeral_eq_Suc)

section \<open>Explicit forms of the round transformations\<close>

definition round_key :: "aes_word list \<Rightarrow> nat \<Rightarrow> bytes" where
  "round_key schedule rnd = concat (map (\<lambda>c. schedule ! (4 * rnd + c)) [0, 1, 2, 3])"

lemma length_round_key:
  "words_wf s \<Longrightarrow> 4 * rnd + 3 < length s \<Longrightarrow> length (round_key s rnd) = 16"
  by (simp add: round_key_def words_wf_nth)

lemma add_round_key_xor:
  assumes "length state = 16" and "words_wf s" and "4 * rnd + 3 < length s"
  shows "add_round_key state s rnd = xor_bytes state (round_key s rnd)"
proof -
  have "\<exists>a b c d. s ! (4 * rnd + i) = [a, b, c, d]" if "i \<le> 3" for i
    using words_wf_nth [OF assms(2), of "4 * rnd + i"] assms(3) that by (intro list_of_4) simp
  from this [of 0] this [of 1] this [of 2] this [of 3]
  show ?thesis
    using list_of_16 [OF assms(1)]
    by (auto simp: add_round_key_def round_key_def kNb_def kScheduleNb_def upt_eval
        upt_rec_numeral mult.commute list_update_numeral)
qed

lemma shift_rows_16:
  "shift_rows [a, b, c, d, e, f, g, h, i, j, k, l, m, n, p, q] =
     [a, f, k, q, e, j, p, d, i, n, c, h, m, b, g, l]"
  by (simp add: shift_rows_def upt_eval upt_rec_numeral list_update_numeral)

definition mix4 :: "byte \<Rightarrow> byte \<Rightarrow> byte \<Rightarrow> byte \<Rightarrow> bytes" where
  "mix4 a0 a1 a2 a3 =
     [gmul a0 2 XOR gmul a1 3 XOR a2 XOR a3,
      a0 XOR gmul a1 2 XOR gmul a2 3 XOR a3,
      a0 XOR a1 XOR gmul a2 2 XOR gmul a3 3,
      gmul a0 3 XOR a1 XOR a2 XOR gmul a3 2]"

lemma mix_columns_16:
  "mix_columns [a, b, c, d, e, f, g, h, i, j, k, l, m, n, p, q] =
     mix4 a b c d @ mix4 e f g h @ mix4 i j k l @ mix4 m n p q"
  by (simp add: mix_columns_def mix_column_def mix4_def upt_eval upt_rec_numeral
      list_update_numeral Let_def)

lemma length_add_round_key [simp]: "length (add_round_key st s rnd) = length st"
  unfolding add_round_key_def Let_def by (rule fold_length)+ simp

lemma length_sub_bytes [simp]: "length (sub_bytes st) = length st"
  by (simp add: sub_bytes_def)

lemma length_shift_rows [simp]: "length (shift_rows st) = length st"
  unfolding shift_rows_def Let_def by (rule fold_length)+ simp

lemma length_mix_columns [simp]: "length (mix_columns st) = length st"
  unfolding mix_columns_def by (rule fold_length) (simp add: mix_column_def Let_def)

lemmas length_round_ops = length_add_round_key length_sub_bytes length_shift_rows length_mix_columns

text \<open>The cipher as a composition of whole-state transformations.\<close>

definition middle_round :: "aes_word list \<Rightarrow> nat \<Rightarrow> bytes \<Rightarrow> bytes" where
  "middle_round s rnd st = xor_bytes (mix_columns (shift_rows (sub_bytes st))) (round_key s rnd)"

lemma map_nth_16: "length st = 16 \<Longrightarrow> map (\<lambda>i. st ! i) [0..<16] = st"
  using map_nth [of st] by simp

lemma fold_cong_inv:
  assumes "\<And>x st. x \<in> set xs \<Longrightarrow> P st \<Longrightarrow> f x st = g x st \<and> P (g x st)" and "P st"
  shows "fold f xs st = fold g xs st \<and> P (fold g xs st)"
  using assms by (induction xs arbitrary: st) simp_all

lemma length_middle_round:
  "words_wf s \<Longrightarrow> 4 * rnd + 3 < length s \<Longrightarrow> length st = 16 \<Longrightarrow> length (middle_round s rnd st) = 16"
  by (simp add: middle_round_def length_round_key)

lemma middle_rounds:
  assumes "words_wf s" and "length s = 4 * (Nr + 1)" and "length st = 16"
  shows "fold (\<lambda>rnd st. add_round_key (mix_columns (shift_rows (sub_bytes st))) s rnd) [1..<Nr] st =
      fold (middle_round s) [1..<Nr] st \<and> length (fold (middle_round s) [1..<Nr] st) = 16"
  by (rule fold_cong_inv [where P = "\<lambda>st. length st = 16"])
    (use assms in \<open>auto simp: add_round_key_xor middle_round_def length_round_key\<close>)

definition cipher_rounds :: "aes_word list \<Rightarrow> nat \<Rightarrow> bytes \<Rightarrow> bytes" where
  "cipher_rounds s Nr block =
     xor_bytes (shift_rows (sub_bytes (fold (middle_round s) [1..<Nr]
       (xor_bytes block (round_key s 0))))) (round_key s Nr)"

lemma length_cipher_rounds:
  assumes "words_wf s" and "length s = 4 * (Nr + 1)" and "length block = 16"
  shows "length (cipher_rounds s Nr block) = 16"
  using assms middle_rounds [OF assms(1,2), of "xor_bytes block (round_key s 0)"]
  by (simp add: cipher_rounds_def length_round_key)

lemma aes_soft_cipher_rounds:
  assumes "length block = 16"
  shows "aes_encrypt_block_soft Nk Nr key block = cipher_rounds (expand_key Nk Nr key) Nr block"
proof -
  let ?s = "expand_key Nk Nr key"
  have s: "words_wf ?s" "length ?s = 4 * (Nr + 1)"
    by (rule words_wf_expand_key length_expand_key)+
  let ?st = "xor_bytes block (round_key ?s 0)"
  have st: "length ?st = 16" "add_round_key block ?s 0 = ?st"
    using s assms by (simp_all add: add_round_key_xor length_round_key)
  note mid = middle_rounds [OF s st(1)]
  show ?thesis
    using s assms mid
    by (simp add: aes_encrypt_block_soft_def aes_encrypt_block_soft_run_def Let_def
        cipher_rounds_def add_round_key_xor length_round_key map_nth_16 st)
qed

lemma length_aes_soft:
  "length block = 16 \<Longrightarrow> length (aes_encrypt_block_soft Nk Nr key block) = 16"
  by (simp add: aes_soft_cipher_rounds length_cipher_rounds words_wf_expand_key length_expand_key)

section \<open>Refinement of FIPS-197\<close>

text \<open>
  The cipher of the standard, on a state that is a matrix of rows and columns: the S-box
  is the published table, \<open>MixColumns\<close> the circulant matrix product over GF(2^8), and the
  round keys come from the recursive key expansion.
\<close>

type_synonym fips_state = "nat \<Rightarrow> nat \<Rightarrow> byte"

definition fips_SubBytes :: "fips_state \<Rightarrow> fips_state" where
  "fips_SubBytes m = (\<lambda>r c. fips_sbox ! unat (m r c))"

definition fips_ShiftRows :: "fips_state \<Rightarrow> fips_state" where
  "fips_ShiftRows m = (\<lambda>r c. m r ((c + r) mod 4))"

definition fips_MixColumns :: "fips_state \<Rightarrow> fips_state" where
  "fips_MixColumns m = (\<lambda>r c. gmul 2 (m r c) XOR gmul 3 (m ((r + 1) mod 4) c) XOR
     m ((r + 2) mod 4) c XOR m ((r + 3) mod 4) c)"

definition fips_AddRoundKey :: "(nat \<Rightarrow> aes_word) \<Rightarrow> nat \<Rightarrow> fips_state \<Rightarrow> fips_state" where
  "fips_AddRoundKey w rnd m = (\<lambda>r c. m r c XOR w (4 * rnd + c) ! r)"

definition fips_Cipher :: "nat \<Rightarrow> nat \<Rightarrow> bytes \<Rightarrow> fips_state \<Rightarrow> fips_state" where
  "fips_Cipher Nk Nr kb m =
     (let w = fips_word Nk kb
      in fips_AddRoundKey w Nr (fips_ShiftRows (fips_SubBytes
           (fold (\<lambda>rnd m. fips_AddRoundKey w rnd (fips_MixColumns (fips_ShiftRows (fips_SubBytes m))))
             [1..<Nr] (fips_AddRoundKey w 0 m)))))"

text \<open>The abstraction: byte \<open>4 * c + r\<close> of the array is row \<open>r\<close>, column \<open>c\<close>.\<close>

definition refines :: "bytes \<Rightarrow> fips_state \<Rightarrow> bool" where
  "refines st m \<longleftrightarrow> length st = 16 \<and> (\<forall>r < 4. \<forall>c < 4. st ! (4 * c + r) = m r c)"

lemma all_less_4: "(\<forall>i < (4 :: nat). P i) \<longleftrightarrow> P 0 \<and> P 1 \<and> P 2 \<and> P 3"
  by (auto simp: less_Suc_eq numeral_eq_Suc)

lemma refines_SubBytes: "refines st m \<Longrightarrow> refines (sub_bytes st) (fips_SubBytes m)"
  by (simp add: refines_def sub_bytes_def fips_SubBytes_def ct_sbox_table)

lemma refines_ShiftRows: "refines st m \<Longrightarrow> refines (shift_rows st) (fips_ShiftRows m)"
  by (auto simp: refines_def all_less_4 fips_ShiftRows_def shift_rows_16
      numeral_2_eq_2 [symmetric] dest!: list_of_16)

lemma refines_MixColumns: "refines st m \<Longrightarrow> refines (mix_columns st) (fips_MixColumns m)"
  by (auto simp: refines_def all_less_4 fips_MixColumns_def mix_columns_16 mix4_def
      gf256.mult_commute [of 2] gf256.mult_commute [of 3] xor_ac
      numeral_2_eq_2 [symmetric] dest!: list_of_16)

lemma nth_round_key:
  assumes "words_wf s" and "4 * rnd + 3 < length s" and "r < 4" and "c < 4"
  shows "round_key s rnd ! (4 * c + r) = s ! (4 * rnd + c) ! r"
proof -
  have "\<exists>a b c d. s ! (4 * rnd + i) = [a, b, c, d]" if "i \<le> 3" for i
    using words_wf_nth [OF assms(1), of "4 * rnd + i"] assms(2) that by (intro list_of_4) simp
  from this [of 0] this [of 1] this [of 2] this [of 3]
  have "\<forall>r < 4. \<forall>c < 4. round_key s rnd ! (4 * c + r) = s ! (4 * rnd + c) ! r"
    by (auto simp: round_key_def all_less_4)
  with assms(3,4) show ?thesis by blast
qed

lemma refines_AddRoundKey:
  assumes "refines st m" and "words_wf s" and "4 * rnd + 3 < length s"
    and "\<And>i. i < length s \<Longrightarrow> s ! i = w i"
  shows "refines (xor_bytes st (round_key s rnd)) (fips_AddRoundKey w rnd m)"
  using assms
  by (simp add: refines_def length_round_key fips_AddRoundKey_def nth_round_key)

lemmas refines_intros = refines_SubBytes refines_ShiftRows refines_MixColumns refines_AddRoundKey

lemma refines_middle_rounds:
  assumes "refines st m" and "words_wf s" and "length s = 4 * (Nr + 1)"
    and "\<And>i. i < length s \<Longrightarrow> s ! i = w i" and "k \<le> Nr"
  shows "refines (fold (middle_round s) [1..<k] st)
    (fold (\<lambda>rnd m. fips_AddRoundKey w rnd (fips_MixColumns (fips_ShiftRows (fips_SubBytes m))))
       [1..<k] m)"
  using assms(5)
proof (induction k)
  case (Suc k)
  then show ?case
    using assms unfolding middle_round_def
    by (cases "k = 0") (auto intro!: refines_intros)
qed (use assms in simp)

lemma cipher_rounds_refines:
  assumes "refines block m" and "words_wf s" and "length s = 4 * (Nr + 1)"
    and "\<And>i. i < length s \<Longrightarrow> s ! i = fips_word Nk kb i"
  shows "refines (cipher_rounds s Nr block) (fips_Cipher Nk Nr kb m)"
  unfolding cipher_rounds_def fips_Cipher_def Let_def
  using assms by (intro refines_intros refines_middle_rounds) auto

lemma aes_soft_refines:
  assumes "length block = 16" and "0 < Nk" and "Nk \<le> 4 * (Nr + 1)"
    and "(4 * (Nr + 1) - 1) div Nk \<le> 10" and "4 * Nk \<le> length (key_bytes key)"
  shows "refines (aes_encrypt_block_soft Nk Nr key block)
    (fips_Cipher Nk Nr (key_bytes key) (\<lambda>r c. block ! (4 * c + r)))"
  unfolding aes_soft_cipher_rounds [OF assms(1)]
proof (rule cipher_rounds_refines)
  show "refines block (\<lambda>r c. block ! (4 * c + r))"
    using assms(1) by (simp add: refines_def)
  show "expand_key Nk Nr key ! i = fips_word Nk (key_bytes key) i"
    if "i < length (expand_key Nk Nr key)" for i
    using that assms by (intro expand_key_fips) (auto simp: length_expand_key)
qed (rule words_wf_expand_key length_expand_key)+

lemma refines_unique:
  assumes "refines x m" and "refines y m"
  shows "x = y"
proof (rule nth_equalityI)
  show "length x = length y"
    using assms by (simp add: refines_def)
  fix i
  assume "i < length x"
  then have "i mod 4 < 4" "i div 4 < 4"
    using assms by (auto simp: refines_def)
  then show "x ! i = y ! i"
    using assms unfolding refines_def by (metis mult_div_mod_eq)
qed

lemma refines_xor_key:
  "refines st m \<Longrightarrow> length k = 16 \<Longrightarrow>
   refines (xor_bytes st k) (\<lambda>r c. m r c XOR k ! (4 * c + r))"
  by (auto simp: refines_def)

lemma refines_self: "length st = 16 \<Longrightarrow> refines st (\<lambda>r c. st ! (4 * c + r))"
  by (simp add: refines_def)

lemma fips_Sub_Shift_commute:
  "fips_SubBytes (fips_ShiftRows m) = fips_ShiftRows (fips_SubBytes m)"
  by (simp add: fips_SubBytes_def fips_ShiftRows_def)

text \<open>The round keys of the standard, as 16-byte strings.\<close>

definition fips_round_key :: "nat \<Rightarrow> bytes \<Rightarrow> nat \<Rightarrow> bytes" where
  "fips_round_key Nk kb r = concat (map (\<lambda>c. fips_word Nk kb (4 * r + c)) [0, 1, 2, 3])"

lemma round_key_fips:
  assumes "0 < Nk" and "Nk \<le> 4 * (Nr + 1)" and "(4 * (Nr + 1) - 1) div Nk \<le> 10"
    and "4 * Nk \<le> length (key_bytes key)" and "r \<le> Nr"
  shows "round_key (expand_key Nk Nr key) r = fips_round_key Nk (key_bytes key) r"
  using expand_key_fips [OF assms(1-4)] assms(5)
  by (simp add: round_key_def fips_round_key_def)

section \<open>The block cipher is a permutation\<close>

lemma unmix_byte:
  fixes a b c d :: byte
  shows "gmul (gmul a 2 XOR gmul b 3 XOR gmul c 1 XOR gmul d 1) 14 XOR
         gmul (gmul a 1 XOR gmul b 2 XOR gmul c 3 XOR gmul d 1) 11 XOR
         gmul (gmul a 1 XOR gmul b 1 XOR gmul c 2 XOR gmul d 3) 13 XOR
         gmul (gmul a 3 XOR gmul b 1 XOR gmul c 1 XOR gmul d 2) 9 = a"
proof -
  let ?m = "\<lambda>x (p :: byte) q r s. gmul x (gmul p 14 XOR gmul q 11 XOR gmul r 13 XOR gmul s 9)"
  have "?m a 2 1 1 3 XOR ?m b 3 2 1 1 XOR ?m c 1 3 2 1 XOR ?m d 1 1 3 2 = a"
    by (simp add: gmul_def [of 2] gmul_def [of 3] gmul_loop_numeral xtime_def)
  then show ?thesis
    unfolding gmul_scale_sum by (simp only: gf256.mult_xor_right xor_ac)
qed

lemma unmix4:
  "mix4 a0 a1 a2 a3 = [y0, y1, y2, y3] \<Longrightarrow>
     gmul y0 14 XOR gmul y1 11 XOR gmul y2 13 XOR gmul y3 9 = a0"
  using unmix_byte [of a0 a1 a2 a3] by (auto simp: mix4_def)

lemma mix4_rotate:
  "mix4 a0 a1 a2 a3 = [y0, y1, y2, y3] \<Longrightarrow> mix4 a1 a2 a3 a0 = [y1, y2, y3, y0]"
  by (auto simp: mix4_def xor_ac)

lemma mix4_inject:
  assumes "mix4 a0 a1 a2 a3 = mix4 b0 b1 b2 b3"
  shows "a0 = b0 \<and> a1 = b1 \<and> a2 = b2 \<and> a3 = b3"
proof -
  obtain y0 y1 y2 y3 where a: "mix4 a0 a1 a2 a3 = [y0, y1, y2, y3]"
    by (simp add: mix4_def)
  with assms have b: "mix4 b0 b1 b2 b3 = [y0, y1, y2, y3]" by simp
  note a1 = mix4_rotate [OF a] and b1 = mix4_rotate [OF b]
  note a2 = mix4_rotate [OF a1] and b2 = mix4_rotate [OF b1]
  note a3 = mix4_rotate [OF a2] and b3 = mix4_rotate [OF b2]
  show ?thesis
    using unmix4 [OF a] unmix4 [OF a1] unmix4 [OF a2] unmix4 [OF a3]
      unmix4 [OF b] unmix4 [OF b1] unmix4 [OF b2] unmix4 [OF b3] by simp
qed

lemma mix4_append_inject:
  "mix4 a0 a1 a2 a3 @ xs = mix4 b0 b1 b2 b3 @ ys \<longleftrightarrow>
     (a0 = b0 \<and> a1 = b1 \<and> a2 = b2 \<and> a3 = b3) \<and> xs = ys"
  using mix4_inject [of a0 a1 a2 a3 b0 b1 b2 b3]
  by (auto simp: append_eq_append_conv mix4_def)

abbreviation blocks :: "bytes set" where
  "blocks \<equiv> {b. length b = 16}"

lemma inj_sub_bytes: "inj_on sub_bytes blocks"
  unfolding sub_bytes_def using inj_ct_sbox by (auto intro: inj_onI dest: map_injective)

lemma inj_shift_rows: "inj_on shift_rows blocks"
  by (auto intro!: inj_onI simp: shift_rows_16 dest!: list_of_16)

lemma inj_mix_columns: "inj_on mix_columns blocks"
proof (rule inj_onI)
  fix x y
  assume "x \<in> blocks" "y \<in> blocks" "mix_columns x = mix_columns y"
  then show "x = y"
    using mix4_append_inject [of _ _ _ _ "[]" _ _ _ _ "[]"]
    by (auto simp: mix_columns_16 mix4_append_inject dest!: list_of_16)
qed

lemma inj_xor_bytes: "length k = 16 \<Longrightarrow> inj_on (\<lambda>st. xor_bytes st k) blocks"
  by (rule inj_on_inverseI [where g = "\<lambda>st. xor_bytes st k"]) (simp add: xor_bytes_cancel)

lemma inj_middle_round:
  assumes "words_wf s" and "4 * rnd + 3 < length s"
  shows "inj_on (middle_round s rnd) blocks"
proof (rule inj_onI)
  fix x y
  assume xy: "x \<in> blocks" "y \<in> blocks" "middle_round s rnd x = middle_round s rnd y"
  note k = inj_xor_bytes [OF length_round_key [OF assms]]
  show "x = y"
    using xy unfolding middle_round_def
    by (auto dest!: inj_onD [OF k] inj_onD [OF inj_mix_columns] inj_onD [OF inj_shift_rows]
        inj_onD [OF inj_sub_bytes])
qed

lemma inj_middle_rounds:
  assumes "words_wf s" and "length s = 4 * (Nr + 1)" and "k \<le> Nr"
  shows "inj_on (fold (middle_round s) [1..<k]) blocks"
  using assms(3)
proof (induction k)
  case (Suc k)
  show ?case
  proof (rule inj_onI)
    fix x y
    assume xy: "x \<in> blocks" "y \<in> blocks"
      "fold (middle_round s) [1..<Suc k] x = fold (middle_round s) [1..<Suc k] y"
    have len: "fold (middle_round s) [1..<k] z \<in> blocks" if "z \<in> blocks" for z
      using that Suc.prems assms
      by (induction k) (auto simp: length_middle_round)
    show "x = y"
    proof (cases "k = 0")
      case False
      with xy(3) have "fold (middle_round s) [1..<k] x = fold (middle_round s) [1..<k] y"
        using inj_onD [OF inj_middle_round [OF assms(1), of k]] Suc.prems assms(2) len xy(1,2)
        by simp
      with Suc xy(1,2) show ?thesis
        by (auto dest: inj_onD)
    qed (use xy in simp)
  qed
qed simp

lemma inj_cipher_rounds:
  assumes "words_wf s" and "length s = 4 * (Nr + 1)"
  shows "inj_on (cipher_rounds s Nr) blocks"
proof (rule inj_onI)
  fix x y
  assume xy: "x \<in> blocks" "y \<in> blocks" "cipher_rounds s Nr x = cipher_rounds s Nr y"
  have rk: "length (round_key s 0) = 16" "length (round_key s Nr) = 16"
    using assms by (simp_all add: length_round_key)
  have len: "length (fold (middle_round s) [1..<Nr] (xor_bytes z (round_key s 0))) = 16"
    if "z \<in> blocks" for z
    using middle_rounds [OF assms] that rk by simp
  note inj = inj_onD [OF inj_xor_bytes [OF rk(2)]] inj_onD [OF inj_shift_rows]
    inj_onD [OF inj_sub_bytes] inj_onD [OF inj_middle_rounds [OF assms order_refl, unfolded One_nat_def]]
    inj_onD [OF inj_xor_bytes [OF rk(1)]]
  show "x = y"
    using xy len [OF xy(1)] len [OF xy(2)] rk unfolding cipher_rounds_def by (auto dest!: inj)
qed

lemma cipher_rounds_bij:
  assumes "words_wf s" and "length s = 4 * (Nr + 1)"
  shows "bij_betw (cipher_rounds s Nr) blocks blocks"
proof -
  have "finite blocks"
    using finite_lists_length_eq [of "UNIV :: byte set" 16] by simp
  moreover have "cipher_rounds s Nr ` blocks \<subseteq> blocks"
    using length_cipher_rounds [OF assms] by auto
  ultimately have "cipher_rounds s Nr ` blocks = blocks"
    by (rule endo_inj_surj) (rule inj_cipher_rounds [OF assms])
  then show ?thesis
    using inj_cipher_rounds [OF assms] by (simp add: bij_betw_def)
qed

lemma aes_soft_bij: "bij_betw (aes_encrypt_block_soft Nk Nr key) blocks blocks"
  using cipher_rounds_bij [OF words_wf_expand_key length_expand_key]
  by (rule bij_betw_cong [THEN iffD1, rotated]) (simp add: aes_soft_cipher_rounds)

section \<open>Properties\<close>

text \<open>
  C3. The software cipher implements FIPS-197: on a key with its full storage and a
  16-byte block, the AES-256 and the AES-128 instance produce the output state of the
  standard's \<open>Cipher\<close> with \<open>Nk = 8, Nr = 14\<close> and \<open>Nk = 4, Nr = 10\<close>, byte \<open>4 * c + r\<close> being
  row \<open>r\<close> of column \<open>c\<close>.
\<close>

theorem aes_soft_implements_fips197:
  assumes "key_wf key" and "length block = 16"
  shows "refines (aes256_encrypt_block_soft key block)
      (fips_Cipher 8 14 (key_bytes key) (\<lambda>r c. block ! (4 * c + r))) \<and>
    refines (aes128_encrypt_block_soft key block)
      (fips_Cipher 4 10 (key_bytes key) (\<lambda>r c. block ! (4 * c + r)))"
  using assms aes_soft_refines [of block 8 14 key] aes_soft_refines [of block 4 10 key]
  by (simp_all add: aes256_encrypt_block_soft_def aes128_encrypt_block_soft_def key_wf_def
      key_bytes_def kKeySizeBytes_def)

theorem aes_soft_implements_fips197_witness:
  "refines (aes256_encrypt_block_soft SecretKey (replicate 16 0))
     (fips_Cipher 8 14 (key_bytes SecretKey) (\<lambda>r c. replicate 16 0 ! (4 * c + r))) \<and>
   refines (aes128_encrypt_block_soft SecretKey (replicate 16 0))
     (fips_Cipher 4 10 (key_bytes SecretKey) (\<lambda>r c. replicate 16 0 ! (4 * c + r)))"
  by (rule aes_soft_implements_fips197) simp_all

text \<open>
  For every key the block cipher is a permutation of the 16-byte blocks, for both key
  sizes: it is injective and reaches every block.
\<close>

theorem aes_soft_is_permutation:
  "bij_betw (aes256_encrypt_block_soft key) {b. length b = 16} {b. length b = 16} \<and>
   bij_betw (aes128_encrypt_block_soft key) {b. length b = 16} {b. length b = 16}"
  using aes_soft_bij [of 8 14 key] aes_soft_bij [of 4 10 key]
  by (simp add: aes256_encrypt_block_soft_def [abs_def] aes128_encrypt_block_soft_def [abs_def])

text \<open>
  The round-key schedule does not outlive the call: after the output block is
  computed, the local schedule holds only zero bytes, and it still has its full size.
\<close>

theorem aes_soft_wipes_schedule:
  "snd (aes_encrypt_block_soft_run Nk Nr key block) = replicate (4 * (Nr + 1)) [0, 0, 0, 0]"
  by (simp add: aes_encrypt_block_soft_run_def Let_def wipe_schedule_zero words_wf_expand_key
      length_expand_key)

end
