(* ===== verification/Kat_Vector.thy ===== *)
theory Kat_Vector
  imports Aes_Soft
begin

text \<open>
  The FIPS-197 known-answer vectors of \<^verbatim>\<open>src/kat_vector.hpp\<close> (appendices C.1 and C.3),
  which the hardware self-test and the unit tests share, and the evaluation of the
  software cipher on them inside the kernel.
\<close>

section \<open>Definitions\<close>

definition kKat128Key :: bytes where
  "kKat128Key = [
    0x00, 0x01, 0x02, 0x03, 0x04, 0x05, 0x06, 0x07, 0x08, 0x09, 0x0a, 0x0b, 0x0c, 0x0d, 0x0e, 0x0f]"

definition kKat128Plaintext :: bytes where
  "kKat128Plaintext = [
    0x00, 0x11, 0x22, 0x33, 0x44, 0x55, 0x66, 0x77, 0x88, 0x99, 0xaa, 0xbb, 0xcc, 0xdd, 0xee, 0xff]"

definition kKat128Ciphertext :: bytes where
  "kKat128Ciphertext = [
    0x69, 0xc4, 0xe0, 0xd8, 0x6a, 0x7b, 0x04, 0x30, 0xd8, 0xcd, 0xb7, 0x80, 0x70, 0xb4, 0xc5, 0x5a]"

definition kKat256Key :: bytes where
  "kKat256Key = [
    0x00, 0x01, 0x02, 0x03, 0x04, 0x05, 0x06, 0x07, 0x08, 0x09, 0x0a, 0x0b, 0x0c, 0x0d, 0x0e, 0x0f,
    0x10, 0x11, 0x12, 0x13, 0x14, 0x15, 0x16, 0x17, 0x18, 0x19, 0x1a, 0x1b, 0x1c, 0x1d, 0x1e, 0x1f]"

definition kKat256Plaintext :: bytes where
  "kKat256Plaintext = [
    0x00, 0x11, 0x22, 0x33, 0x44, 0x55, 0x66, 0x77, 0x88, 0x99, 0xaa, 0xbb, 0xcc, 0xdd, 0xee, 0xff]"

definition kKat256Ciphertext :: bytes where
  "kKat256Ciphertext = [
    0x8e, 0xa2, 0xb7, 0xca, 0x51, 0x67, 0x45, 0xbf, 0xea, 0xfc, 0x49, 0x90, 0x4b, 0x49, 0x60, 0x89]"

section \<open>Evaluation\<close>

lemmas schedule_eval = expand_key_def kScheduleNb_def expand_key_step_def schedule_sub_word_def
  schedule_rot_word_def schedule_xor_word_def kScheduleRcon_def eval_simps upt_rec_numeral Let_def

lemmas key_eval = key_bytes_def key_from_bytes_def SecretKey_def lock_memory_def
  kKeySizeBytes_def Let_def

lemmas round_eval = cipher_rounds_def middle_round_def sub_bytes_def shift_rows_16
  mix_columns_16 mix4_def gmul_2 gmul_3 xtime_lit ct_sbox_lit upt_rec_numeral upt_eval

lemma kat_key128:
  "key_bytes (key_from_bytes kKat128Key Aes128) = kKat128Key @ replicate 16 0"
  by (simp add: key_eval kKat128Key_def)

lemma kat_key256: "key_bytes (key_from_bytes kKat256Key Aes256) = kKat256Key"
  by (simp add: key_eval kKat256Key_def)

text \<open>The schedule of the AES-128 vector (FIPS-197, appendix A).\<close>

definition kat_schedule128 :: "aes_word list" where
  "kat_schedule128 =
    [[0x00, 0x01, 0x02, 0x03], [0x04, 0x05, 0x06, 0x07], [0x08, 0x09, 0x0a, 0x0b], [0x0c, 0x0d, 0x0e, 0x0f],
     [0xd6, 0xaa, 0x74, 0xfd], [0xd2, 0xaf, 0x72, 0xfa], [0xda, 0xa6, 0x78, 0xf1], [0xd6, 0xab, 0x76, 0xfe],
     [0xb6, 0x92, 0xcf, 0x0b], [0x64, 0x3d, 0xbd, 0xf1], [0xbe, 0x9b, 0xc5, 0x00], [0x68, 0x30, 0xb3, 0xfe],
     [0xb6, 0xff, 0x74, 0x4e], [0xd2, 0xc2, 0xc9, 0xbf], [0x6c, 0x59, 0x0c, 0xbf], [0x04, 0x69, 0xbf, 0x41],
     [0x47, 0xf7, 0xf7, 0xbc], [0x95, 0x35, 0x3e, 0x03], [0xf9, 0x6c, 0x32, 0xbc], [0xfd, 0x05, 0x8d, 0xfd],
     [0x3c, 0xaa, 0xa3, 0xe8], [0xa9, 0x9f, 0x9d, 0xeb], [0x50, 0xf3, 0xaf, 0x57], [0xad, 0xf6, 0x22, 0xaa],
     [0x5e, 0x39, 0x0f, 0x7d], [0xf7, 0xa6, 0x92, 0x96], [0xa7, 0x55, 0x3d, 0xc1], [0x0a, 0xa3, 0x1f, 0x6b],
     [0x14, 0xf9, 0x70, 0x1a], [0xe3, 0x5f, 0xe2, 0x8c], [0x44, 0x0a, 0xdf, 0x4d], [0x4e, 0xa9, 0xc0, 0x26],
     [0x47, 0x43, 0x87, 0x35], [0xa4, 0x1c, 0x65, 0xb9], [0xe0, 0x16, 0xba, 0xf4], [0xae, 0xbf, 0x7a, 0xd2],
     [0x54, 0x99, 0x32, 0xd1], [0xf0, 0x85, 0x57, 0x68], [0x10, 0x93, 0xed, 0x9c], [0xbe, 0x2c, 0x97, 0x4e],
     [0x13, 0x11, 0x1d, 0x7f], [0xe3, 0x94, 0x4a, 0x17], [0xf3, 0x07, 0xa7, 0x8b], [0x4d, 0x2b, 0x30, 0xc5]]"

lemma kat_schedule128_eq: "expand_key 4 10 (key_from_bytes kKat128Key Aes128) = kat_schedule128"
  unfolding expand_key_def kat_key128 kat_schedule128_def by (simp add: schedule_eval kKat128Key_def)

lemma kat_round_keys128:
  "round_key kat_schedule128 0 = [0x00, 0x01, 0x02, 0x03, 0x04, 0x05, 0x06, 0x07, 0x08, 0x09, 0x0a, 0x0b, 0x0c, 0x0d, 0x0e, 0x0f]"
  "round_key kat_schedule128 (Suc 0) = [0xd6, 0xaa, 0x74, 0xfd, 0xd2, 0xaf, 0x72, 0xfa, 0xda, 0xa6, 0x78, 0xf1, 0xd6, 0xab, 0x76, 0xfe]"
  "round_key kat_schedule128 2 = [0xb6, 0x92, 0xcf, 0x0b, 0x64, 0x3d, 0xbd, 0xf1, 0xbe, 0x9b, 0xc5, 0x00, 0x68, 0x30, 0xb3, 0xfe]"
  "round_key kat_schedule128 3 = [0xb6, 0xff, 0x74, 0x4e, 0xd2, 0xc2, 0xc9, 0xbf, 0x6c, 0x59, 0x0c, 0xbf, 0x04, 0x69, 0xbf, 0x41]"
  "round_key kat_schedule128 4 = [0x47, 0xf7, 0xf7, 0xbc, 0x95, 0x35, 0x3e, 0x03, 0xf9, 0x6c, 0x32, 0xbc, 0xfd, 0x05, 0x8d, 0xfd]"
  "round_key kat_schedule128 5 = [0x3c, 0xaa, 0xa3, 0xe8, 0xa9, 0x9f, 0x9d, 0xeb, 0x50, 0xf3, 0xaf, 0x57, 0xad, 0xf6, 0x22, 0xaa]"
  "round_key kat_schedule128 6 = [0x5e, 0x39, 0x0f, 0x7d, 0xf7, 0xa6, 0x92, 0x96, 0xa7, 0x55, 0x3d, 0xc1, 0x0a, 0xa3, 0x1f, 0x6b]"
  "round_key kat_schedule128 7 = [0x14, 0xf9, 0x70, 0x1a, 0xe3, 0x5f, 0xe2, 0x8c, 0x44, 0x0a, 0xdf, 0x4d, 0x4e, 0xa9, 0xc0, 0x26]"
  "round_key kat_schedule128 8 = [0x47, 0x43, 0x87, 0x35, 0xa4, 0x1c, 0x65, 0xb9, 0xe0, 0x16, 0xba, 0xf4, 0xae, 0xbf, 0x7a, 0xd2]"
  "round_key kat_schedule128 9 = [0x54, 0x99, 0x32, 0xd1, 0xf0, 0x85, 0x57, 0x68, 0x10, 0x93, 0xed, 0x9c, 0xbe, 0x2c, 0x97, 0x4e]"
  "round_key kat_schedule128 10 = [0x13, 0x11, 0x1d, 0x7f, 0xe3, 0x94, 0x4a, 0x17, 0xf3, 0x07, 0xa7, 0x8b, 0x4d, 0x2b, 0x30, 0xc5]"
  by (simp_all add: round_key_def kat_schedule128_def)

lemma kat128:
  "aes128_encrypt_block_soft (key_from_bytes kKat128Key Aes128) kKat128Plaintext = kKat128Ciphertext"
proof -
  have "cipher_rounds kat_schedule128 10 kKat128Plaintext = kKat128Ciphertext"
    unfolding kKat128Plaintext_def kKat128Ciphertext_def
    by (simp add: round_eval kat_round_keys128)
  then show ?thesis
    by (simp add: aes128_encrypt_block_soft_def aes_soft_cipher_rounds kat_schedule128_eq
        kKat128Plaintext_def)
qed

text \<open>The schedule of the AES-256 vector (FIPS-197, appendix A).\<close>

definition kat_schedule256 :: "aes_word list" where
  "kat_schedule256 =
    [[0x00, 0x01, 0x02, 0x03], [0x04, 0x05, 0x06, 0x07], [0x08, 0x09, 0x0a, 0x0b], [0x0c, 0x0d, 0x0e, 0x0f],
     [0x10, 0x11, 0x12, 0x13], [0x14, 0x15, 0x16, 0x17], [0x18, 0x19, 0x1a, 0x1b], [0x1c, 0x1d, 0x1e, 0x1f],
     [0xa5, 0x73, 0xc2, 0x9f], [0xa1, 0x76, 0xc4, 0x98], [0xa9, 0x7f, 0xce, 0x93], [0xa5, 0x72, 0xc0, 0x9c],
     [0x16, 0x51, 0xa8, 0xcd], [0x02, 0x44, 0xbe, 0xda], [0x1a, 0x5d, 0xa4, 0xc1], [0x06, 0x40, 0xba, 0xde],
     [0xae, 0x87, 0xdf, 0xf0], [0x0f, 0xf1, 0x1b, 0x68], [0xa6, 0x8e, 0xd5, 0xfb], [0x03, 0xfc, 0x15, 0x67],
     [0x6d, 0xe1, 0xf1, 0x48], [0x6f, 0xa5, 0x4f, 0x92], [0x75, 0xf8, 0xeb, 0x53], [0x73, 0xb8, 0x51, 0x8d],
     [0xc6, 0x56, 0x82, 0x7f], [0xc9, 0xa7, 0x99, 0x17], [0x6f, 0x29, 0x4c, 0xec], [0x6c, 0xd5, 0x59, 0x8b],
     [0x3d, 0xe2, 0x3a, 0x75], [0x52, 0x47, 0x75, 0xe7], [0x27, 0xbf, 0x9e, 0xb4], [0x54, 0x07, 0xcf, 0x39],
     [0x0b, 0xdc, 0x90, 0x5f], [0xc2, 0x7b, 0x09, 0x48], [0xad, 0x52, 0x45, 0xa4], [0xc1, 0x87, 0x1c, 0x2f],
     [0x45, 0xf5, 0xa6, 0x60], [0x17, 0xb2, 0xd3, 0x87], [0x30, 0x0d, 0x4d, 0x33], [0x64, 0x0a, 0x82, 0x0a],
     [0x7c, 0xcf, 0xf7, 0x1c], [0xbe, 0xb4, 0xfe, 0x54], [0x13, 0xe6, 0xbb, 0xf0], [0xd2, 0x61, 0xa7, 0xdf],
     [0xf0, 0x1a, 0xfa, 0xfe], [0xe7, 0xa8, 0x29, 0x79], [0xd7, 0xa5, 0x64, 0x4a], [0xb3, 0xaf, 0xe6, 0x40],
     [0x25, 0x41, 0xfe, 0x71], [0x9b, 0xf5, 0x00, 0x25], [0x88, 0x13, 0xbb, 0xd5], [0x5a, 0x72, 0x1c, 0x0a],
     [0x4e, 0x5a, 0x66, 0x99], [0xa9, 0xf2, 0x4f, 0xe0], [0x7e, 0x57, 0x2b, 0xaa], [0xcd, 0xf8, 0xcd, 0xea],
     [0x24, 0xfc, 0x79, 0xcc], [0xbf, 0x09, 0x79, 0xe9], [0x37, 0x1a, 0xc2, 0x3c], [0x6d, 0x68, 0xde, 0x36]]"

lemma kat_schedule256_eq: "expand_key 8 14 (key_from_bytes kKat256Key Aes256) = kat_schedule256"
  unfolding expand_key_def kat_key256 kat_schedule256_def by (simp add: schedule_eval kKat256Key_def)

lemma kat_round_keys256:
  "round_key kat_schedule256 0 = [0x00, 0x01, 0x02, 0x03, 0x04, 0x05, 0x06, 0x07, 0x08, 0x09, 0x0a, 0x0b, 0x0c, 0x0d, 0x0e, 0x0f]"
  "round_key kat_schedule256 (Suc 0) = [0x10, 0x11, 0x12, 0x13, 0x14, 0x15, 0x16, 0x17, 0x18, 0x19, 0x1a, 0x1b, 0x1c, 0x1d, 0x1e, 0x1f]"
  "round_key kat_schedule256 2 = [0xa5, 0x73, 0xc2, 0x9f, 0xa1, 0x76, 0xc4, 0x98, 0xa9, 0x7f, 0xce, 0x93, 0xa5, 0x72, 0xc0, 0x9c]"
  "round_key kat_schedule256 3 = [0x16, 0x51, 0xa8, 0xcd, 0x02, 0x44, 0xbe, 0xda, 0x1a, 0x5d, 0xa4, 0xc1, 0x06, 0x40, 0xba, 0xde]"
  "round_key kat_schedule256 4 = [0xae, 0x87, 0xdf, 0xf0, 0x0f, 0xf1, 0x1b, 0x68, 0xa6, 0x8e, 0xd5, 0xfb, 0x03, 0xfc, 0x15, 0x67]"
  "round_key kat_schedule256 5 = [0x6d, 0xe1, 0xf1, 0x48, 0x6f, 0xa5, 0x4f, 0x92, 0x75, 0xf8, 0xeb, 0x53, 0x73, 0xb8, 0x51, 0x8d]"
  "round_key kat_schedule256 6 = [0xc6, 0x56, 0x82, 0x7f, 0xc9, 0xa7, 0x99, 0x17, 0x6f, 0x29, 0x4c, 0xec, 0x6c, 0xd5, 0x59, 0x8b]"
  "round_key kat_schedule256 7 = [0x3d, 0xe2, 0x3a, 0x75, 0x52, 0x47, 0x75, 0xe7, 0x27, 0xbf, 0x9e, 0xb4, 0x54, 0x07, 0xcf, 0x39]"
  "round_key kat_schedule256 8 = [0x0b, 0xdc, 0x90, 0x5f, 0xc2, 0x7b, 0x09, 0x48, 0xad, 0x52, 0x45, 0xa4, 0xc1, 0x87, 0x1c, 0x2f]"
  "round_key kat_schedule256 9 = [0x45, 0xf5, 0xa6, 0x60, 0x17, 0xb2, 0xd3, 0x87, 0x30, 0x0d, 0x4d, 0x33, 0x64, 0x0a, 0x82, 0x0a]"
  "round_key kat_schedule256 10 = [0x7c, 0xcf, 0xf7, 0x1c, 0xbe, 0xb4, 0xfe, 0x54, 0x13, 0xe6, 0xbb, 0xf0, 0xd2, 0x61, 0xa7, 0xdf]"
  "round_key kat_schedule256 11 = [0xf0, 0x1a, 0xfa, 0xfe, 0xe7, 0xa8, 0x29, 0x79, 0xd7, 0xa5, 0x64, 0x4a, 0xb3, 0xaf, 0xe6, 0x40]"
  "round_key kat_schedule256 12 = [0x25, 0x41, 0xfe, 0x71, 0x9b, 0xf5, 0x00, 0x25, 0x88, 0x13, 0xbb, 0xd5, 0x5a, 0x72, 0x1c, 0x0a]"
  "round_key kat_schedule256 13 = [0x4e, 0x5a, 0x66, 0x99, 0xa9, 0xf2, 0x4f, 0xe0, 0x7e, 0x57, 0x2b, 0xaa, 0xcd, 0xf8, 0xcd, 0xea]"
  "round_key kat_schedule256 14 = [0x24, 0xfc, 0x79, 0xcc, 0xbf, 0x09, 0x79, 0xe9, 0x37, 0x1a, 0xc2, 0x3c, 0x6d, 0x68, 0xde, 0x36]"
  by (simp_all add: round_key_def kat_schedule256_def)

lemma kat256:
  "aes256_encrypt_block_soft (key_from_bytes kKat256Key Aes256) kKat256Plaintext = kKat256Ciphertext"
proof -
  have "cipher_rounds kat_schedule256 14 kKat256Plaintext = kKat256Ciphertext"
    unfolding kKat256Plaintext_def kKat256Ciphertext_def
    by (simp add: round_eval kat_round_keys256)
  then show ?thesis
    by (simp add: aes256_encrypt_block_soft_def aes_soft_cipher_rounds kat_schedule256_eq
        kKat256Plaintext_def)
qed

section \<open>Properties\<close>

text \<open>
  The software cipher answers both FIPS-197 known-answer vectors (appendix C.1 for
  AES-128, appendix C.3 for AES-256) with the published ciphertext.
\<close>

theorem aes_soft_known_answers:
  "aes128_encrypt_block_soft (key_from_bytes kKat128Key Aes128) kKat128Plaintext = kKat128Ciphertext \<and>
   aes256_encrypt_block_soft (key_from_bytes kKat256Key Aes256) kKat256Plaintext = kKat256Ciphertext"
  by (simp add: kat128 kat256)

end
