(* ===== verification/Byte_Codec.thy ===== *)
theory Byte_Codec
  imports Aes_Prelude
begin

text \<open>
  Fixed-width integers as byte strings. The source writes each conversion out by hand
  (\<^verbatim>\<open>load_be64\<close>, \<^verbatim>\<open>u32_to_be\<close>, the little-endian length fields of the containers); the
  component theories show their own versions equal to the two generic pairs here, whose
  round trips are proved once.
\<close>

section \<open>The low byte\<close>

lemma ucast_and_255: "ucast (v AND 0xff) = (ucast v :: byte)" for v :: "'a::len word"
proof -
  have "v AND 0xff = take_bit 8 v"
    by (simp add: take_bit_eq_mask mask_eq_exp_minus_1)
  then show ?thesis
    by (auto intro!: bit_word_eqI simp: bit_ucast_iff bit_take_bit_iff)
qed

section \<open>Little-endian\<close>

primrec le_encode :: "nat \<Rightarrow> 'a::len word \<Rightarrow> bytes" where
  "le_encode 0 v = []"
| "le_encode (Suc n) v = ucast v # le_encode n (drop_bit 8 v)"

primrec le_decode :: "bytes \<Rightarrow> 'a::len word" where
  "le_decode [] = 0"
| "le_decode (b # bs) = ucast b OR push_bit 8 (le_decode bs)"

lemma length_le_encode [simp, len_simps]: "length (le_encode n v) = n"
  by (induction n arbitrary: v) simp_all

lemma le_encode_numeral:
  "le_encode (numeral k) v = ucast v # le_encode (pred_numeral k) (drop_bit 8 v)"
  by (simp add: numeral_eq_Suc)

lemma nth_le_encode: "i < n \<Longrightarrow> le_encode n v ! i = ucast (drop_bit (8 * i) v)"
  by (induction n arbitrary: v i) (auto simp: nth_Cons drop_bit_drop_bit add.commute split: nat.split)

lemma bit_le_decode:
  fixes bs :: bytes
  shows "bit (le_decode bs :: 'a::len word) k \<longleftrightarrow>
    k < LENGTH('a) \<and> k < 8 * length bs \<and> bit (bs ! (k div 8)) (k mod 8)"
proof (induction bs arbitrary: k)
  case (Cons b bs)
  show ?case
  proof (cases "k < 8")
    case True
    then show ?thesis
      by (auto simp: bit_or_iff bit_push_bit_iff bit_ucast_iff)
  next
    case False
    then have "k div 8 = Suc ((k - 8) div 8)" and "k mod 8 = (k - 8) mod 8"
      by (simp_all add: le_div_geq le_mod_geq)
    with False Cons.IH [of "k - 8"] show ?thesis
      by (auto simp: bit_or_iff bit_push_bit_iff bit_ucast_iff dest: bit_imp_le_length)
  qed
qed simp

lemma le_decode_encode:
  fixes v :: "'a::len word"
  shows "le_decode (le_encode n v) = take_bit (8 * n) v"
proof (rule bit_word_eqI)
  fix k
  assume "k < LENGTH('a)"
  then show "bit (le_decode (le_encode n v) :: 'a word) k = bit (take_bit (8 * n) v) k"
    by (auto simp: bit_le_decode nth_le_encode bit_take_bit_iff bit_ucast_iff bit_drop_bit_eq
        div_mult_mod_eq less_mult_imp_div_less)
qed

lemma le_encode_decode:
  assumes "length bs = n" and "8 * n \<le> LENGTH('a)"
  shows "le_encode n (le_decode bs :: 'a::len word) = bs"
proof (rule nth_equalityI)
  fix i
  assume "i < length (le_encode n (le_decode bs :: 'a word))"
  then have i: "i < n" by simp
  show "le_encode n (le_decode bs :: 'a word) ! i = bs ! i"
  proof (rule bit_word_eqI)
    fix k
    assume "k < LENGTH(8)"
    then have k: "k < 8" by simp
    with i assms have "8 * i + k < LENGTH('a)" "8 * i + k < 8 * length bs"
      by linarith+
    with i k show "bit (le_encode n (le_decode bs :: 'a word) ! i) k = bit (bs ! i) k"
      by (simp add: nth_le_encode bit_ucast_iff bit_drop_bit_eq bit_le_decode)
  qed
qed (use assms in simp)

section \<open>Big-endian\<close>

definition be_encode :: "nat \<Rightarrow> 'a::len word \<Rightarrow> bytes" where
  "be_encode n v = rev (le_encode n v)"

definition be_decode :: "bytes \<Rightarrow> 'a::len word" where
  "be_decode bs = le_decode (rev bs)"

lemma length_be_encode [simp, len_simps]: "length (be_encode n v) = n"
  by (simp add: be_encode_def)

lemma be_decode_encode:
  fixes v :: "'a::len word"
  shows "be_decode (be_encode n v) = take_bit (8 * n) v"
  by (simp add: be_decode_def be_encode_def le_decode_encode)

lemma be_encode_decode:
  "length bs = n \<Longrightarrow> 8 * n \<le> LENGTH('a) \<Longrightarrow> be_encode n (be_decode bs :: 'a::len word) = bs"
  by (simp add: be_decode_def be_encode_def le_encode_decode)

lemma be_decode_snoc: "be_decode (bs @ [b]) = push_bit 8 (be_decode bs) OR ucast b"
  by (simp add: be_decode_def or.commute)

lemma be_encode_Suc: "be_encode (Suc n) v = be_encode n (drop_bit 8 v) @ [ucast v]"
  by (simp add: be_encode_def)

lemma be_encode_inject:
  fixes v w :: "'a::len word"
  assumes "be_encode n v = be_encode n w" and "LENGTH('a) \<le> 8 * n"
  shows "v = w"
proof -
  have "take_bit (8 * n) v = take_bit (8 * n) w"
    using assms(1) by (metis be_decode_encode)
  with assms(2) show ?thesis
    by (simp add: take_bit_word_eq_self)
qed

lemma le_decode_append:
  "le_decode (xs @ ys) = le_decode xs OR push_bit (8 * length xs) (le_decode ys)"
  by (induction xs) (simp_all add: push_bit_or or.assoc)

lemma ucast_le_decode:
  assumes "8 * length bs \<le> LENGTH('a)" and "LENGTH('a) \<le> LENGTH('b)"
  shows "ucast (le_decode bs :: 'a::len word) = (le_decode bs :: 'b::len word)"
  using assms by (auto intro!: bit_word_eqI simp: bit_ucast_iff bit_le_decode)

lemma be_decode_append:
  "be_decode (xs @ ys) = push_bit (8 * length ys) (be_decode xs) OR be_decode ys"
  by (simp add: be_decode_def le_decode_append or.commute)

lemma ucast_be_decode:
  assumes "8 * length bs \<le> LENGTH('a)" and "LENGTH('a) \<le> LENGTH('b)"
  shows "ucast (be_decode bs :: 'a::len word) = (be_decode bs :: 'b::len word)"
  using assms by (simp add: be_decode_def ucast_le_decode)

lemma le_decode_xor:
  "length xs = length ys \<Longrightarrow>
   (le_decode (xor_bytes xs ys) :: 'a::len word) = le_decode xs XOR le_decode ys"
  by (rule bit_word_eqI) (auto simp: bit_le_decode bit_xor_iff)

lemma xor_bytes_rev:
  "length xs = length ys \<Longrightarrow> xor_bytes (rev xs) (rev ys) = rev (xor_bytes xs ys)"
  by (induction xs ys rule: list_induct2) (simp_all add: xor_bytes_append)

lemma be_decode_xor:
  "length xs = length ys \<Longrightarrow>
   (be_decode (xor_bytes xs ys) :: 'a::len word) = be_decode xs XOR be_decode ys"
  by (simp add: be_decode_def le_decode_xor xor_bytes_rev flip: xor_bytes_rev)

lemma le_encode_xor: "le_encode n (v XOR w) = xor_bytes (le_encode n v) (le_encode n w)"
  by (rule nth_equalityI) (auto intro!: bit_word_eqI
      simp: nth_le_encode bit_ucast_iff bit_xor_iff bit_drop_bit_eq)

lemma le_encode_inject:
  fixes v w :: "'a::len word"
  assumes "le_encode n v = le_encode n w" and "LENGTH('a) \<le> 8 * n"
  shows "v = w"
  using be_encode_inject [of n v w] assms by (simp add: be_encode_def)

section \<open>The conversion loops of the source\<close>

lemma le_encode_loop:
  "map (\<lambda>i. ucast (drop_bit (8 * i) v AND 0xff)) [0..<n] = le_encode n (v :: 'a::len word)"
  by (rule nth_equalityI) (simp_all add: nth_le_encode ucast_and_255)

lemma le_decode_snoc:
  "le_decode (bs @ [b]) = le_decode bs OR push_bit (8 * length bs) (ucast b)"
  by (simp add: le_decode_append)

lemma le_decode_loop:
  assumes "off + n \<le> length bs"
  shows "fold (\<lambda>i v. v OR push_bit (8 * i) (ucast (bs ! (off + i)))) [0..<n] (0 :: 'a::len word) =
    le_decode (take n (drop off bs))"
  using assms
proof (induction n)
  case (Suc n)
  have "le_decode (take (Suc n) (drop off bs)) =
      (le_decode (take n (drop off bs)) OR push_bit (8 * n) (ucast (bs ! (off + n))) :: 'a word)"
    using Suc.prems le_decode_snoc [of "take n (drop off bs)" "bs ! (off + n)"]
    by (simp add: take_Suc_conv_app_nth)
  with Suc show ?case
    by simp
qed simp

end
