(* ===== verification/Aes_Engine.thy ===== *)
theory Aes_Engine
  imports Aes_Soft Byte_Codec
begin

text \<open>
  What the hardware backends share. Each of them keeps the AES state in registers and
  computes a round by instructions; the locale \<open>aes_engine\<close> states the contract of such a
  register representation (how each operation acts on the 16 bytes in memory order), and
  shows once that running the rounds over it is the software cipher. The second part
  gives the key expansion in steps of one 16-byte round key, the shape in which the
  instruction sequences of the AES-NI and the RISC-V backend compute it.
\<close>

section \<open>The round loop over registers\<close>

locale aes_engine =
  fixes mem :: "'s \<Rightarrow> bytes"
    and add_key mid_round fin_round :: "'s \<Rightarrow> 's \<Rightarrow> 's"
  assumes mem_add_key: "length (mem s) = 16 \<Longrightarrow> length (mem k) = 16 \<Longrightarrow>
      mem (add_key s k) = xor_bytes (mem s) (mem k)"
    and mem_mid_round: "length (mem s) = 16 \<Longrightarrow> length (mem k) = 16 \<Longrightarrow>
      mem (mid_round s k) = xor_bytes (mix_columns (shift_rows (sub_bytes (mem s)))) (mem k)"
    and mem_fin_round: "length (mem s) = 16 \<Longrightarrow> length (mem k) = 16 \<Longrightarrow>
      mem (fin_round s k) = xor_bytes (shift_rows (sub_bytes (mem s))) (mem k)"
begin

definition run_rounds :: "nat \<Rightarrow> 's list \<Rightarrow> 's \<Rightarrow> 's" where
  "run_rounds Nr ks s =
     fin_round (fold (\<lambda>r st. mid_round st (ks ! r)) [1..<Nr] (add_key s (ks ! 0))) (ks ! Nr)"

lemma mem_mid_rounds:
  assumes "length (mem s) = 16" and "words_wf w" and "length w = 4 * (Nr + 1)"
    and "\<And>r. r \<le> Nr \<Longrightarrow> mem (ks ! r) = round_key w r" and "k \<le> Nr"
  shows "mem (fold (\<lambda>r st. mid_round st (ks ! r)) [1..<k] s) = fold (middle_round w) [1..<k] (mem s)
    \<and> length (fold (middle_round w) [1..<k] (mem s)) = 16"
  using assms(5)
proof (induction k)
  case (Suc k)
  then show ?case
    using assms(1-4) by (cases "k = 0") (auto simp: mem_mid_round middle_round_def length_round_key)
qed (use assms in simp)

lemma mem_run_rounds:
  assumes "length (mem s) = 16" and "words_wf w" and "length w = 4 * (Nr + 1)"
    and "\<And>r. r \<le> Nr \<Longrightarrow> mem (ks ! r) = round_key w r"
  shows "mem (run_rounds Nr ks s) = cipher_rounds w Nr (mem s)"
proof -
  have rk: "length (round_key w r) = 16" if "r \<le> Nr" for r
    using that assms(2,3) by (simp add: length_round_key)
  have a: "mem (add_key s (ks ! 0)) = xor_bytes (mem s) (round_key w 0)"
    using assms rk by (simp add: mem_add_key)
  have "length (mem (add_key s (ks ! 0))) = 16"
    using assms(1) rk by (simp add: a)
  from mem_mid_rounds [OF this assms(2-4) order_refl] show ?thesis
    using assms(4) rk by (simp add: run_rounds_def cipher_rounds_def mem_fin_round a)
qed

lemma mem_run_rounds_soft:
  assumes "length (mem s) = 16" and "0 < Nk" and "Nk \<le> 4 * (Nr + 1)"
    and "(4 * (Nr + 1) - 1) div Nk \<le> 10" and "4 * Nk \<le> length (key_bytes key)"
    and "\<And>r. r \<le> Nr \<Longrightarrow> mem (ks ! r) = fips_round_key Nk (key_bytes key) r"
  shows "mem (run_rounds Nr ks s) = aes_encrypt_block_soft Nk Nr key (mem s)"
  using assms mem_run_rounds [OF assms(1) words_wf_expand_key length_expand_key]
  by (simp add: aes_soft_cipher_rounds round_key_fips)

end

text \<open>The software rounds are the engine whose registers are the bytes themselves.\<close>

interpretation soft_engine: aes_engine "\<lambda>st. st" xor_bytes
  "\<lambda>st k. xor_bytes (mix_columns (shift_rows (sub_bytes st))) k"
  "\<lambda>st k. xor_bytes (shift_rows (sub_bytes st)) k"
  by unfold_locales simp_all

lemma soft_engine_run:
  assumes "length block = 16"
  shows "aes_encrypt_block_soft Nk Nr key block =
    soft_engine.run_rounds Nr (map (round_key (expand_key Nk Nr key)) [0..<Suc Nr]) block"
  using assms soft_engine.mem_run_rounds [OF assms words_wf_expand_key length_expand_key,
      of Nr "map (round_key (expand_key Nk Nr key)) [0..<Suc Nr]" Nk key]
  by (simp add: aes_soft_cipher_rounds del: upt_Suc)

section \<open>The key expansion in round keys\<close>

definition key_word :: "bytes \<Rightarrow> nat \<Rightarrow> aes_word" where
  "key_word k i = take 4 (drop (4 * i) k)"

text \<open>Four words, each the exclusive or of the word above it and the word before it.\<close>

definition chain_words :: "bytes \<Rightarrow> aes_word \<Rightarrow> bytes" where
  "chain_words k t =
     (let a = xor_bytes (key_word k 0) t; b = xor_bytes (key_word k 1) a;
          c = xor_bytes (key_word k 2) b; d = xor_bytes (key_word k 3) c
      in a @ b @ c @ d)"

definition sub_rot_rcon :: "aes_word \<Rightarrow> nat \<Rightarrow> aes_word" where
  "sub_rot_rcon w j = xor_bytes (fips_sub_word (rotate1 w)) (fips_rcon j)"

lemma key_word_round_key:
  assumes "4 * Nk \<le> length kb" and "0 < Nk" and "c < 4"
  shows "key_word (fips_round_key Nk kb r) c = fips_word Nk kb (4 * r + c)"
proof -
  have "length (fips_word Nk kb i) = 4" for i
    using assms length_fips_word by blast
  moreover have "c = 0 \<or> c = 1 \<or> c = 2 \<or> c = 3"
    using assms(3) by linarith
  ultimately show ?thesis
    by (auto simp: key_word_def fips_round_key_def)
qed

lemma length_fips_round_key:
  "4 * Nk \<le> length kb \<Longrightarrow> 0 < Nk \<Longrightarrow> length (fips_round_key Nk kb r) = 16"
  by (simp add: fips_round_key_def length_fips_word)

lemma fips_word_step:
  "0 < Nk \<Longrightarrow> fips_word Nk kb (Nk + i) = xor_bytes (fips_word Nk kb i)
     (if i mod Nk = 0 then sub_rot_rcon (fips_word Nk kb (Nk + i - 1)) (Suc (i div Nk))
      else if Nk > 6 \<and> i mod Nk = 4 then fips_sub_word (fips_word Nk kb (Nk + i - 1))
      else fips_word Nk kb (Nk + i - 1))"
  by (subst fips_word.simps) (simp add: sub_rot_rcon_def div_add_self1)

lemma fips_round_key_words:
  "fips_round_key Nk kb r = fips_word Nk kb (4 * r) @ fips_word Nk kb (4 * r + 1) @
     fips_word Nk kb (4 * r + 2) @ fips_word Nk kb (4 * r + 3)"
  by (simp add: fips_round_key_def)

lemma fips_round_key_chain:
  assumes "4 * Nk \<le> length kb" and "0 < Nk"
    and "\<And>c. c < 4 \<Longrightarrow> fips_word Nk kb (4 * n + c) = xor_bytes (fips_word Nk kb (4 * r + c))
      (if c = 0 then t else fips_word Nk kb (4 * n + (c - 1)))"
  shows "fips_round_key Nk kb n = chain_words (fips_round_key Nk kb r) t"
  unfolding chain_words_def Let_def fips_round_key_words [of Nk kb n]
  using assms(1,2) assms(3) [of 0] assms(3) [of 1] assms(3) [of 2] assms(3) [of 3]
  by (simp add: key_word_round_key)

lemma fips_round_key_128_step:
  assumes "16 \<le> length kb"
  shows "fips_round_key 4 kb (Suc r) =
    chain_words (fips_round_key 4 kb r) (sub_rot_rcon (key_word (fips_round_key 4 kb r) 3) (Suc r))"
proof -
  have s: "fips_word 4 kb (4 * Suc r + c) = xor_bytes (fips_word 4 kb (4 * r + c))
      (if c = 0 then sub_rot_rcon (fips_word 4 kb (4 * r + 3)) (Suc r)
       else fips_word 4 kb (4 * Suc r + (c - 1)))" if "c < 4" for c
  proof (cases "c = 0")
    case True
    have "4 + 4 * r - 1 = 4 * r + 3" by simp
    then show ?thesis
      using True fips_word_step [of 4 kb "4 * r"] by (simp add: add.commute)
  next
    case False
    have *: "4 + (4 * r + c) = 4 * Suc r + c" by simp
    have "(4 * r + c) mod 4 \<noteq> 0" "4 * Suc r + c - 1 = 4 * Suc r + (c - 1)"
      using that False by (auto simp: mod_mult_self2)
    then show ?thesis
      using False fips_word_step [of 4 kb "4 * r + c", unfolded *] by simp
  qed
  have t: "key_word (fips_round_key 4 kb r) 3 = fips_word 4 kb (4 * r + 3)"
    using assms by (simp add: key_word_round_key)
  show ?thesis
    unfolding t by (rule fips_round_key_chain) (use assms in simp, simp, rule s)
qed

lemma fips_round_key_256_step:
  assumes "32 \<le> length kb"
  shows "fips_round_key 8 kb (Suc (Suc r)) = chain_words (fips_round_key 8 kb r)
    (if even r then sub_rot_rcon (key_word (fips_round_key 8 kb (Suc r)) 3) (Suc (r div 2))
     else fips_sub_word (key_word (fips_round_key 8 kb (Suc r)) 3))"
proof -
  have s: "fips_word 8 kb (4 * Suc (Suc r) + c) = xor_bytes (fips_word 8 kb (4 * r + c))
      (if c = 0 then
         if even r then sub_rot_rcon (fips_word 8 kb (4 * Suc r + 3)) (Suc (r div 2))
         else fips_sub_word (fips_word 8 kb (4 * Suc r + 3))
       else fips_word 8 kb (4 * Suc (Suc r) + (c - 1)))" if "c < 4" for c
  proof (cases "c = 0")
    case True
    have i: "8 + 4 * r - 1 = 4 * Suc r + 3" "8 + 4 * r = 4 * Suc (Suc r)" "4 * r div 8 = r div 2"
      by simp_all
    have m: "4 * r mod 8 = (if even r then 0 else 4)"
      using mod_mult2_eq [of "4 * r" 4 2] by (simp add: mod_2_eq_odd)
    show ?thesis
      unfolding True add_0_right using fips_word_step [of 8 kb "4 * r"]
      unfolding i m by (cases "even r") simp_all
  next
    case False
    have *: "8 + (4 * r + c) = 4 * Suc (Suc r) + c" by simp
    have "(4 * r + c) mod 8 = 4 * (r mod 2) + c"
      using that mod_mult2_eq [of "4 * r + c" 4 2] by simp
    then have "(4 * r + c) mod 8 \<noteq> 0" "(4 * r + c) mod 8 \<noteq> 4"
      using that False by (auto simp: mod_2_eq_odd)
    moreover have "4 * Suc (Suc r) + c - 1 = 4 * Suc (Suc r) + (c - 1)"
      using False by simp
    ultimately show ?thesis
      using False fips_word_step [of 8 kb "4 * r + c", unfolded *] by simp
  qed
  have t: "key_word (fips_round_key 8 kb (Suc r)) 3 = fips_word 8 kb (4 * Suc r + 3)"
    using assms by (simp only: key_word_round_key)
  show ?thesis
    unfolding t by (rule fips_round_key_chain) (use assms in simp, simp, rule s)
qed

lemma fips_round_key_start:
  assumes "32 \<le> length kb"
  shows "take 16 kb = fips_round_key 8 kb 0" "take 16 (drop 16 kb) = fips_round_key 8 kb 1"
    and "take 16 kb = fips_round_key 4 kb 0"
  using assms
  by (simp_all add: fips_round_key_words fips_word.simps numeral_eq_Suc take_Suc_conv_app_nth)

section \<open>A documented round on the bytes\<close>

text \<open>
  An instruction is documented by its effect on the state matrix; on the 16 bytes it is
  the composition of the software transformations.
\<close>

lemma aes_round_bytes:
  assumes "length st = 16" and "length k = 16"
  shows "refines x (\<lambda>r c. fips_MixColumns (fips_SubBytes (fips_ShiftRows (\<lambda>r c. st ! (4 * c + r)))) r c
      XOR k ! (4 * c + r)) \<Longrightarrow> x = xor_bytes (mix_columns (shift_rows (sub_bytes st))) k"
    and "refines x (\<lambda>r c. fips_SubBytes (fips_ShiftRows (\<lambda>r c. st ! (4 * c + r))) r c
      XOR k ! (4 * c + r)) \<Longrightarrow> x = xor_bytes (shift_rows (sub_bytes st)) k"
  unfolding fips_Sub_Shift_commute
  using refines_self [OF assms(1)]
  by (auto elim!: refines_unique intro!: refines_xor_key refines_intros simp: assms)

end
