(* ===== verification/Aes_Ni.thy ===== *)
theory Aes_Ni
  imports Aes_Engine
begin

text \<open>
  The AES-NI backend of \<^verbatim>\<open>src/aes_core_ni.cpp\<close>. The intrinsics are instructions of the
  processor, not code of the repository: they are the fields of a parameter record, and
  \<open>ni_documented\<close> states what Intel's manual documents of each, in the terms of FIPS-197.
  A \<^verbatim>\<open>__m128i\<close> is a 128-bit word; \<^verbatim>\<open>_mm_loadu_si128\<close> and \<^verbatim>\<open>_mm_storeu_si128\<close> read and
  write its 16 bytes in little-endian order.
\<close>

section \<open>Definitions\<close>

type_synonym m128i = "128 word"

record ni_isa =
  mm_aesenc_si128 :: "m128i \<Rightarrow> m128i \<Rightarrow> m128i"
  mm_aesenclast_si128 :: "m128i \<Rightarrow> m128i \<Rightarrow> m128i"
  mm_aeskeygenassist_si128 :: "m128i \<Rightarrow> byte \<Rightarrow> m128i"
  mm_shuffle_epi32 :: "m128i \<Rightarrow> byte \<Rightarrow> m128i"
  mm_slli_si128 :: "m128i \<Rightarrow> nat \<Rightarrow> m128i"
  mm_xor_si128 :: "m128i \<Rightarrow> m128i \<Rightarrow> m128i"

definition mm_loadu_si128 :: "bytes \<Rightarrow> m128i" where
  "mm_loadu_si128 p = le_decode (take 16 p)"

definition mm_storeu_si128 :: "m128i \<Rightarrow> bytes" where
  "mm_storeu_si128 x = le_encode 16 x"

definition kNumRoundKeys :: nat where
  "kNumRoundKeys = 15"

definition key_expansion_step_even :: "ni_isa \<Rightarrow> m128i \<Rightarrow> m128i \<Rightarrow> m128i" where
  "key_expansion_step_even isa temp1 temp2 =
     (let temp2 = mm_shuffle_epi32 isa temp2 0xff;
          temp4 = mm_slli_si128 isa temp1 0x4;
          temp1 = mm_xor_si128 isa temp1 temp4;
          temp4 = mm_slli_si128 isa temp4 0x4;
          temp1 = mm_xor_si128 isa temp1 temp4;
          temp4 = mm_slli_si128 isa temp4 0x4;
          temp1 = mm_xor_si128 isa temp1 temp4
      in mm_xor_si128 isa temp1 temp2)"

definition key_expansion_step_odd :: "ni_isa \<Rightarrow> m128i \<Rightarrow> m128i \<Rightarrow> m128i" where
  "key_expansion_step_odd isa temp1 temp3 =
     (let temp4 = mm_aeskeygenassist_si128 isa temp1 0x0;
          temp2 = mm_shuffle_epi32 isa temp4 0xaa;
          temp4 = mm_slli_si128 isa temp3 0x4;
          temp3 = mm_xor_si128 isa temp3 temp4;
          temp4 = mm_slli_si128 isa temp4 0x4;
          temp3 = mm_xor_si128 isa temp3 temp4;
          temp4 = mm_slli_si128 isa temp4 0x4;
          temp3 = mm_xor_si128 isa temp3 temp4
      in mm_xor_si128 isa temp3 temp2)"

text \<open>
  The unrolled expansion. \<^verbatim>\<open>AESLIB_EVEN_STEP(rcon)\<close> and \<^verbatim>\<open>AESLIB_ODD_STEP()\<close> alternate; a
  pair of steps stores its results at an even index and the next one.
\<close>

fun ni_even_odd :: "ni_isa \<Rightarrow> byte \<times> nat \<Rightarrow> m128i \<times> m128i \<times> m128i list \<Rightarrow> m128i \<times> m128i \<times> m128i list" where
  "ni_even_odd isa (rcon, idx) (temp1, temp3, schedule) =
     (let temp2 = mm_aeskeygenassist_si128 isa temp3 rcon;
          temp1 = key_expansion_step_even isa temp1 temp2;
          schedule = schedule[idx := temp1];
          temp3 = key_expansion_step_odd isa temp1 temp3;
          schedule = schedule[idx + 1 := temp3]
      in (temp1, temp3, schedule))"

definition expand_key_ni :: "ni_isa \<Rightarrow> secret_key \<Rightarrow> m128i list" where
  "expand_key_ni isa key =
     (let schedule = replicate kNumRoundKeys 0;
          temp1 = mm_loadu_si128 (key_bytes key);
          temp3 = mm_loadu_si128 (drop 16 (key_bytes key));
          schedule = schedule[0 := temp1, 1 := temp3]
      in case fold (ni_even_odd isa)
             [(0x01, 2), (0x02, 4), (0x04, 6), (0x08, 8), (0x10, 10), (0x20, 12)]
             (temp1, temp3, schedule) of
           (temp1, temp3, schedule) \<Rightarrow>
             let temp2 = mm_aeskeygenassist_si128 isa temp3 0x40;
                 temp1 = key_expansion_step_even isa temp1 temp2
             in schedule[14 := temp1])"

definition ni_wipe_schedule :: "m128i list \<Rightarrow> m128i list" where
  "ni_wipe_schedule schedule = map (\<lambda>_. 0) schedule"

text \<open>The round loop, with the number of round keys as an argument.\<close>

definition ni_encrypt_rounds :: "ni_isa \<Rightarrow> nat \<Rightarrow> m128i list \<Rightarrow> bytes \<Rightarrow> m128i" where
  "ni_encrypt_rounds isa nkeys schedule block =
     (let state = mm_loadu_si128 block;
          state = mm_xor_si128 isa state (schedule ! 0);
          state = fold (\<lambda>rnd st. mm_aesenc_si128 isa st (schedule ! rnd)) [1..<nkeys - 1] state
      in mm_aesenclast_si128 isa state (schedule ! (nkeys - 1)))"

definition aes256_encrypt_block_ni_run :: "ni_isa \<Rightarrow> secret_key \<Rightarrow> bytes \<Rightarrow> bytes \<times> m128i list" where
  "aes256_encrypt_block_ni_run isa key block =
     (let schedule = expand_key_ni isa key;
          state = ni_encrypt_rounds isa kNumRoundKeys schedule block;
          schedule = ni_wipe_schedule schedule
      in (mm_storeu_si128 state, schedule))"

definition aes256_encrypt_block_ni :: "ni_isa \<Rightarrow> secret_key \<Rightarrow> bytes \<Rightarrow> bytes" where
  "aes256_encrypt_block_ni isa key block = fst (aes256_encrypt_block_ni_run isa key block)"

definition kNumRoundKeys128 :: nat where
  "kNumRoundKeys128 = 11"

definition key_128_assist :: "ni_isa \<Rightarrow> m128i \<Rightarrow> m128i \<Rightarrow> m128i" where
  "key_128_assist isa temp1 temp2 =
     (let temp2 = mm_shuffle_epi32 isa temp2 0xff;
          temp3 = mm_slli_si128 isa temp1 0x4;
          temp1 = mm_xor_si128 isa temp1 temp3;
          temp3 = mm_slli_si128 isa temp3 0x4;
          temp1 = mm_xor_si128 isa temp1 temp3;
          temp3 = mm_slli_si128 isa temp3 0x4;
          temp1 = mm_xor_si128 isa temp1 temp3
      in mm_xor_si128 isa temp1 temp2)"

fun ni_key128_step :: "ni_isa \<Rightarrow> byte \<times> nat \<Rightarrow> m128i \<times> m128i list \<Rightarrow> m128i \<times> m128i list" where
  "ni_key128_step isa (rcon, idx) (temp1, schedule) =
     (let temp2 = mm_aeskeygenassist_si128 isa temp1 rcon;
          temp1 = key_128_assist isa temp1 temp2
      in (temp1, schedule[idx := temp1]))"

definition expand_key128_ni :: "ni_isa \<Rightarrow> secret_key \<Rightarrow> m128i list" where
  "expand_key128_ni isa key =
     (let schedule = replicate kNumRoundKeys128 0;
          temp1 = mm_loadu_si128 (key_bytes key);
          schedule = schedule[0 := temp1]
      in snd (fold (ni_key128_step isa)
           [(0x01, 1), (0x02, 2), (0x04, 3), (0x08, 4), (0x10, 5), (0x20, 6), (0x40, 7),
            (0x80, 8), (0x1B, 9), (0x36, 10)] (temp1, schedule)))"

definition aes128_encrypt_block_ni_run :: "ni_isa \<Rightarrow> secret_key \<Rightarrow> bytes \<Rightarrow> bytes \<times> m128i list" where
  "aes128_encrypt_block_ni_run isa key block =
     (let schedule = expand_key128_ni isa key;
          state = ni_encrypt_rounds isa kNumRoundKeys128 schedule block;
          schedule = ni_wipe_schedule schedule
      in (mm_storeu_si128 state, schedule))"

definition aes128_encrypt_block_ni :: "ni_isa \<Rightarrow> secret_key \<Rightarrow> bytes \<Rightarrow> bytes" where
  "aes128_encrypt_block_ni isa key block = fst (aes128_encrypt_block_ni_run isa key block)"

section \<open>What the instructions document\<close>

text \<open>The four 32-bit lanes of a register, as 4-byte strings in memory order.\<close>

definition lane :: "m128i \<Rightarrow> nat \<Rightarrow> aes_word" where
  "lane x i = take 4 (drop (4 * i) (mm_storeu_si128 x))"

definition ni_documented :: "ni_isa \<Rightarrow> bool" where
  "ni_documented isa \<longleftrightarrow>
     (\<forall>st k m. refines (mm_storeu_si128 st) m \<longrightarrow>
        refines (mm_storeu_si128 (mm_aesenc_si128 isa st k))
          (\<lambda>r c. fips_MixColumns (fips_SubBytes (fips_ShiftRows m)) r c XOR
                 mm_storeu_si128 k ! (4 * c + r))) \<and>
     (\<forall>st k m. refines (mm_storeu_si128 st) m \<longrightarrow>
        refines (mm_storeu_si128 (mm_aesenclast_si128 isa st k))
          (\<lambda>r c. fips_SubBytes (fips_ShiftRows m) r c XOR mm_storeu_si128 k ! (4 * c + r))) \<and>
     (\<forall>x rc. mm_storeu_si128 (mm_aeskeygenassist_si128 isa x rc) =
        fips_sub_word (lane x 1) @ xor_bytes (rotate1 (fips_sub_word (lane x 1))) [rc, 0, 0, 0] @
        fips_sub_word (lane x 3) @ xor_bytes (rotate1 (fips_sub_word (lane x 3))) [rc, 0, 0, 0]) \<and>
     (\<forall>x imm. mm_storeu_si128 (mm_shuffle_epi32 isa x imm) =
        concat (map (\<lambda>i. lane x (unat (drop_bit (2 * i) imm AND 3))) [0, 1, 2, 3])) \<and>
     (\<forall>x n. n \<le> 15 \<longrightarrow> mm_storeu_si128 (mm_slli_si128 isa x n) =
        replicate n 0 @ take (16 - n) (mm_storeu_si128 x)) \<and>
     (\<forall>x y. mm_xor_si128 isa x y = x XOR y)"

section \<open>The instructions on the bytes in memory\<close>

lemma length_mm_storeu [simp]: "length (mm_storeu_si128 x) = 16"
  by (simp add: mm_storeu_si128_def)

lemma mm_storeu_loadu [simp]: "16 \<le> length p \<Longrightarrow> mm_storeu_si128 (mm_loadu_si128 p) = take 16 p"
  by (simp add: mm_storeu_si128_def mm_loadu_si128_def le_encode_decode)

lemma lane_key_word: "lane x i = key_word (mm_storeu_si128 x) i"
  by (simp add: lane_def key_word_def)

lemma ni_aesenc:
  assumes "ni_documented isa"
  shows "mm_storeu_si128 (mm_aesenc_si128 isa st k) =
    xor_bytes (mix_columns (shift_rows (sub_bytes (mm_storeu_si128 st)))) (mm_storeu_si128 k)"
  using assms refines_self [of "mm_storeu_si128 st"]
  by (intro aes_round_bytes) (auto simp: ni_documented_def)

lemma ni_aesenclast:
  assumes "ni_documented isa"
  shows "mm_storeu_si128 (mm_aesenclast_si128 isa st k) =
    xor_bytes (shift_rows (sub_bytes (mm_storeu_si128 st))) (mm_storeu_si128 k)"
  using assms refines_self [of "mm_storeu_si128 st"]
  by (intro aes_round_bytes) (auto simp: ni_documented_def)

lemma ni_xor:
  "ni_documented isa \<Longrightarrow> mm_storeu_si128 (mm_xor_si128 isa x y) =
     xor_bytes (mm_storeu_si128 x) (mm_storeu_si128 y)"
  by (simp add: ni_documented_def mm_storeu_si128_def le_encode_xor)

lemma ni_slli_4:
  "ni_documented isa \<Longrightarrow> mm_storeu_si128 (mm_slli_si128 isa x 4) =
     replicate 4 0 @ take 12 (mm_storeu_si128 x)"
  by (simp add: ni_documented_def)

lemma ni_shuffle:
  assumes "ni_documented isa"
  shows "mm_storeu_si128 (mm_shuffle_epi32 isa x 0xff) =
      lane x 3 @ lane x 3 @ lane x 3 @ lane x 3"
    and "mm_storeu_si128 (mm_shuffle_epi32 isa x 0xaa) =
      lane x 2 @ lane x 2 @ lane x 2 @ lane x 2"
  using assms by (simp_all add: ni_documented_def)

lemma ni_keygenassist:
  "ni_documented isa \<Longrightarrow> mm_storeu_si128 (mm_aeskeygenassist_si128 isa x rc) =
     fips_sub_word (lane x 1) @ xor_bytes (rotate1 (fips_sub_word (lane x 1))) [rc, 0, 0, 0] @
     fips_sub_word (lane x 3) @ xor_bytes (rotate1 (fips_sub_word (lane x 3))) [rc, 0, 0, 0]"
  by (simp add: ni_documented_def)

lemma ni_engine:
  "ni_documented isa \<Longrightarrow> aes_engine mm_storeu_si128 (mm_xor_si128 isa) (mm_aesenc_si128 isa)
     (mm_aesenclast_si128 isa)"
  by unfold_locales (simp_all add: ni_xor ni_aesenc ni_aesenclast)

section \<open>The key expansion sequences\<close>

lemma xor_shifts_chain:
  assumes "length k = 16" and "length t = 4"
  shows "xor_bytes (xor_bytes (xor_bytes (xor_bytes k (replicate 4 0 @ take 12 k))
      (replicate 4 0 @ replicate 4 0 @ take 8 k))
      (replicate 4 0 @ replicate 4 0 @ replicate 4 0 @ take 4 k)) (t @ t @ t @ t) = chain_words k t"
  using assms
  by (auto simp: chain_words_def key_word_def replicate_eval take_Cons' drop_Cons' Let_def xor_ac
      dest!: list_of_16 list_of_4)

lemma length_lane [simp]: "i < 4 \<Longrightarrow> length (lane x i) = 4"
  by (simp add: lane_def)

lemma ni_step_even:
  "ni_documented isa \<Longrightarrow> mm_storeu_si128 (key_expansion_step_even isa t1 t2) =
     chain_words (mm_storeu_si128 t1) (lane t2 3)"
  by (simp add: key_expansion_step_even_def Let_def ni_xor ni_slli_4 ni_shuffle xor_shifts_chain)

lemma ni_step_odd:
  "ni_documented isa \<Longrightarrow> mm_storeu_si128 (key_expansion_step_odd isa t1 t3) =
     chain_words (mm_storeu_si128 t3) (fips_sub_word (lane t1 3))"
  by (simp add: key_expansion_step_odd_def Let_def ni_xor ni_slli_4 ni_shuffle xor_shifts_chain
      lane_def [of "mm_aeskeygenassist_si128 _ _ _"] ni_keygenassist)

lemma ni_step_128:
  "ni_documented isa \<Longrightarrow> mm_storeu_si128 (key_128_assist isa t1 t2) =
     chain_words (mm_storeu_si128 t1) (lane t2 3)"
  by (simp add: key_128_assist_def Let_def ni_xor ni_slli_4 ni_shuffle xor_shifts_chain)

lemma ni_assist_lane:
  assumes "ni_documented isa" and "[rc, 0, 0, 0] = fips_rcon j"
  shows "key_word (mm_storeu_si128 (mm_aeskeygenassist_si128 isa x rc)) 3 =
    sub_rot_rcon (key_word (mm_storeu_si128 x) 3) j"
proof -
  have "key_word (mm_storeu_si128 (mm_aeskeygenassist_si128 isa x rc)) 3 =
      xor_bytes (rotate1 (fips_sub_word (lane x 3))) (fips_rcon j)"
    using assms by (simp add: key_word_def ni_keygenassist)
  then show ?thesis
    by (simp add: sub_rot_rcon_def fips_sub_word_def rotate1_map lane_key_word)
qed

text \<open>The registers hold the last two round keys and the array all of them so far.\<close>

definition ni_keys :: "nat \<Rightarrow> bytes \<Rightarrow> nat \<Rightarrow> m128i list \<Rightarrow> bool" where
  "ni_keys Nk kb n ks \<longleftrightarrow> (\<forall>i < n. mm_storeu_si128 (ks ! i) = fips_round_key Nk kb i)"

lemma ni_even_odd_keys:
  assumes "ni_documented isa" and "32 \<le> length kb" and "[rc, 0, 0, 0] = fips_rcon (Suc m)"
    and "mm_storeu_si128 t1 = fips_round_key 8 kb (2 * m)"
    and "mm_storeu_si128 t3 = fips_round_key 8 kb (Suc (2 * m))"
    and "ni_keys 8 kb (2 * m + 2) ks" and "2 * m + 3 < length ks"
    and "ni_even_odd isa (rc, 2 * m + 2) (t1, t3, ks) = (t1', t3', ks')"
  shows "mm_storeu_si128 t1' = fips_round_key 8 kb (2 * Suc m) \<and>
    mm_storeu_si128 t3' = fips_round_key 8 kb (Suc (2 * Suc m)) \<and>
    ni_keys 8 kb (2 * Suc m + 2) ks' \<and> length ks' = length ks"
proof -
  have r: "t1' = key_expansion_step_even isa t1 (mm_aeskeygenassist_si128 isa t3 rc)"
    "t3' = key_expansion_step_odd isa t1' t3" "ks' = ks[2 * m + 2 := t1', 2 * m + 3 := t3']"
    using assms(8) by (auto simp: Let_def eval_nat_numeral)
  have a: "mm_storeu_si128 t1' = fips_round_key 8 kb (Suc (Suc (2 * m)))"
    using assms(1-5) unfolding r(1)
    by (simp add: ni_step_even ni_assist_lane lane_key_word fips_round_key_256_step)
  have b: "mm_storeu_si128 t3' = fips_round_key 8 kb (Suc (Suc (Suc (2 * m))))"
    using assms(1,2,5) a unfolding r(2)
    by (simp add: ni_step_odd lane_key_word fips_round_key_256_step [of kb "Suc (2 * m)"])
  have "ni_keys 8 kb (2 * Suc m + 2) ks'"
    using assms(6,7) a b by (auto simp: ni_keys_def r(3) nth_list_update less_Suc_eq eval_nat_numeral)
  with a b show ?thesis by (simp add: r(3))
qed

lemma ni_even_odd_fold:
  assumes "ni_documented isa" and "32 \<le> length kb"
    and "mm_storeu_si128 t1 = fips_round_key 8 kb 0" and "mm_storeu_si128 t3 = fips_round_key 8 kb 1"
    and "ni_keys 8 kb 2 ks" and "length ks = 15" and "m \<le> 6"
  shows "\<exists>t1' t3' ks'. fold (ni_even_odd isa) (map (\<lambda>i. (kScheduleRcon ! Suc i, 2 * i + 2)) [0..<m])
      (t1, t3, ks) = (t1', t3', ks') \<and>
    mm_storeu_si128 t1' = fips_round_key 8 kb (2 * m) \<and>
    mm_storeu_si128 t3' = fips_round_key 8 kb (Suc (2 * m)) \<and>
    ni_keys 8 kb (2 * m + 2) ks' \<and> length ks' = 15"
  using assms(7)
proof (induction m)
  case (Suc m)
  then obtain t1' t3' ks' where IH: "fold (ni_even_odd isa)
      (map (\<lambda>i. (kScheduleRcon ! Suc i, 2 * i + 2)) [0..<m]) (t1, t3, ks) = (t1', t3', ks')"
    "mm_storeu_si128 t1' = fips_round_key 8 kb (2 * m)"
    "mm_storeu_si128 t3' = fips_round_key 8 kb (Suc (2 * m))"
    "ni_keys 8 kb (2 * m + 2) ks'" "length ks' = 15"
    by auto
  have len: "2 * m + 3 < length ks'"
    using Suc.prems IH(5) by simp
  obtain u v z where r: "ni_even_odd isa (kScheduleRcon ! Suc m, 2 * m + 2) (t1', t3', ks') = (u, v, z)"
    by (cases "ni_even_odd isa (kScheduleRcon ! Suc m, 2 * m + 2) (t1', t3', ks')")
  have "[kScheduleRcon ! Suc m, 0, 0, 0] = fips_rcon (Suc m)"
    using Suc.prems by (intro rcon_fips) auto
  from ni_even_odd_keys [OF assms(1,2) this IH(2-4) len r] r IH(1,5) show ?case
    by simp
qed (use assms in \<open>simp add: numeral_2_eq_2\<close>)

lemma expand_key_ni_fips:
  assumes "ni_documented isa" and "length (key_bytes key) = 32" and "r \<le> 14"
  shows "mm_storeu_si128 (expand_key_ni isa key ! r) = fips_round_key 8 (key_bytes key) r"
proof -
  let ?kb = "key_bytes key"
  let ?t1 = "mm_loadu_si128 ?kb" and ?t3 = "mm_loadu_si128 (drop 16 ?kb)"
  let ?ks = "(replicate 15 0)[0 := ?t1, 1 := ?t3]"
  have kb: "32 \<le> length ?kb" using assms(2) by simp
  note start = fips_round_key_start [OF kb]
  have "mm_storeu_si128 ?t1 = take 16 ?kb" "mm_storeu_si128 ?t3 = take 16 (drop 16 ?kb)"
    using assms(2) by (simp_all del: take_all_iff take_all)
  then have "mm_storeu_si128 ?t1 = fips_round_key 8 ?kb 0" "mm_storeu_si128 ?t3 = fips_round_key 8 ?kb 1"
    by (simp_all only: start)
  moreover from this have "ni_keys 8 ?kb 2 ?ks"
    by (auto simp: ni_keys_def less_Suc_eq numeral_2_eq_2)
  ultimately obtain t1 t3 ks where f: "fold (ni_even_odd isa)
      (map (\<lambda>i. (kScheduleRcon ! Suc i, 2 * i + 2)) [0..<6]) (?t1, ?t3, ?ks) = (t1, t3, ks)"
    "mm_storeu_si128 t1 = fips_round_key 8 ?kb 12" "mm_storeu_si128 t3 = fips_round_key 8 ?kb 13"
    "ni_keys 8 ?kb 14 ks" "length ks = 15"
    using ni_even_odd_fold [OF assms(1) kb, of ?t1 ?t3 ?ks 6] by auto
  have l: "[(0x01, 2), (0x02, 4), (0x04, 6), (0x08, 8), (0x10, 10), (0x20, 12)] =
      map (\<lambda>i. (kScheduleRcon ! Suc i, 2 * i + 2)) [0..<6]"
    by (simp add: kScheduleRcon_def upt_rec_numeral upt_eval)
  let ?u = "key_expansion_step_even isa t1 (mm_aeskeygenassist_si128 isa t3 0x40)"
  have e: "expand_key_ni isa key = ks[14 := ?u]"
    unfolding expand_key_ni_def Let_def kNumRoundKeys_def l f(1) by simp
  have "[0x40, 0, 0, 0] = fips_rcon 7"
    using rcon_fips [of 7] by (simp add: kScheduleRcon_def)
  then have "mm_storeu_si128 ?u = fips_round_key 8 ?kb 14"
    using f(2,3) assms(1) fips_round_key_256_step [OF kb, of 12]
    by (simp add: ni_step_even lane_key_word ni_assist_lane)
  then show ?thesis
    using f(4,5) assms(3) unfolding e by (cases "r = 14") (auto simp: ni_keys_def)
qed

lemma ni_key128_fold:
  assumes "ni_documented isa" and "16 \<le> length kb"
    and "mm_storeu_si128 t1 = fips_round_key 4 kb 0" and "ni_keys 4 kb 1 ks" and "length ks = 11"
    and "m \<le> 10"
  shows "\<exists>t1' ks'. fold (ni_key128_step isa) (map (\<lambda>i. (kScheduleRcon ! Suc i, Suc i)) [0..<m]) (t1, ks) =
      (t1', ks') \<and> mm_storeu_si128 t1' = fips_round_key 4 kb m \<and> ni_keys 4 kb (Suc m) ks' \<and>
      length ks' = 11"
  using assms(6)
proof (induction m)
  case (Suc m)
  then obtain t1' ks' where IH: "fold (ni_key128_step isa)
      (map (\<lambda>i. (kScheduleRcon ! Suc i, Suc i)) [0..<m]) (t1, ks) = (t1', ks')"
    "mm_storeu_si128 t1' = fips_round_key 4 kb m" "ni_keys 4 kb (Suc m) ks'" "length ks' = 11"
    by auto
  let ?u = "key_128_assist isa t1' (mm_aeskeygenassist_si128 isa t1' (kScheduleRcon ! Suc m))"
  have "[kScheduleRcon ! Suc m, 0, 0, 0] = fips_rcon (Suc m)"
    using Suc.prems by (intro rcon_fips) auto
  then have "mm_storeu_si128 ?u = fips_round_key 4 kb (Suc m)"
    using assms(1,2) IH(2) by (simp add: ni_step_128 lane_key_word ni_assist_lane fips_round_key_128_step)
  then show ?case
    using IH Suc.prems by (auto simp: Let_def ni_keys_def less_Suc_eq)
qed (use assms in simp)

lemma expand_key128_ni_fips:
  assumes "ni_documented isa" and "length (key_bytes key) = 32" and "r \<le> 10"
  shows "mm_storeu_si128 (expand_key128_ni isa key ! r) = fips_round_key 4 (key_bytes key) r"
proof -
  let ?kb = "key_bytes key"
  let ?t1 = "mm_loadu_si128 ?kb"
  let ?ks = "(replicate 11 0)[0 := ?t1]"
  have kb: "32 \<le> length ?kb" "16 \<le> length ?kb" using assms(2) by simp_all
  have t1: "mm_storeu_si128 ?t1 = fips_round_key 4 ?kb 0"
    using assms(2) fips_round_key_start [OF kb(1)] by simp
  then have "ni_keys 4 ?kb 1 ?ks" by (simp add: ni_keys_def)
  with t1 obtain t1 ks where f: "fold (ni_key128_step isa)
      (map (\<lambda>i. (kScheduleRcon ! Suc i, Suc i)) [0..<10]) (?t1, ?ks) = (t1, ks)"
    "ni_keys 4 ?kb 11 ks"
    using ni_key128_fold [OF assms(1) kb(2), of ?t1 ?ks 10] by auto
  have l: "[(0x01, 1), (0x02, 2), (0x04, 3), (0x08, 4), (0x10, 5), (0x20, 6), (0x40, 7),
      (0x80, 8), (0x1B, 9), (0x36, 10)] = map (\<lambda>i. (kScheduleRcon ! Suc i, Suc i)) [0..<10]"
    by (simp add: kScheduleRcon_def upt_rec_numeral upt_eval)
  have "expand_key128_ni isa key = ks"
    unfolding expand_key128_ni_def Let_def kNumRoundKeys128_def l f(1) by simp
  then show ?thesis
    using f(2) assms(3) by (auto simp: ni_keys_def)
qed

section \<open>Agreement with the software cipher\<close>

lemma ni_encrypt_rounds_run:
  assumes "ni_documented isa"
  shows "ni_encrypt_rounds isa (Suc Nr) ks block =
    aes_engine.run_rounds (mm_xor_si128 isa) (mm_aesenc_si128 isa) (mm_aesenclast_si128 isa) Nr ks
      (mm_loadu_si128 block)"
  by (simp add: aes_engine.run_rounds_def [OF ni_engine [OF assms]] ni_encrypt_rounds_def Let_def)

lemma aes256_ni_eq_soft:
  assumes "ni_documented isa" and "key_wf key" and "length block = 16"
  shows "aes256_encrypt_block_ni isa key block = aes256_encrypt_block_soft key block"
  using assms expand_key_ni_fips [OF assms(1)] ni_encrypt_rounds_run [OF assms(1), of 14]
    aes_engine.mem_run_rounds_soft [OF ni_engine [OF assms(1)], of "mm_loadu_si128 block" 8 14 key
      "expand_key_ni isa key"]
  by (simp add: aes256_encrypt_block_ni_def aes256_encrypt_block_ni_run_def Let_def kNumRoundKeys_def
      aes256_encrypt_block_soft_def key_wf_def key_bytes_def kKeySizeBytes_def)

lemma aes128_ni_eq_soft:
  assumes "ni_documented isa" and "key_wf key" and "length block = 16"
  shows "aes128_encrypt_block_ni isa key block = aes128_encrypt_block_soft key block"
  using assms expand_key128_ni_fips [OF assms(1)] ni_encrypt_rounds_run [OF assms(1), of 10]
    aes_engine.mem_run_rounds_soft [OF ni_engine [OF assms(1)], of "mm_loadu_si128 block" 4 10 key
      "expand_key128_ni isa key"]
  by (simp add: aes128_encrypt_block_ni_def aes128_encrypt_block_ni_run_def Let_def kNumRoundKeys128_def
      aes128_encrypt_block_soft_def key_wf_def key_bytes_def kKeySizeBytes_def)

lemma length_ni_even_odd_fold:
  "length (snd (snd (fold (ni_even_odd isa) xs s))) = length (snd (snd s))"
proof (induction xs arbitrary: s)
  case (Cons x xs)
  have "length (snd (snd (ni_even_odd isa x s))) = length (snd (snd s))"
    by (cases x; cases s) (simp add: Let_def)
  with Cons show ?case by simp
qed simp

lemma length_ni_key128_fold:
  "length (snd (fold (ni_key128_step isa) xs s)) = length (snd s)"
proof (induction xs arbitrary: s)
  case (Cons x xs)
  have "length (snd (ni_key128_step isa x s)) = length (snd s)"
    by (cases x; cases s) (simp add: Let_def)
  with Cons show ?case by simp
qed simp

lemma length_expand_key_ni:
  "length (expand_key_ni isa key) = 15" "length (expand_key128_ni isa key) = 11"
  by (simp_all add: expand_key_ni_def expand_key128_ni_def Let_def case_prod_beta
      length_ni_even_odd_fold length_ni_key128_fold kNumRoundKeys_def kNumRoundKeys128_def
      del: fold_simps)

lemma ni_schedule_wiped:
  "snd (aes256_encrypt_block_ni_run isa key block) = replicate 15 0"
  "snd (aes128_encrypt_block_ni_run isa key block) = replicate 11 0"
  by (simp_all add: aes256_encrypt_block_ni_run_def aes128_encrypt_block_ni_run_def Let_def
      ni_wipe_schedule_def map_replicate_const length_expand_key_ni)

text \<open>A processor that behaves as documented, built from the software transformations.\<close>

definition ni_reference :: ni_isa where
  "ni_reference =
     \<lparr>mm_aesenc_si128 = (\<lambda>st k. mm_loadu_si128 (xor_bytes
        (mix_columns (shift_rows (sub_bytes (mm_storeu_si128 st)))) (mm_storeu_si128 k))),
      mm_aesenclast_si128 = (\<lambda>st k. mm_loadu_si128 (xor_bytes
        (shift_rows (sub_bytes (mm_storeu_si128 st))) (mm_storeu_si128 k))),
      mm_aeskeygenassist_si128 = (\<lambda>x rc. mm_loadu_si128 (
        fips_sub_word (lane x 1) @ xor_bytes (rotate1 (fips_sub_word (lane x 1))) [rc, 0, 0, 0] @
        fips_sub_word (lane x 3) @ xor_bytes (rotate1 (fips_sub_word (lane x 3))) [rc, 0, 0, 0])),
      mm_shuffle_epi32 = (\<lambda>x imm. mm_loadu_si128
        (concat (map (\<lambda>i. lane x (unat (drop_bit (2 * i) imm AND 3))) [0, 1, 2, 3]))),
      mm_slli_si128 = (\<lambda>x n. mm_loadu_si128 (replicate n 0 @ take (16 - n) (mm_storeu_si128 x))),
      mm_xor_si128 = (XOR)\<rparr>"

lemma unat_and_3_less: "unat (x AND 3 :: byte) < 4"
proof -
  have "x AND 3 = take_bit 2 x"
    by (simp add: take_bit_eq_mask mask_eq_exp_minus_1)
  then show ?thesis
    by (simp add: unsigned_take_bit_eq take_bit_nat_less_exp [of 2, simplified])
qed

lemma ni_reference_documented: "ni_documented ni_reference"
proof -
  have "refines (xor_bytes (mix_columns (shift_rows (sub_bytes s))) k)
      (\<lambda>r c. fips_MixColumns (fips_SubBytes (fips_ShiftRows m)) r c XOR k ! (4 * c + r))"
    and "refines (xor_bytes (shift_rows (sub_bytes s)) k)
      (\<lambda>r c. fips_SubBytes (fips_ShiftRows m) r c XOR k ! (4 * c + r))"
    if "refines s m" "length k = 16" for s k m
    unfolding fips_Sub_Shift_commute using that by (auto intro!: refines_xor_key refines_intros)
  moreover have "length (lane x (unat (b AND 3))) = 4" for x and b :: byte
    using unat_and_3_less by simp
  ultimately show ?thesis
    unfolding ni_documented_def ni_reference_def by simp
qed

section \<open>Properties\<close>

text \<open>
  C19. On a processor whose AES-NI instructions behave as documented, the AES-NI backend,
  with its own key expansion by \<^verbatim>\<open>AESKEYGENASSIST\<close>, computes the same block as the
  software backend, for both key sizes, and its register schedule is zero when it goes
  out of scope.
\<close>

theorem aes_ni_agrees_with_soft:
  assumes "ni_documented isa" and "key_wf key" and "length block = 16"
  shows "aes256_encrypt_block_ni_run isa key block =
      (aes256_encrypt_block_soft key block, replicate 15 0) \<and>
    aes128_encrypt_block_ni_run isa key block =
      (aes128_encrypt_block_soft key block, replicate 11 0)"
  using aes256_ni_eq_soft [OF assms] aes128_ni_eq_soft [OF assms]
  by (simp add: aes256_encrypt_block_ni_def aes128_encrypt_block_ni_def prod_eq_iff ni_schedule_wiped)

theorem aes_ni_agrees_with_soft_witness:
  "aes256_encrypt_block_ni_run ni_reference SecretKey (replicate 16 7) =
     (aes256_encrypt_block_soft SecretKey (replicate 16 7), replicate 15 0) \<and>
   aes128_encrypt_block_ni_run ni_reference SecretKey (replicate 16 7) =
     (aes128_encrypt_block_soft SecretKey (replicate 16 7), replicate 11 0)"
  by (rule aes_ni_agrees_with_soft [OF ni_reference_documented]) simp_all

end
