(* ===== verification/Aes_Arm.thy ===== *)
theory Aes_Arm
  imports Aes_Engine
begin

text \<open>
  The ARMv8 Crypto Extensions backend of \<^verbatim>\<open>src/aes_core_arm.cpp\<close>. The NEON intrinsics
  are fields of a parameter record and \<open>arm_documented\<close> states what ARM's manual documents
  of them; the round keys come from the shared portable schedule. A \<^verbatim>\<open>uint8x16_t\<close> is a
  128-bit word whose lane \<open>i\<close> is byte \<open>i\<close> of memory.
\<close>

section \<open>Definitions\<close>

type_synonym uint8x16_t = "128 word"

record arm_isa =
  vaeseq_u8 :: "uint8x16_t \<Rightarrow> uint8x16_t \<Rightarrow> uint8x16_t"
  vaesmcq_u8 :: "uint8x16_t \<Rightarrow> uint8x16_t"
  veorq_u8 :: "uint8x16_t \<Rightarrow> uint8x16_t \<Rightarrow> uint8x16_t"

definition vld1q_u8 :: "bytes \<Rightarrow> uint8x16_t" where
  "vld1q_u8 p = le_decode (take 16 p)"

definition vst1q_u8 :: "uint8x16_t \<Rightarrow> bytes" where
  "vst1q_u8 x = le_encode 16 x"

definition pack_round_keys :: "nat \<Rightarrow> aes_word list \<Rightarrow> uint8x16_t list" where
  "pack_round_keys Nr schedule =
     fold (\<lambda>rnd round_keys.
       let rk_bytes = fold (\<lambda>w rk.
             let wrd = schedule ! (rnd * kScheduleNb + w)
             in fold (\<lambda>b rk. rk[w * 4 + b := wrd ! b]) [0..<4] rk)
             [0..<kScheduleNb] (replicate 16 0)
       in round_keys[rnd := vld1q_u8 rk_bytes])
     [0..<Suc Nr] (replicate (Nr + 1) 0)"

definition wipe_round_keys :: "uint8x16_t list \<Rightarrow> uint8x16_t list" where
  "wipe_round_keys round_keys = map (\<lambda>_. 0) round_keys"

text \<open>
  \<^verbatim>\<open>aes_encrypt_block_arm<Nk, Nr>\<close>: the output block, and the two secret locals (the word
  schedule and the packed round keys) as they go out of scope.
\<close>

definition aes_encrypt_block_arm_run ::
  "arm_isa \<Rightarrow> nat \<Rightarrow> nat \<Rightarrow> secret_key \<Rightarrow> bytes \<Rightarrow> bytes \<times> aes_word list \<times> uint8x16_t list" where
  "aes_encrypt_block_arm_run isa Nk Nr key block =
     (let schedule = expand_key Nk Nr key;
          round_keys = pack_round_keys Nr schedule;
          schedule = wipe_schedule schedule;
          state = vld1q_u8 block;
          state = fold (\<lambda>rnd st. vaesmcq_u8 isa (vaeseq_u8 isa st (round_keys ! rnd)))
                    [0..<Nr - 1] state;
          state = vaeseq_u8 isa state (round_keys ! (Nr - 1));
          state = veorq_u8 isa state (round_keys ! Nr);
          round_keys = wipe_round_keys round_keys
      in (vst1q_u8 state, schedule, round_keys))"

definition aes_encrypt_block_arm :: "arm_isa \<Rightarrow> nat \<Rightarrow> nat \<Rightarrow> secret_key \<Rightarrow> bytes \<Rightarrow> bytes" where
  "aes_encrypt_block_arm isa Nk Nr key block = fst (aes_encrypt_block_arm_run isa Nk Nr key block)"

definition aes256_encrypt_block_arm :: "arm_isa \<Rightarrow> secret_key \<Rightarrow> bytes \<Rightarrow> bytes" where
  "aes256_encrypt_block_arm isa key block = aes_encrypt_block_arm isa 8 14 key block"

definition aes128_encrypt_block_arm :: "arm_isa \<Rightarrow> secret_key \<Rightarrow> bytes \<Rightarrow> bytes" where
  "aes128_encrypt_block_arm isa key block = aes_encrypt_block_arm isa 4 10 key block"

section \<open>What the instructions document\<close>

text \<open>
  \<^verbatim>\<open>AESE\<close> adds the round key first, then applies \<open>ShiftRows\<close> and \<open>SubBytes\<close>; \<^verbatim>\<open>AESMC\<close> is
  \<open>MixColumns\<close>.
\<close>

definition arm_documented :: "arm_isa \<Rightarrow> bool" where
  "arm_documented isa \<longleftrightarrow>
     (\<forall>st k m. refines (vst1q_u8 (st XOR k)) m \<longrightarrow>
        refines (vst1q_u8 (vaeseq_u8 isa st k)) (fips_SubBytes (fips_ShiftRows m))) \<and>
     (\<forall>st m. refines (vst1q_u8 st) m \<longrightarrow>
        refines (vst1q_u8 (vaesmcq_u8 isa st)) (fips_MixColumns m)) \<and>
     (\<forall>x y. veorq_u8 isa x y = x XOR y)"

section \<open>The instructions on the bytes in memory\<close>

lemma length_vst1q [simp]: "length (vst1q_u8 x) = 16"
  by (simp add: vst1q_u8_def)

lemma vst1q_vld1q [simp]: "16 \<le> length p \<Longrightarrow> vst1q_u8 (vld1q_u8 p) = take 16 p"
  by (simp add: vst1q_u8_def vld1q_u8_def le_encode_decode)

lemma vst1q_xor: "vst1q_u8 (x XOR y) = xor_bytes (vst1q_u8 x) (vst1q_u8 y)"
  by (simp add: vst1q_u8_def le_encode_xor)

lemma arm_aese:
  assumes "arm_documented isa"
  shows "vst1q_u8 (vaeseq_u8 isa st k) = shift_rows (sub_bytes (xor_bytes (vst1q_u8 st) (vst1q_u8 k)))"
proof (rule refines_unique)
  let ?m = "\<lambda>r c. xor_bytes (vst1q_u8 st) (vst1q_u8 k) ! (4 * c + r)"
  have r: "refines (vst1q_u8 (st XOR k)) ?m"
    by (simp add: vst1q_xor refines_def)
  with assms show "refines (vst1q_u8 (vaeseq_u8 isa st k)) (fips_SubBytes (fips_ShiftRows ?m))"
    unfolding arm_documented_def by blast
  from r show "refines (shift_rows (sub_bytes (xor_bytes (vst1q_u8 st) (vst1q_u8 k))))
      (fips_SubBytes (fips_ShiftRows ?m))"
    unfolding fips_Sub_Shift_commute vst1q_xor by (intro refines_intros)
qed

lemma arm_aesmc:
  assumes "arm_documented isa"
  shows "vst1q_u8 (vaesmcq_u8 isa st) = mix_columns (vst1q_u8 st)"
  using assms refines_self [of "vst1q_u8 st"] unfolding arm_documented_def
  by (intro refines_unique [of _ "fips_MixColumns (\<lambda>r c. vst1q_u8 st ! (4 * c + r))"])
    (auto intro: refines_MixColumns)

lemma arm_eor:
  "arm_documented isa \<Longrightarrow> vst1q_u8 (veorq_u8 isa x y) = xor_bytes (vst1q_u8 x) (vst1q_u8 y)"
  by (simp add: arm_documented_def vst1q_xor)

section \<open>The packed round keys\<close>

lemma pack_round_key:
  assumes "words_wf s" and "4 * rnd + 3 < length s"
  shows "fold (\<lambda>w rk. let wrd = s ! (rnd * kScheduleNb + w)
           in fold (\<lambda>b rk. rk[w * 4 + b := wrd ! b]) [0..<4] rk)
         [0..<kScheduleNb] (replicate 16 0) = round_key s rnd"
proof -
  have "\<exists>a b c d. s ! (4 * rnd + i) = [a, b, c, d]" if "i \<le> 3" for i
    using words_wf_nth [OF assms(1), of "4 * rnd + i"] assms(2) that by (intro list_of_4) simp
  from this [of 0] this [of 1] this [of 2] this [of 3]
  show ?thesis
    by (auto simp: round_key_def kScheduleNb_def upt_eval upt_rec_numeral mult.commute
        replicate_eval list_update_numeral)
qed

lemma fold_store_each:
  assumes "n \<le> length xs"
  shows "fold (\<lambda>i xs. xs[i := f i]) [0..<n] xs = map f [0..<n] @ drop n xs"
  using assms
  by (induction n) (auto simp: list_update_append Cons_nth_drop_Suc [symmetric])

lemma pack_round_keys_nth:
  assumes "words_wf s" and "length s = 4 * (Nr + 1)" and "r \<le> Nr"
  shows "pack_round_keys Nr s ! r = vld1q_u8 (round_key s r)"
proof -
  have "pack_round_keys Nr s = fold (\<lambda>i ks. ks[i := vld1q_u8 (round_key s i)]) [0..<Suc Nr]
      (replicate (Nr + 1) 0)"
    unfolding pack_round_keys_def
    by (rule fold_cong) (use assms(2) pack_round_key [OF assms(1)] in \<open>auto simp: Let_def\<close>)
  also have "\<dots> = map (\<lambda>i. vld1q_u8 (round_key s i)) [0..<Suc Nr]"
    by (subst fold_store_each) simp_all
  finally show ?thesis
    using assms(3) by (simp add: nth_append del: upt_Suc)
qed

lemma length_pack_round_keys: "length (pack_round_keys Nr s) = Nr + 1"
  unfolding pack_round_keys_def Let_def by (simp add: fold_length del: upt_Suc)

section \<open>Agreement with the software cipher\<close>

text \<open>
  \<^verbatim>\<open>AESE\<close> fuses the key addition of a round with the substitution of the next, so the
  register before round key \<open>k\<close> is added differs from the textbook state by that key.
\<close>

lemma arm_rounds:
  assumes "arm_documented isa" and "words_wf s" and "length s = 4 * (Nr + 1)"
    and "\<And>r. r \<le> Nr \<Longrightarrow> vst1q_u8 (ks ! r) = round_key s r" and "k < Nr"
  shows "xor_bytes (vst1q_u8 (fold (\<lambda>rnd st. vaesmcq_u8 isa (vaeseq_u8 isa st (ks ! rnd))) [0..<k] st))
      (round_key s k) = fold (middle_round s) [1..<Suc k] (xor_bytes (vst1q_u8 st) (round_key s 0))"
  using assms(5)
proof (induction k)
  case (Suc k)
  then show ?case
    using assms(1,4) by (simp add: arm_aesmc arm_aese middle_round_def)
qed simp

lemma aes_arm_cipher_rounds:
  assumes "arm_documented isa" and "length block = 16" and "0 < Nr"
  shows "aes_encrypt_block_arm isa Nk Nr key block = cipher_rounds (expand_key Nk Nr key) Nr block"
proof -
  let ?s = "expand_key Nk Nr key"
  have s: "words_wf ?s" "length ?s = 4 * (Nr + 1)"
    by (rule words_wf_expand_key length_expand_key)+
  have ks: "vst1q_u8 (pack_round_keys Nr ?s ! r) = round_key ?s r" if "r \<le> Nr" for r
    using that s by (simp add: pack_round_keys_nth length_round_key)
  note r = arm_rounds [OF assms(1) s ks, of "Nr - 1" "vld1q_u8 block"]
  show ?thesis
    using assms r
    by (simp add: aes_encrypt_block_arm_def aes_encrypt_block_arm_run_def Let_def arm_eor arm_aese
        ks cipher_rounds_def)
qed

lemma arm_schedules_wiped:
  "snd (aes_encrypt_block_arm_run isa Nk Nr key block) =
     (replicate (4 * (Nr + 1)) [0, 0, 0, 0], replicate (Nr + 1) 0)"
  using wipe_schedule_zero [OF words_wf_expand_key [of Nk Nr key]]
  by (simp add: aes_encrypt_block_arm_run_def Let_def wipe_round_keys_def map_replicate_const
      length_pack_round_keys length_expand_key)

lemma aes_arm_eq_soft:
  assumes "arm_documented isa" and "length block = 16"
  shows "aes256_encrypt_block_arm isa key block = aes256_encrypt_block_soft key block"
    and "aes128_encrypt_block_arm isa key block = aes128_encrypt_block_soft key block"
  using assms
  by (simp_all add: aes256_encrypt_block_arm_def aes128_encrypt_block_arm_def aes_arm_cipher_rounds
      aes256_encrypt_block_soft_def aes128_encrypt_block_soft_def aes_soft_cipher_rounds)

text \<open>A processor that behaves as documented, built from the software transformations.\<close>

definition arm_reference :: arm_isa where
  "arm_reference =
     \<lparr>vaeseq_u8 = (\<lambda>st k. vld1q_u8 (shift_rows (sub_bytes (vst1q_u8 (st XOR k))))),
      vaesmcq_u8 = (\<lambda>st. vld1q_u8 (mix_columns (vst1q_u8 st))),
      veorq_u8 = (XOR)\<rparr>"

lemma arm_reference_documented: "arm_documented arm_reference"
  unfolding arm_documented_def arm_reference_def fips_Sub_Shift_commute
  by (auto intro: refines_intros)

section \<open>Properties\<close>

text \<open>
  C20. On a processor whose \<^verbatim>\<open>AESE\<close> and \<^verbatim>\<open>AESMC\<close> behave as documented, the ARM backend, which
  fuses each key addition with the substitution of the next round, computes the same block
  as the software backend for both key sizes; the word schedule and the packed round keys
  are zero when they go out of scope.
\<close>

theorem aes_arm_agrees_with_soft:
  assumes "arm_documented isa" and "length block = 16"
  shows "aes_encrypt_block_arm_run isa 8 14 key block =
      (aes256_encrypt_block_soft key block, replicate 60 [0, 0, 0, 0], replicate 15 0) \<and>
    aes_encrypt_block_arm_run isa 4 10 key block =
      (aes128_encrypt_block_soft key block, replicate 44 [0, 0, 0, 0], replicate 11 0)"
  using aes_arm_eq_soft [OF assms, of key] arm_schedules_wiped [of isa 8 14 key block]
    arm_schedules_wiped [of isa 4 10 key block]
  by (simp add: aes256_encrypt_block_arm_def aes128_encrypt_block_arm_def aes_encrypt_block_arm_def
      prod_eq_iff)

theorem aes_arm_agrees_with_soft_witness:
  "aes_encrypt_block_arm_run arm_reference 8 14 SecretKey (replicate 16 7) =
     (aes256_encrypt_block_soft SecretKey (replicate 16 7), replicate 60 [0, 0, 0, 0], replicate 15 0) \<and>
   aes_encrypt_block_arm_run arm_reference 4 10 SecretKey (replicate 16 7) =
     (aes128_encrypt_block_soft SecretKey (replicate 16 7), replicate 44 [0, 0, 0, 0], replicate 11 0)"
  by (rule aes_arm_agrees_with_soft [OF arm_reference_documented]) simp

end
