(* ===== verification/Aes_Riscv.thy ===== *)
theory Aes_Riscv
  imports Aes_Engine
begin

text \<open>
  The RV64 Zkne backend of \<^verbatim>\<open>src/aes_core_riscv.cpp\<close>. The four scalar instructions are
  fields of a parameter record; \<open>riscv_documented\<close> states what the RISC-V scalar
  cryptography specification documents of them. The AES state is a pair of 64-bit
  registers, bytes 0 to 7 and 8 to 15 of the block in little-endian order.
\<close>

section \<open>Definitions\<close>

record riscv_isa =
  riscv_aes64esm :: "u64 \<Rightarrow> u64 \<Rightarrow> u64"
  riscv_aes64es :: "u64 \<Rightarrow> u64 \<Rightarrow> u64"
  riscv_aes64ks2 :: "u64 \<Rightarrow> u64 \<Rightarrow> u64"
  riscv_aes64ks1i :: "u64 \<Rightarrow> nat \<Rightarrow> u64"

record rv_state =
  rv_lo :: u64
  rv_hi :: u64

definition load_state :: "bytes \<Rightarrow> rv_state" where
  "load_state block = \<lparr>rv_lo = le_decode (take 8 block), rv_hi = le_decode (take 8 (drop 8 block))\<rparr>"

definition store_state :: "rv_state \<Rightarrow> bytes" where
  "store_state s = le_encode 8 (rv_lo s) @ le_encode 8 (rv_hi s)"

definition xor_state :: "rv_state \<Rightarrow> rv_state \<Rightarrow> rv_state" where
  "xor_state a b = \<lparr>rv_lo = rv_lo a XOR rv_lo b, rv_hi = rv_hi a XOR rv_hi b\<rparr>"

definition round_middle :: "riscv_isa \<Rightarrow> rv_state \<Rightarrow> rv_state" where
  "round_middle isa s =
     \<lparr>rv_lo = riscv_aes64esm isa (rv_lo s) (rv_hi s), rv_hi = riscv_aes64esm isa (rv_hi s) (rv_lo s)\<rparr>"

definition round_final :: "riscv_isa \<Rightarrow> rv_state \<Rightarrow> rv_state" where
  "round_final isa s =
     \<lparr>rv_lo = riscv_aes64es isa (rv_lo s) (rv_hi s), rv_hi = riscv_aes64es isa (rv_hi s) (rv_lo s)\<rparr>"

definition wipe_schedule_riscv :: "rv_state list \<Rightarrow> rv_state list" where
  "wipe_schedule_riscv schedule = map (\<lambda>_. \<lparr>rv_lo = 0, rv_hi = 0\<rparr>) schedule"

text \<open>\<^verbatim>\<open>AESLIB_KS256_STEP(rnum, idx)\<close> over the registers \<open>t0\<close> to \<open>t3\<close> and the array.\<close>

fun ks256_step ::
  "riscv_isa \<Rightarrow> nat \<times> nat \<Rightarrow> u64 \<times> u64 \<times> u64 \<times> u64 \<times> rv_state list \<Rightarrow>
   u64 \<times> u64 \<times> u64 \<times> u64 \<times> rv_state list" where
  "ks256_step isa (rnum, idx) (t0, t1, t2, t3, rk) =
     (let t4 = riscv_aes64ks1i isa t3 rnum;
          t0 = riscv_aes64ks2 isa t4 t0;
          t1 = riscv_aes64ks2 isa t0 t1;
          rk = rk[idx := \<lparr>rv_lo = t0, rv_hi = t1\<rparr>]
      in if rnum \<noteq> 6 then
           let t4 = riscv_aes64ks1i isa t1 0xA;
               t2 = riscv_aes64ks2 isa t4 t2;
               t3 = riscv_aes64ks2 isa t2 t3
           in (t0, t1, t2, t3, rk[idx + 1 := \<lparr>rv_lo = t2, rv_hi = t3\<rparr>])
         else (t0, t1, t2, t3, rk))"

definition expand_key256_riscv :: "riscv_isa \<Rightarrow> secret_key \<Rightarrow> rv_state list" where
  "expand_key256_riscv isa key =
     (let kb = key_bytes key;
          t0 = le_decode (take 8 kb);
          t1 = le_decode (take 8 (drop 8 kb));
          t2 = le_decode (take 8 (drop 16 kb));
          t3 = le_decode (take 8 (drop 24 kb));
          rk = replicate 15 \<lparr>rv_lo = 0, rv_hi = 0\<rparr>;
          rk = rk[0 := \<lparr>rv_lo = t0, rv_hi = t1\<rparr>, 1 := \<lparr>rv_lo = t2, rv_hi = t3\<rparr>]
      in snd (snd (snd (snd (fold (ks256_step isa)
           [(0, 2), (1, 4), (2, 6), (3, 8), (4, 10), (5, 12), (6, 14)] (t0, t1, t2, t3, rk))))))"

text \<open>\<^verbatim>\<open>AESLIB_KS128_STEP(rnum, idx)\<close>\<close>

fun ks128_step ::
  "riscv_isa \<Rightarrow> nat \<times> nat \<Rightarrow> u64 \<times> u64 \<times> rv_state list \<Rightarrow> u64 \<times> u64 \<times> rv_state list" where
  "ks128_step isa (rnum, idx) (t0, t1, rk) =
     (let t2 = riscv_aes64ks1i isa t1 rnum;
          t0 = riscv_aes64ks2 isa t2 t0;
          t1 = riscv_aes64ks2 isa t0 t1
      in (t0, t1, rk[idx := \<lparr>rv_lo = t0, rv_hi = t1\<rparr>]))"

definition expand_key128_riscv :: "riscv_isa \<Rightarrow> secret_key \<Rightarrow> rv_state list" where
  "expand_key128_riscv isa key =
     (let kb = key_bytes key;
          t0 = le_decode (take 8 kb);
          t1 = le_decode (take 8 (drop 8 kb));
          rk = replicate 11 \<lparr>rv_lo = 0, rv_hi = 0\<rparr>;
          rk = rk[0 := \<lparr>rv_lo = t0, rv_hi = t1\<rparr>]
      in snd (snd (fold (ks128_step isa)
           [(0, 1), (1, 2), (2, 3), (3, 4), (4, 5), (5, 6), (6, 7), (7, 8), (8, 9), (9, 10)]
           (t0, t1, rk))))"

text \<open>\<^verbatim>\<open>encrypt_with_schedule\<close>: the output block and the schedule after it is wiped.\<close>

definition encrypt_with_schedule :: "riscv_isa \<Rightarrow> rv_state list \<Rightarrow> bytes \<Rightarrow> bytes \<times> rv_state list" where
  "encrypt_with_schedule isa rk block =
     (let kNr = length rk - 1;
          state = xor_state (load_state block) (rk ! 0);
          state = fold (\<lambda>rnd st. xor_state (round_middle isa st) (rk ! rnd)) [1..<kNr] state;
          state = xor_state (round_final isa state) (rk ! kNr);
          rk = wipe_schedule_riscv rk
      in (store_state state, rk))"

definition aes256_encrypt_block_riscv :: "riscv_isa \<Rightarrow> secret_key \<Rightarrow> bytes \<Rightarrow> bytes" where
  "aes256_encrypt_block_riscv isa key block =
     fst (encrypt_with_schedule isa (expand_key256_riscv isa key) block)"

definition aes128_encrypt_block_riscv :: "riscv_isa \<Rightarrow> secret_key \<Rightarrow> bytes \<Rightarrow> bytes" where
  "aes128_encrypt_block_riscv isa key block =
     fst (encrypt_with_schedule isa (expand_key128_riscv isa key) block)"

section \<open>What the instructions document\<close>

definition rv_mem :: "u64 \<Rightarrow> bytes" where
  "rv_mem x = le_encode 8 x"

text \<open>
  The forward \<open>ShiftRows\<close> of the columns held in \<open>rs1\<close>, the other two columns being in
  \<open>rs2\<close>: the eight bytes of columns 0 and 1.
\<close>

definition rv_shift_rows :: "u64 \<Rightarrow> u64 \<Rightarrow> bytes" where
  "rv_shift_rows rs1 rs2 =
     [rv_mem rs1 ! 0, rv_mem rs1 ! 5, rv_mem rs2 ! 2, rv_mem rs2 ! 7,
      rv_mem rs1 ! 4, rv_mem rs2 ! 1, rv_mem rs2 ! 6, rv_mem rs1 ! 3]"

definition rv_sub :: "bytes \<Rightarrow> bytes" where
  "rv_sub bs = map (\<lambda>b. fips_sbox ! unat b) bs"

text \<open>\<open>MixColumns\<close> on one column, as the matrix product of the standard.\<close>

definition rv_mix_column :: "bytes \<Rightarrow> bytes" where
  "rv_mix_column col = map (\<lambda>r. fips_MixColumns (\<lambda>r c. col ! r) r 0) [0, 1, 2, 3]"

definition riscv_documented :: "riscv_isa \<Rightarrow> bool" where
  "riscv_documented isa \<longleftrightarrow>
     (\<forall>rs1 rs2. rv_mem (riscv_aes64es isa rs1 rs2) = rv_sub (rv_shift_rows rs1 rs2)) \<and>
     (\<forall>rs1 rs2. rv_mem (riscv_aes64esm isa rs1 rs2) =
        rv_mix_column (take 4 (rv_sub (rv_shift_rows rs1 rs2))) @
        rv_mix_column (drop 4 (rv_sub (rv_shift_rows rs1 rs2)))) \<and>
     (\<forall>rs1 rnum. rnum < 10 \<longrightarrow> rv_mem (riscv_aes64ks1i isa rs1 rnum) =
        (let w = xor_bytes (rotate1 (fips_sub_word (drop 4 (rv_mem rs1)))) (fips_rcon (Suc rnum))
         in w @ w)) \<and>
     (\<forall>rs1. rv_mem (riscv_aes64ks1i isa rs1 0xA) =
        fips_sub_word (drop 4 (rv_mem rs1)) @ fips_sub_word (drop 4 (rv_mem rs1))) \<and>
     (\<forall>rs1 rs2. rv_mem (riscv_aes64ks2 isa rs1 rs2) =
        (let w0 = xor_bytes (drop 4 (rv_mem rs1)) (take 4 (rv_mem rs2));
             w1 = xor_bytes w0 (drop 4 (rv_mem rs2))
         in w0 @ w1))"

section \<open>The instructions on the bytes in memory\<close>

lemma length_rv_mem [simp]: "length (rv_mem x) = 8"
  by (simp add: rv_mem_def)

lemma store_state_mem: "store_state s = rv_mem (rv_lo s) @ rv_mem (rv_hi s)"
  by (simp add: store_state_def rv_mem_def)

lemma length_store_state [simp]: "length (store_state s) = 16"
  by (simp add: store_state_mem)

lemma rv_mem_decode: "length bs = 8 \<Longrightarrow> rv_mem (le_decode bs) = bs"
  by (simp add: rv_mem_def le_encode_decode)

lemma store_load_state: "length block = 16 \<Longrightarrow> store_state (load_state block) = block"
  by (simp add: store_state_mem load_state_def rv_mem_decode)

lemma store_xor_state: "store_state (xor_state a b) = xor_bytes (store_state a) (store_state b)"
  by (simp add: store_state_def xor_state_def le_encode_xor xor_bytes_append)

lemma list_of_8:
  "length xs = 8 \<Longrightarrow> \<exists>a b c d e f g h. xs = [a, b, c, d, e, f, g, h]"
  by (auto simp: numeral_eq_Suc length_Suc_conv)

lemma rv_mix_column_mix4: "rv_mix_column [a, b, c, d] = mix4 a b c d"
  by (simp add: rv_mix_column_def fips_MixColumns_def mix4_def gf256.mult_commute [of 2]
      gf256.mult_commute [of 3] xor_ac numeral_2_eq_2 [symmetric])

lemma store_round_final:
  assumes "riscv_documented isa"
  shows "store_state (round_final isa s) = shift_rows (sub_bytes (store_state s))"
proof -
  obtain a b c d e f g h where lo: "rv_mem (rv_lo s) = [a, b, c, d, e, f, g, h]"
    using list_of_8 [of "rv_mem (rv_lo s)"] by auto
  obtain i j k l m n p q where hi: "rv_mem (rv_hi s) = [i, j, k, l, m, n, p, q]"
    using list_of_8 [of "rv_mem (rv_hi s)"] by auto
  from assms show ?thesis
    by (simp add: riscv_documented_def round_final_def store_state_mem rv_shift_rows_def lo hi
        sub_bytes_def shift_rows_16 rv_sub_def ct_sbox_table)
qed

lemma store_round_middle:
  assumes "riscv_documented isa"
  shows "store_state (round_middle isa s) = mix_columns (shift_rows (sub_bytes (store_state s)))"
proof -
  obtain a b c d e f g h where lo: "rv_mem (rv_lo s) = [a, b, c, d, e, f, g, h]"
    using list_of_8 [of "rv_mem (rv_lo s)"] by auto
  obtain i j k l m n p q where hi: "rv_mem (rv_hi s) = [i, j, k, l, m, n, p, q]"
    using list_of_8 [of "rv_mem (rv_hi s)"] by auto
  from assms show ?thesis
    by (simp add: riscv_documented_def round_middle_def store_state_mem rv_shift_rows_def lo hi
        sub_bytes_def shift_rows_16 mix_columns_16 rv_mix_column_mix4 rv_sub_def ct_sbox_table)
qed

lemma riscv_engine:
  "riscv_documented isa \<Longrightarrow> aes_engine store_state xor_state
     (\<lambda>st k. xor_state (round_middle isa st) k) (\<lambda>st k. xor_state (round_final isa st) k)"
  by unfold_locales (simp_all add: store_xor_state store_round_middle store_round_final)

section \<open>The key expansion sequences\<close>

text \<open>
  One assist word and two \<^verbatim>\<open>aes64ks2\<close> produce the next round key from an earlier one.
\<close>

lemma rv_ks2_chain:
  assumes "riscv_documented isa" and "drop 4 (rv_mem t4) = t" and "length t = 4"
  shows "rv_mem (riscv_aes64ks2 isa t4 t0) @
      rv_mem (riscv_aes64ks2 isa (riscv_aes64ks2 isa t4 t0) t1) =
    chain_words (rv_mem t0 @ rv_mem t1) t"
proof -
  obtain a b c d e f g h where lo: "rv_mem t0 = [a, b, c, d, e, f, g, h]"
    using list_of_8 [of "rv_mem t0"] by auto
  obtain i j k l m n p q where hi: "rv_mem t1 = [i, j, k, l, m, n, p, q]"
    using list_of_8 [of "rv_mem t1"] by auto
  from list_of_4 [OF assms(3)] assms(1,2) show ?thesis
    by (auto simp: riscv_documented_def chain_words_def key_word_def lo hi Let_def xor_ac)
qed

lemma rv_ks1i_round:
  assumes "riscv_documented isa" and "rnum < 10"
  shows "drop 4 (rv_mem (riscv_aes64ks1i isa t rnum)) = sub_rot_rcon (drop 4 (rv_mem t)) (Suc rnum)"
  using assms
  by (simp add: riscv_documented_def Let_def sub_rot_rcon_def fips_sub_word_def rotate1_map)

lemma rv_ks1i_sub:
  "riscv_documented isa \<Longrightarrow> drop 4 (rv_mem (riscv_aes64ks1i isa t 10)) = fips_sub_word (drop 4 (rv_mem t))"
  by (simp add: riscv_documented_def)

lemma key_word_3_append: "length b = 8 \<Longrightarrow> length a = 8 \<Longrightarrow> key_word (a @ b) 3 = drop 4 b"
  by (simp add: key_word_def)

definition rv_keys :: "nat \<Rightarrow> bytes \<Rightarrow> nat \<Rightarrow> rv_state list \<Rightarrow> bool" where
  "rv_keys Nk kb n ks \<longleftrightarrow> (\<forall>i < n. store_state (ks ! i) = fips_round_key Nk kb i)"

lemma rv_keys_extend:
  "rv_keys Nk kb n ks \<Longrightarrow> n < length ks \<Longrightarrow> rv_mem lo @ rv_mem hi = fips_round_key Nk kb n \<Longrightarrow>
   rv_keys Nk kb (Suc n) (ks[n := \<lparr>rv_lo = lo, rv_hi = hi\<rparr>])"
  by (auto simp: rv_keys_def less_Suc_eq store_state_mem)

lemma rv_ks256_step_keys:
  assumes "riscv_documented isa" and "32 \<le> length kb" and "m \<le> 6"
    and "rv_mem t0 @ rv_mem t1 = fips_round_key 8 kb (2 * m)"
    and "rv_mem t2 @ rv_mem t3 = fips_round_key 8 kb (Suc (2 * m))"
    and "rv_keys 8 kb (2 * m + 2) ks" and "length ks = 15"
    and "ks256_step isa (m, 2 * m + 2) (t0, t1, t2, t3, ks) = (t0', t1', t2', t3', ks')"
  shows "rv_mem t0' @ rv_mem t1' = fips_round_key 8 kb (2 * Suc m) \<and>
    (m < 6 \<longrightarrow> rv_mem t2' @ rv_mem t3' = fips_round_key 8 kb (Suc (2 * Suc m))) \<and>
    rv_keys 8 kb (if m < 6 then 2 * Suc m + 2 else 15) ks' \<and> length ks' = 15"
proof -
  let ?t4 = "riscv_aes64ks1i isa t3 m"
  have kw: "key_word (fips_round_key 8 kb (Suc (2 * m))) 3 = drop 4 (rv_mem t3)"
    unfolding assms(5) [symmetric] by (simp add: key_word_3_append)
  have t0: "t0' = riscv_aes64ks2 isa ?t4 t0" "t1' = riscv_aes64ks2 isa t0' t1"
    using assms(8) by (auto simp: Let_def split: if_splits)
  have a: "rv_mem t0' @ rv_mem t1' = fips_round_key 8 kb (Suc (Suc (2 * m)))"
    unfolding t0 fips_round_key_256_step [OF assms(2)]
    using assms(1,3) rv_ks2_chain [OF assms(1) rv_ks1i_round [OF assms(1), of m]]
    by (simp add: assms(4) [symmetric] kw sub_rot_rcon_def)
  show ?thesis
  proof (cases "m < 6")
    case True
    have t2: "t2' = riscv_aes64ks2 isa (riscv_aes64ks1i isa t1' 10) t2" "t3' = riscv_aes64ks2 isa t2' t3"
      "ks' = ks[2 * m + 2 := \<lparr>rv_lo = t0', rv_hi = t1'\<rparr>, Suc (2 * m + 2) := \<lparr>rv_lo = t2', rv_hi = t3'\<rparr>]"
      using assms(8) True by (auto simp: Let_def split: if_splits)
    have "key_word (fips_round_key 8 kb (Suc (Suc (2 * m)))) 3 = drop 4 (rv_mem t1')"
      unfolding a [symmetric] by (simp add: key_word_3_append)
    then have b: "rv_mem t2' @ rv_mem t3' = fips_round_key 8 kb (Suc (Suc (Suc (2 * m))))"
      unfolding t2(1,2) fips_round_key_256_step [OF assms(2), of "Suc (2 * m)"]
      using rv_ks2_chain [OF assms(1) rv_ks1i_sub [OF assms(1)]]
      by (simp add: assms(5) [symmetric])
    have "rv_keys 8 kb (Suc (Suc (2 * m + 2))) ks'"
      unfolding t2(3) using assms(6,7) a b True by (intro rv_keys_extend) simp_all
    then have "rv_keys 8 kb (2 * Suc m + 2) ks'" by simp
    with a b True assms(7) show ?thesis by (simp add: t2(3))
  next
    case False
    then have m: "m = 6" using assms(3) by simp
    then have "ks' = ks[14 := \<lparr>rv_lo = t0', rv_hi = t1'\<rparr>]"
      using assms(8) by (auto simp: Let_def)
    with m a assms(6,7) have "rv_keys 8 kb 15 ks'"
      using rv_keys_extend [of 8 kb 14 ks t0' t1'] by simp
    with m a assms(7) \<open>ks' = _\<close> show ?thesis by simp
  qed
qed

lemma rv_ks256_fold:
  assumes "riscv_documented isa" and "32 \<le> length kb"
    and "rv_mem t0 @ rv_mem t1 = fips_round_key 8 kb 0" and "rv_mem t2 @ rv_mem t3 = fips_round_key 8 kb 1"
    and "rv_keys 8 kb 2 ks" and "length ks = 15" and "m \<le> 6"
  shows "\<exists>t0' t1' t2' t3' ks'. fold (ks256_step isa) (map (\<lambda>i. (i, 2 * i + 2)) [0..<m])
      (t0, t1, t2, t3, ks) = (t0', t1', t2', t3', ks') \<and>
    rv_mem t0' @ rv_mem t1' = fips_round_key 8 kb (2 * m) \<and>
    rv_mem t2' @ rv_mem t3' = fips_round_key 8 kb (Suc (2 * m)) \<and>
    rv_keys 8 kb (2 * m + 2) ks' \<and> length ks' = 15"
  using assms(7)
proof (induction m)
  case (Suc m)
  then obtain u0 u1 u2 u3 us where IH: "fold (ks256_step isa) (map (\<lambda>i. (i, 2 * i + 2)) [0..<m])
      (t0, t1, t2, t3, ks) = (u0, u1, u2, u3, us)"
    "rv_mem u0 @ rv_mem u1 = fips_round_key 8 kb (2 * m)"
    "rv_mem u2 @ rv_mem u3 = fips_round_key 8 kb (Suc (2 * m))"
    "rv_keys 8 kb (2 * m + 2) us" "length us = 15"
    by auto
  obtain v0 v1 v2 v3 vs where r: "ks256_step isa (m, 2 * m + 2) (u0, u1, u2, u3, us) = (v0, v1, v2, v3, vs)"
    by (cases "ks256_step isa (m, 2 * m + 2) (u0, u1, u2, u3, us)")
  have "m \<le> 6" "m < 6" using Suc.prems by simp_all
  with rv_ks256_step_keys [OF assms(1,2) this(1) IH(2-5) r] r IH(1) show ?case
    by (simp del: ks256_step.simps)
qed (use assms in \<open>simp add: numeral_2_eq_2\<close>)

lemma take_8_split: "16 \<le> length kb \<Longrightarrow> take 8 kb @ take 8 (drop 8 kb) = take 16 kb"
  by (rule nth_equalityI) (auto simp: nth_append)

lemma expand_key256_riscv_fips:
  assumes "riscv_documented isa" and "length (key_bytes key) = 32" and "r \<le> 14"
  shows "store_state (expand_key256_riscv isa key ! r) = fips_round_key 8 (key_bytes key) r
    \<and> length (expand_key256_riscv isa key) = 15"
proof -
  let ?kb = "key_bytes key"
  define t0 t1 t2 t3 :: u64 where t: "t0 = le_decode (take 8 ?kb)" "t1 = le_decode (take 8 (drop 8 ?kb))"
    "t2 = le_decode (take 8 (drop 16 ?kb))" "t3 = le_decode (take 8 (drop 24 ?kb))"
  let ?ks = "(replicate 15 \<lparr>rv_lo = 0, rv_hi = 0\<rparr>)[0 := \<lparr>rv_lo = t0, rv_hi = t1\<rparr>,
    1 := \<lparr>rv_lo = t2, rv_hi = t3\<rparr>]"
  have kb: "32 \<le> length ?kb" using assms(2) by simp
  note start = fips_round_key_start [OF kb]
  have s: "rv_mem t0 @ rv_mem t1 = fips_round_key 8 ?kb 0" "rv_mem t2 @ rv_mem t3 = fips_round_key 8 ?kb 1"
    unfolding t start [symmetric] using assms(2) take_8_split [of ?kb] take_8_split [of "drop 16 ?kb"]
    by (simp_all add: rv_mem_decode)
  moreover from this have "rv_keys 8 ?kb 2 ?ks"
    by (auto simp: rv_keys_def less_Suc_eq numeral_2_eq_2 store_state_mem)
  ultimately obtain u0 u1 u2 u3 us where f: "fold (ks256_step isa) (map (\<lambda>i. (i, 2 * i + 2)) [0..<6])
      (t0, t1, t2, t3, ?ks) = (u0, u1, u2, u3, us)"
    "rv_mem u0 @ rv_mem u1 = fips_round_key 8 ?kb (2 * 6)"
    "rv_mem u2 @ rv_mem u3 = fips_round_key 8 ?kb (Suc (2 * 6))"
    "rv_keys 8 ?kb (2 * 6 + 2) us" "length us = 15"
    using rv_ks256_fold [OF assms(1) kb, of t0 t1 t2 t3 ?ks 6] by auto
  obtain v0 v1 v2 v3 vs where r: "ks256_step isa (6, 2 * 6 + 2) (u0, u1, u2, u3, us) = (v0, v1, v2, v3, vs)"
    by (cases "ks256_step isa (6, 2 * 6 + 2) (u0, u1, u2, u3, us)")
  note v = rv_ks256_step_keys [OF assms(1) kb order_refl f(2-5) r]
  have l: "[(0, 2), (1, 4), (2, 6), (3, 8), (4, 10), (5, 12), (6, 14)] =
      map (\<lambda>i. (i, 2 * i + 2)) [0..<6] @ [(6 :: nat, 2 * 6 + 2 :: nat)]"
    by (simp add: upt_rec_numeral upt_eval)
  have "expand_key256_riscv isa key = vs"
    unfolding expand_key256_riscv_def Let_def l fold_append o_apply t [symmetric] f(1) using r
    by (simp del: ks256_step.simps)
  then show ?thesis
    using v assms(3) by (auto simp: rv_keys_def)
qed

lemma rv_ks128_fold:
  assumes "riscv_documented isa" and "16 \<le> length kb"
    and "rv_mem t0 @ rv_mem t1 = fips_round_key 4 kb 0"
    and "rv_keys 4 kb 1 ks" and "length ks = 11" and "m \<le> 10"
  shows "\<exists>t0' t1' ks'. fold (ks128_step isa) (map (\<lambda>i. (i, Suc i)) [0..<m]) (t0, t1, ks) = (t0', t1', ks') \<and>
    rv_mem t0' @ rv_mem t1' = fips_round_key 4 kb m \<and> rv_keys 4 kb (Suc m) ks' \<and> length ks' = 11"
  using assms(6)
proof (induction m)
  case (Suc m)
  then obtain u0 u1 us where IH: "fold (ks128_step isa) (map (\<lambda>i. (i, Suc i)) [0..<m]) (t0, t1, ks) = (u0, u1, us)"
    "rv_mem u0 @ rv_mem u1 = fips_round_key 4 kb m" "rv_keys 4 kb (Suc m) us" "length us = 11"
    by auto
  let ?v0 = "riscv_aes64ks2 isa (riscv_aes64ks1i isa u1 m) u0"
  let ?v1 = "riscv_aes64ks2 isa ?v0 u1"
  have m: "m < 10" using Suc.prems by simp
  have "key_word (fips_round_key 4 kb m) 3 = drop 4 (rv_mem u1)"
    unfolding IH(2) [symmetric] by (simp add: key_word_3_append)
  then have v: "rv_mem ?v0 @ rv_mem ?v1 = fips_round_key 4 kb (Suc m)"
    unfolding fips_round_key_128_step [OF assms(2)]
    using rv_ks2_chain [OF assms(1) rv_ks1i_round [OF assms(1) m]]
    by (simp add: IH(2) [symmetric] sub_rot_rcon_def)
  with IH m show ?case
    using rv_keys_extend [OF IH(3) _ v] by (simp add: Let_def)
qed (use assms in simp)

lemma expand_key128_riscv_fips:
  assumes "riscv_documented isa" and "length (key_bytes key) = 32" and "r \<le> 10"
  shows "store_state (expand_key128_riscv isa key ! r) = fips_round_key 4 (key_bytes key) r
    \<and> length (expand_key128_riscv isa key) = 11"
proof -
  let ?kb = "key_bytes key"
  define t0 t1 :: u64 where t: "t0 = le_decode (take 8 ?kb)" "t1 = le_decode (take 8 (drop 8 ?kb))"
  let ?ks = "(replicate 11 \<lparr>rv_lo = 0, rv_hi = 0\<rparr>)[0 := \<lparr>rv_lo = t0, rv_hi = t1\<rparr>]"
  have kb: "32 \<le> length ?kb" "16 \<le> length ?kb" using assms(2) by simp_all
  have s: "rv_mem t0 @ rv_mem t1 = fips_round_key 4 ?kb 0"
    unfolding t fips_round_key_start(3) [OF kb(1), symmetric] using assms(2) take_8_split [of ?kb]
    by (simp add: rv_mem_decode)
  moreover from this have "rv_keys 4 ?kb 1 ?ks"
    by (simp add: rv_keys_def store_state_mem)
  ultimately obtain u0 u1 us where f: "fold (ks128_step isa) (map (\<lambda>i. (i, Suc i)) [0..<10]) (t0, t1, ?ks) =
      (u0, u1, us)" "rv_keys 4 ?kb 11 us" "length us = 11"
    using rv_ks128_fold [OF assms(1) kb(2), of t0 t1 ?ks 10] by auto
  have l: "[(0, 1), (1, 2), (2, 3), (3, 4), (4, 5), (5, 6), (6, 7), (7, 8), (8, 9), (9, 10)] =
      map (\<lambda>i. (i, Suc i)) [0..<10]"
    by (simp add: upt_rec_numeral upt_eval)
  have "expand_key128_riscv isa key = us"
    unfolding expand_key128_riscv_def Let_def l t [symmetric] f(1) by simp
  then show ?thesis
    using f(2,3) assms(3) by (auto simp: rv_keys_def)
qed

section \<open>Agreement with the software cipher\<close>

lemma encrypt_with_schedule_run:
  assumes "riscv_documented isa" and "length rk = Suc Nr"
  shows "fst (encrypt_with_schedule isa rk block) = store_state (aes_engine.run_rounds xor_state
    (\<lambda>st k. xor_state (round_middle isa st) k) (\<lambda>st k. xor_state (round_final isa st) k) Nr rk
      (load_state block))"
  using assms(2)
  by (simp add: encrypt_with_schedule_def aes_engine.run_rounds_def [OF riscv_engine [OF assms(1)]] Let_def)

lemma rv_wiped: "length rk = n \<Longrightarrow>
  snd (encrypt_with_schedule isa rk block) = replicate n \<lparr>rv_lo = 0, rv_hi = 0\<rparr>"
  by (simp add: encrypt_with_schedule_def Let_def wipe_schedule_riscv_def map_replicate_const)

lemma aes_riscv_eq_soft:
  assumes "riscv_documented isa" and "key_wf key" and "length block = 16"
  shows "aes256_encrypt_block_riscv isa key block = aes256_encrypt_block_soft key block"
    and "aes128_encrypt_block_riscv isa key block = aes128_encrypt_block_soft key block"
proof -
  have kb: "length (key_bytes key) = 32"
    using assms(2) by (simp add: key_wf_def key_bytes_def kKeySizeBytes_def)
  note mem = aes_engine.mem_run_rounds_soft [OF riscv_engine [OF assms(1)], of "load_state block"]
  note k256 = expand_key256_riscv_fips [OF assms(1) kb] and k128 = expand_key128_riscv_fips [OF assms(1) kb]
  have len: "length (expand_key256_riscv isa key) = Suc 14" "length (expand_key128_riscv isa key) = Suc 10"
    using k256 [of 0] k128 [of 0] by simp_all
  show "aes256_encrypt_block_riscv isa key block = aes256_encrypt_block_soft key block"
    using k256 mem [of 8 14 key "expand_key256_riscv isa key"] kb assms(3)
    by (simp add: aes256_encrypt_block_riscv_def aes256_encrypt_block_soft_def store_load_state
        encrypt_with_schedule_run [OF assms(1) len(1)])
  show "aes128_encrypt_block_riscv isa key block = aes128_encrypt_block_soft key block"
    using k128 mem [of 4 10 key "expand_key128_riscv isa key"] kb assms(3)
    by (simp add: aes128_encrypt_block_riscv_def aes128_encrypt_block_soft_def store_load_state
        encrypt_with_schedule_run [OF assms(1) len(2)])
qed

text \<open>A processor that behaves as documented.\<close>

definition riscv_reference :: riscv_isa where
  "riscv_reference =
     \<lparr>riscv_aes64esm = (\<lambda>rs1 rs2. le_decode
        (rv_mix_column (take 4 (rv_sub (rv_shift_rows rs1 rs2))) @
         rv_mix_column (drop 4 (rv_sub (rv_shift_rows rs1 rs2))))),
      riscv_aes64es = (\<lambda>rs1 rs2. le_decode (rv_sub (rv_shift_rows rs1 rs2))),
      riscv_aes64ks2 = (\<lambda>rs1 rs2. le_decode
        (xor_bytes (drop 4 (rv_mem rs1)) (take 4 (rv_mem rs2)) @
         xor_bytes (xor_bytes (drop 4 (rv_mem rs1)) (take 4 (rv_mem rs2))) (drop 4 (rv_mem rs2)))),
      riscv_aes64ks1i = (\<lambda>rs1 rnum. le_decode
        (if rnum = 0xA then fips_sub_word (drop 4 (rv_mem rs1)) @ fips_sub_word (drop 4 (rv_mem rs1))
         else xor_bytes (rotate1 (fips_sub_word (drop 4 (rv_mem rs1)))) (fips_rcon (Suc rnum)) @
           xor_bytes (rotate1 (fips_sub_word (drop 4 (rv_mem rs1)))) (fips_rcon (Suc rnum))))\<rparr>"

lemma length_rv [simp]:
  "length (rv_sub bs) = length bs" "length (rv_shift_rows rs1 rs2) = 8" "length (rv_mix_column c) = 4"
  by (simp_all add: rv_sub_def rv_shift_rows_def rv_mix_column_def)

lemma riscv_reference_documented: "riscv_documented riscv_reference"
  by (simp add: riscv_documented_def riscv_reference_def Let_def rv_mem_decode)

section \<open>Properties\<close>

text \<open>
  C21. On a processor whose Zkne instructions behave as specified, the RISC-V backend, with
  its key expansion by \<^verbatim>\<open>aes64ks1i\<close> and \<^verbatim>\<open>aes64ks2\<close> on 64-bit register pairs, computes the
  same block as the software backend for both key sizes, and wipes its schedule.
\<close>

theorem aes_riscv_agrees_with_soft:
  assumes "riscv_documented isa" and "key_wf key" and "length block = 16"
  shows "encrypt_with_schedule isa (expand_key256_riscv isa key) block =
      (aes256_encrypt_block_soft key block, replicate 15 \<lparr>rv_lo = 0, rv_hi = 0\<rparr>) \<and>
    encrypt_with_schedule isa (expand_key128_riscv isa key) block =
      (aes128_encrypt_block_soft key block, replicate 11 \<lparr>rv_lo = 0, rv_hi = 0\<rparr>)"
  using aes_riscv_eq_soft [OF assms] assms(2) expand_key256_riscv_fips [OF assms(1), of key 0]
    expand_key128_riscv_fips [OF assms(1), of key 0]
  by (simp add: prod_eq_iff rv_wiped aes256_encrypt_block_riscv_def aes128_encrypt_block_riscv_def
      key_wf_def key_bytes_def kKeySizeBytes_def)

theorem aes_riscv_agrees_with_soft_witness:
  "encrypt_with_schedule riscv_reference (expand_key256_riscv riscv_reference SecretKey) (replicate 16 7) =
     (aes256_encrypt_block_soft SecretKey (replicate 16 7), replicate 15 \<lparr>rv_lo = 0, rv_hi = 0\<rparr>) \<and>
   encrypt_with_schedule riscv_reference (expand_key128_riscv riscv_reference SecretKey) (replicate 16 7) =
     (aes128_encrypt_block_soft SecretKey (replicate 16 7), replicate 11 \<lparr>rv_lo = 0, rv_hi = 0\<rparr>)"
  by (rule aes_riscv_agrees_with_soft [OF riscv_reference_documented]) simp_all

end
