(* ===== verification/Cpu_Detect.thy ===== *)
theory Cpu_Detect
  imports Kat_Vector Aes_Ni Aes_Arm Aes_Riscv
begin

text \<open>
  Backend selection: \<^verbatim>\<open>src/aes_core_hw.cpp\<close> (which hardware backend the build has),
  \<^verbatim>\<open>src/cpu_detect.cpp\<close> (capability read, known-answer self-test, environment override) and
  \<^verbatim>\<open>include/aeslib/backend.hpp\<close>. What the build and the machine provide is a parameter
  record: the target the preprocessor sees, the instructions, and the answers of the
  capability reads.
\<close>

section \<open>Definitions\<close>

datatype target_arch = ArchX86 | ArchArm64 | ArchRiscv64 | ArchOther

record platform =
  pf_arch :: target_arch
  pf_os :: target_os
  pf_ni :: ni_isa
  pf_arm :: arm_isa
  pf_riscv :: riscv_isa
  pf_cpuid1_ecx :: u32
  pf_getauxval_hwcap :: u64
  pf_HWCAP_AES :: u64
  pf_sysctlbyname :: "string \<Rightarrow> int option"
  pf_processor_feature_present :: bool
  pf_riscv_hwprobe :: "nat \<Rightarrow> u64 option"
  pf_getenv :: "string \<Rightarrow> string option"

text \<open>
  Each backend file is compiled for every target. On its own architecture it defines the
  two block functions, on any other it defines functions of the same names that throw.
\<close>

definition build_aes256_ni :: "platform \<Rightarrow> secret_key \<Rightarrow> bytes \<Rightarrow> bytes res" where
  "build_aes256_ni pf key block =
     (if pf_arch pf = ArchX86 then Inr (aes256_encrypt_block_ni (pf_ni pf) key block)
      else Inl (LogicError ''aes256_encrypt_block_ni called on a non-x86 build''))"

definition build_aes128_ni :: "platform \<Rightarrow> secret_key \<Rightarrow> bytes \<Rightarrow> bytes res" where
  "build_aes128_ni pf key block =
     (if pf_arch pf = ArchX86 then Inr (aes128_encrypt_block_ni (pf_ni pf) key block)
      else Inl (LogicError ''aes128_encrypt_block_ni called on a non-x86 build''))"

definition build_aes256_arm :: "platform \<Rightarrow> secret_key \<Rightarrow> bytes \<Rightarrow> bytes res" where
  "build_aes256_arm pf key block =
     (if pf_arch pf = ArchArm64 then Inr (aes256_encrypt_block_arm (pf_arm pf) key block)
      else Inl (LogicError ''aes256_encrypt_block_arm called on a non-ARM64 build''))"

definition build_aes128_arm :: "platform \<Rightarrow> secret_key \<Rightarrow> bytes \<Rightarrow> bytes res" where
  "build_aes128_arm pf key block =
     (if pf_arch pf = ArchArm64 then Inr (aes128_encrypt_block_arm (pf_arm pf) key block)
      else Inl (LogicError ''aes128_encrypt_block_arm called on a non-ARM64 build''))"

definition build_aes256_riscv :: "platform \<Rightarrow> secret_key \<Rightarrow> bytes \<Rightarrow> bytes res" where
  "build_aes256_riscv pf key block =
     (if pf_arch pf = ArchRiscv64 then Inr (aes256_encrypt_block_riscv (pf_riscv pf) key block)
      else Inl (LogicError ''aes256_encrypt_block_riscv called on a non-RV64 build''))"

definition build_aes128_riscv :: "platform \<Rightarrow> secret_key \<Rightarrow> bytes \<Rightarrow> bytes res" where
  "build_aes128_riscv pf key block =
     (if pf_arch pf = ArchRiscv64 then Inr (aes128_encrypt_block_riscv (pf_riscv pf) key block)
      else Inl (LogicError ''aes128_encrypt_block_riscv called on a non-RV64 build''))"

definition aes256_encrypt_block_hw :: "platform \<Rightarrow> secret_key \<Rightarrow> bytes \<Rightarrow> bytes res" where
  "aes256_encrypt_block_hw pf key block =
     (case pf_arch pf of
        ArchX86 \<Rightarrow> build_aes256_ni pf key block
      | ArchArm64 \<Rightarrow> build_aes256_arm pf key block
      | ArchRiscv64 \<Rightarrow> build_aes256_riscv pf key block
      | ArchOther \<Rightarrow> Inl (LogicError
          ''aes256_encrypt_block_hw called on an architecture with no hardware AES backend''))"

definition aes128_encrypt_block_hw :: "platform \<Rightarrow> secret_key \<Rightarrow> bytes \<Rightarrow> bytes res" where
  "aes128_encrypt_block_hw pf key block =
     (case pf_arch pf of
        ArchX86 \<Rightarrow> build_aes128_ni pf key block
      | ArchArm64 \<Rightarrow> build_aes128_arm pf key block
      | ArchRiscv64 \<Rightarrow> build_aes128_riscv pf key block
      | ArchOther \<Rightarrow> Inl (LogicError
          ''aes128_encrypt_block_hw called on an architecture with no hardware AES backend''))"

definition kat_matches ::
  "(secret_key \<Rightarrow> bytes \<Rightarrow> bytes res) \<Rightarrow> secret_key \<Rightarrow> bytes \<Rightarrow> bytes \<Rightarrow> bool res" where
  "kat_matches hw_encrypt key plaintext expected =
     res_bind (hw_encrypt key plaintext) (\<lambda>out. Inr (out = expected))"

definition kat_block :: "bytes \<Rightarrow> bytes" where
  "kat_block bs = fold (\<lambda>i block. block[i := bs ! i]) [0..<16] (replicate 16 0)"

definition hw_backend_passes_self_test :: "platform \<Rightarrow> bool res" where
  "hw_backend_passes_self_test pf =
     (let key128 = key_from_bytes kKat128Key Aes128;
          pt128 = kat_block kKat128Plaintext;
          expected128 = kat_block kKat128Ciphertext
      in res_bind (kat_matches (aes128_encrypt_block_hw pf) key128 pt128 expected128) (\<lambda>ok128.
           if \<not> ok128 then Inr False
           else
             let key256 = key_from_bytes kKat256Key Aes256;
                 pt256 = kat_block kKat256Plaintext;
                 expected256 = kat_block kKat256Ciphertext
             in kat_matches (aes256_encrypt_block_hw pf) key256 pt256 expected256))"

definition kAesNiEcxBit :: nat where
  "kAesNiEcxBit = 25"

definition RISCV_HWPROBE_KEY_IMA_EXT_0 :: nat where
  "RISCV_HWPROBE_KEY_IMA_EXT_0 = 4"

definition RISCV_HWPROBE_EXT_ZKNE :: u64 where
  "RISCV_HWPROBE_EXT_ZKNE = push_bit 12 1"

text \<open>
  \<^verbatim>\<open>cpu::has_hw_aes()\<close>: the capability read of the target and, only if it says yes, the
  self-test. \<open>detect_hw_aes\<close> is the initialiser of the function's \<^verbatim>\<open>static\<close> variable and
  \<open>has_hw_aes_call\<close> one call, with the variable as state; a target without a detection
  mechanism has no variable.
\<close>

definition detect_hw_aes :: "platform \<Rightarrow> bool res" where
  "detect_hw_aes pf =
     (case (pf_arch pf, pf_os pf) of
        (ArchX86, _) \<Rightarrow>
          if pf_cpuid1_ecx pf AND push_bit kAesNiEcxBit 1 \<noteq> 0
          then hw_backend_passes_self_test pf else Inr False
      | (ArchArm64, OsLinux) \<Rightarrow>
          if pf_getauxval_hwcap pf AND pf_HWCAP_AES pf \<noteq> 0
          then hw_backend_passes_self_test pf else Inr False
      | (ArchArm64, OsApple) \<Rightarrow>
          if pf_sysctlbyname pf ''hw.optional.arm.FEAT_AES'' = Some 1
          then hw_backend_passes_self_test pf else Inr False
      | (ArchArm64, OsWindows) \<Rightarrow>
          if pf_processor_feature_present pf
          then hw_backend_passes_self_test pf else Inr False
      | (ArchRiscv64, OsLinux) \<Rightarrow>
          (case pf_riscv_hwprobe pf RISCV_HWPROBE_KEY_IMA_EXT_0 of
             None \<Rightarrow> Inr False
           | Some v \<Rightarrow>
               if v AND RISCV_HWPROBE_EXT_ZKNE = 0 then Inr False
               else hw_backend_passes_self_test pf)
      | _ \<Rightarrow> Inr False)"

definition has_hw_aes_call :: "platform \<Rightarrow> bool option \<Rightarrow> bool res \<times> bool option" where
  "has_hw_aes_call pf supported =
     (case supported of
        Some b \<Rightarrow> (Inr b, Some b)
      | None \<Rightarrow> (case detect_hw_aes pf of
          Inl e \<Rightarrow> (Inl e, None)
        | Inr b \<Rightarrow> (Inr b, Some b)))"

text \<open>
  The answer of a process that has made its first call on this platform. The fields of
  \<open>platform\<close> other than the environment are what the reads report at that first call.
\<close>

definition has_hw_aes :: "platform \<Rightarrow> bool res" where
  "has_hw_aes pf = fst (has_hw_aes_call pf None)"

datatype backend = Software | Hardware

definition active_backend :: "platform \<Rightarrow> backend res" where
  "active_backend pf =
     (let force_software = pf_getenv pf ''AESLIB_FORCE_SOFTWARE''
      in if (case force_software of None \<Rightarrow> False | Some v \<Rightarrow> v \<noteq> '''' \<and> v \<noteq> ''0'')
         then Inr Software
         else res_bind (has_hw_aes pf) (\<lambda>hw. Inr (if hw then Hardware else Software)))"

section \<open>The hardware path is total where it is used\<close>

text \<open>The dispatch reaches the backend of the target, never a throwing stand-in.\<close>

lemmas build_defs = build_aes256_ni_def build_aes128_ni_def build_aes256_arm_def build_aes128_arm_def
  build_aes256_riscv_def build_aes128_riscv_def

lemma build_reached [simp]:
  "pf_arch pf = ArchX86 \<Longrightarrow> build_aes256_ni pf key block = Inr (aes256_encrypt_block_ni (pf_ni pf) key block)"
  "pf_arch pf = ArchX86 \<Longrightarrow> build_aes128_ni pf key block = Inr (aes128_encrypt_block_ni (pf_ni pf) key block)"
  "pf_arch pf = ArchArm64 \<Longrightarrow> build_aes256_arm pf key block = Inr (aes256_encrypt_block_arm (pf_arm pf) key block)"
  "pf_arch pf = ArchArm64 \<Longrightarrow> build_aes128_arm pf key block = Inr (aes128_encrypt_block_arm (pf_arm pf) key block)"
  "pf_arch pf = ArchRiscv64 \<Longrightarrow>
     build_aes256_riscv pf key block = Inr (aes256_encrypt_block_riscv (pf_riscv pf) key block)"
  "pf_arch pf = ArchRiscv64 \<Longrightarrow>
     build_aes128_riscv pf key block = Inr (aes128_encrypt_block_riscv (pf_riscv pf) key block)"
  by (simp_all add: build_defs)

lemma kat_block_id: "length bs = 16 \<Longrightarrow> kat_block bs = bs"
  unfolding kat_block_def using copy_loop [of 16 "replicate 16 0" 0 bs] by simp

lemma length_kat [simp]:
  "length kKat128Plaintext = 16" "length kKat128Ciphertext = 16"
  "length kKat256Plaintext = 16" "length kKat256Ciphertext = 16"
  by (simp_all add: kKat128Plaintext_def kKat128Ciphertext_def kKat256Plaintext_def
      kKat256Ciphertext_def)

lemma self_test_result:
  "pf_arch pf \<noteq> ArchOther \<Longrightarrow> hw_backend_passes_self_test pf = Inr
     (aes128_encrypt_block_hw pf (key_from_bytes kKat128Key Aes128) kKat128Plaintext = Inr kKat128Ciphertext \<and>
      aes256_encrypt_block_hw pf (key_from_bytes kKat256Key Aes256) kKat256Plaintext = Inr kKat256Ciphertext)"
  by (auto simp: hw_backend_passes_self_test_def kat_matches_def kat_block_id Let_def
      aes128_encrypt_block_hw_def aes256_encrypt_block_hw_def split: target_arch.splits)

lemma has_hw_aes_total: "\<exists>b. has_hw_aes pf = Inr b"
  by (cases "pf_arch pf"; cases "pf_os pf")
    (auto simp: has_hw_aes_def has_hw_aes_call_def detect_hw_aes_def self_test_result split: option.splits)

lemma has_hw_aes_True:
  assumes "has_hw_aes pf = Inr True"
  shows "pf_arch pf \<noteq> ArchOther" and "hw_backend_passes_self_test pf = Inr True"
  using assms
  by (cases "pf_arch pf"; cases "pf_os pf";
      auto simp: has_hw_aes_def has_hw_aes_call_def detect_hw_aes_def self_test_result
        split: option.splits if_splits)+

lemma active_backend_total: "\<exists>b. active_backend pf = Inr b"
  using has_hw_aes_total [of pf] by (auto simp: active_backend_def Let_def)

lemma active_backend_Hardware:
  "active_backend pf = Inr Hardware \<Longrightarrow> has_hw_aes pf = Inr True"
  using has_hw_aes_total [of pf]
  by (auto simp: active_backend_def Let_def split: if_splits)

text \<open>The environment has no part in the answer of \<^verbatim>\<open>has_hw_aes()\<close>.\<close>

lemma self_test_getenv:
  "hw_backend_passes_self_test (pf\<lparr>pf_getenv := env\<rparr>) = hw_backend_passes_self_test pf"
  by (cases "pf_arch pf") (simp_all add: hw_backend_passes_self_test_def kat_matches_def Let_def
      aes128_encrypt_block_hw_def aes256_encrypt_block_hw_def)

lemma has_hw_aes_getenv: "has_hw_aes (pf\<lparr>pf_getenv := env\<rparr>) = has_hw_aes pf"
  by (cases "pf_arch pf"; cases "pf_os pf")
    (simp_all add: has_hw_aes_def has_hw_aes_call_def detect_hw_aes_def self_test_getenv
      split: option.split)

section \<open>Documented hardware\<close>

definition platform_documented :: "platform \<Rightarrow> bool" where
  "platform_documented pf \<longleftrightarrow>
     (case pf_arch pf of
        ArchX86 \<Rightarrow> ni_documented (pf_ni pf)
      | ArchArm64 \<Rightarrow> arm_documented (pf_arm pf)
      | ArchRiscv64 \<Rightarrow> riscv_documented (pf_riscv pf)
      | ArchOther \<Rightarrow> True)"

lemma hw_eq_soft:
  assumes "platform_documented pf" and "pf_arch pf \<noteq> ArchOther" and "key_wf key" and "length block = 16"
  shows "aes256_encrypt_block_hw pf key block = Inr (aes256_encrypt_block_soft key block)"
    and "aes128_encrypt_block_hw pf key block = Inr (aes128_encrypt_block_soft key block)"
  using assms
  by (cases "pf_arch pf"; simp add: platform_documented_def aes256_encrypt_block_hw_def
      aes128_encrypt_block_hw_def aes256_ni_eq_soft aes128_ni_eq_soft aes_arm_eq_soft aes_riscv_eq_soft)+

lemma kat_keys_wf [simp]:
  "key_wf (key_from_bytes kKat128Key Aes128)" "key_wf (key_from_bytes kKat256Key Aes256)"
  by (simp_all add: key_wf_from_bytes kKat128Key_def kKat256Key_def)

lemma documented_passes_self_test:
  "platform_documented pf \<Longrightarrow> pf_arch pf \<noteq> ArchOther \<Longrightarrow> hw_backend_passes_self_test pf = Inr True"
  by (simp add: self_test_result hw_eq_soft kat128 kat256)

text \<open>Hardware blocks have 16 bytes, whatever the instructions compute.\<close>

lemma length_hw:
  "aes256_encrypt_block_hw pf key block = Inr out \<Longrightarrow> length out = 16"
  "aes128_encrypt_block_hw pf key block = Inr out \<Longrightarrow> length out = 16"
  by (auto simp: aes256_encrypt_block_hw_def aes128_encrypt_block_hw_def
      aes256_encrypt_block_ni_def aes256_encrypt_block_ni_run_def
      aes128_encrypt_block_ni_def aes128_encrypt_block_ni_run_def
      aes256_encrypt_block_arm_def aes128_encrypt_block_arm_def
      aes_encrypt_block_arm_def aes_encrypt_block_arm_run_def
      aes256_encrypt_block_riscv_def aes128_encrypt_block_riscv_def encrypt_with_schedule_def
      Let_def split: target_arch.splits)

text \<open>
  A platform to instantiate the properties: x86-64 Linux with documented AES-NI, and its
  feature bit and environment as arguments.
\<close>

definition x86_platform :: "u32 \<Rightarrow> string option \<Rightarrow> platform" where
  "x86_platform ecx force =
     \<lparr>pf_arch = ArchX86, pf_os = OsLinux, pf_ni = ni_reference, pf_arm = arm_reference,
      pf_riscv = riscv_reference, pf_cpuid1_ecx = ecx, pf_getauxval_hwcap = 0, pf_HWCAP_AES = 8,
      pf_sysctlbyname = (\<lambda>_. None), pf_processor_feature_present = False,
      pf_riscv_hwprobe = (\<lambda>_. None),
      pf_getenv = (\<lambda>v. if v = ''AESLIB_FORCE_SOFTWARE'' then force else None)\<rparr>"

lemma x86_platform_documented: "platform_documented (x86_platform ecx force)"
  by (simp add: platform_documented_def x86_platform_def ni_reference_documented)

lemma x86_platform_backend:
  "active_backend (x86_platform (push_bit 25 1) None) = Inr Hardware"
  "active_backend (x86_platform 0 None) = Inr Software"
  using documented_passes_self_test [OF x86_platform_documented [of "push_bit 25 1" None]]
  by (simp_all add: active_backend_def has_hw_aes_def has_hw_aes_call_def detect_hw_aes_def Let_def
      kAesNiEcxBit_def) (simp_all add: x86_platform_def)

section \<open>Properties\<close>

text \<open>
  C6. The hardware backend is only ever active after it answered both known-answer
  vectors correctly on this machine, and with the override variable unset, empty or
  \<^verbatim>\<open>"0"\<close>. This holds for every processor, documented or faulty.
\<close>

theorem hardware_only_after_self_test:
  assumes "active_backend pf = Inr Hardware"
  shows "aes128_encrypt_block_hw pf (key_from_bytes kKat128Key Aes128) kKat128Plaintext
      = Inr kKat128Ciphertext \<and>
    aes256_encrypt_block_hw pf (key_from_bytes kKat256Key Aes256) kKat256Plaintext
      = Inr kKat256Ciphertext \<and>
    pf_getenv pf ''AESLIB_FORCE_SOFTWARE'' \<in> {None, Some '''', Some ''0''}"
  using assms active_backend_Hardware [OF assms] self_test_result [of pf] has_hw_aes_True [of pf]
  by (auto simp: active_backend_def Let_def split: if_splits option.splits)

theorem hardware_only_after_self_test_witness:
  "aes128_encrypt_block_hw (x86_platform (push_bit 25 1) None) (key_from_bytes kKat128Key Aes128)
     kKat128Plaintext = Inr kKat128Ciphertext \<and>
   aes256_encrypt_block_hw (x86_platform (push_bit 25 1) None) (key_from_bytes kKat256Key Aes256)
     kKat256Plaintext = Inr kKat256Ciphertext \<and>
   pf_getenv (x86_platform (push_bit 25 1) None) ''AESLIB_FORCE_SOFTWARE'' \<in> {None, Some '''', Some ''0''}"
  by (rule hardware_only_after_self_test) (rule x86_platform_backend)

text \<open>
  Backend selection always yields a backend, on every build target: the functions
  that throw \<^verbatim>\<open>std::logic_error\<close> on a target without a hardware backend are never reached
  from it. A set override selects the software backend, and an environment can only turn
  hardware into software: if hardware is active under some environment, the machine passes
  \<^verbatim>\<open>has_hw_aes()\<close>.
\<close>

theorem backend_selection_total:
  "(\<exists>b. active_backend pf = Inr b) \<and>
   (pf_getenv pf ''AESLIB_FORCE_SOFTWARE'' \<in> {None, Some '''', Some ''0''} \<or>
      active_backend pf = Inr Software) \<and>
   (active_backend (pf\<lparr>pf_getenv := env\<rparr>) = Inr Hardware \<longrightarrow> has_hw_aes pf = Inr True)"
proof -
  have "pf_getenv pf ''AESLIB_FORCE_SOFTWARE'' \<in> {None, Some '''', Some ''0''} \<or>
      active_backend pf = Inr Software"
    by (auto simp: active_backend_def Let_def split: option.splits)
  then show ?thesis
    using has_hw_aes_getenv [of env pf] active_backend_total [of pf] active_backend_Hardware [of "pf\<lparr>pf_getenv := env\<rparr>"] by auto
qed

theorem backend_selection_total_witness:
  "(\<exists>b. active_backend (x86_platform (push_bit 25 1) (Some ''1'')) = Inr b) \<and>
   active_backend (x86_platform (push_bit 25 1) (Some ''1'')) = Inr Software \<and>
   has_hw_aes (x86_platform (push_bit 25 1) (Some ''1'')) = Inr True"
proof -
  let ?pf = "x86_platform (push_bit 25 1) (Some ''1'')"
  have "?pf\<lparr>pf_getenv := \<lambda>_. None\<rparr> = x86_platform (push_bit 25 1) None"
    by (simp add: x86_platform_def fun_eq_iff)
  moreover have "pf_getenv ?pf ''AESLIB_FORCE_SOFTWARE'' = Some ''1''"
    by (simp add: x86_platform_def)
  ultimately show ?thesis
    using backend_selection_total [of ?pf "\<lambda>_. None"] x86_platform_backend(1) by auto
qed

end
