(* ===== verification/Container.thy ===== *)
theory Container
  imports Posix Byte_Codec
begin

text \<open>
  The on-disk container of \<^verbatim>\<open>include/aeslib/container.hpp\<close> and \<^verbatim>\<open>src/container.cpp\<close>: the
  \<^verbatim>\<open>AESC\<close> wire format with its serializer and its parser, and the file helpers
  \<^verbatim>\<open>read_file\<close> and \<^verbatim>\<open>write_file\<close> (both branches). The locale \<open>codec\<close> is the contract of a
  wire format; the container formats and the key file format are its interpretations.
\<close>

section \<open>Definitions\<close>

definition kNonceSizeBytes :: nat where
  "kNonceSizeBytes = 12"

definition kContainerVersion :: byte where
  "kContainerVersion = 1"

record container =
  ct_nonce :: bytes
  ct_ciphertext :: bytes

text \<open>\<^verbatim>\<open>{'A', 'E', 'S', 'C'}\<close> as bytes.\<close>

definition kMagic :: bytes where
  "kMagic = [0x41, 0x45, 0x53, 0x43]"

definition kHeaderSize :: nat where
  "kHeaderSize = 4 + 1 + kNonceSizeBytes + 8"

definition serialize :: "container \<Rightarrow> bytes" where
  "serialize container =
     (let out = kMagic;
          out = out @ [kContainerVersion];
          out = out @ ct_nonce container;
          ct_len = of_nat (length (ct_ciphertext container)) :: u64;
          out = out @ map (\<lambda>i. ucast (drop_bit (8 * i) ct_len AND 0xff)) [0..<8]
      in out @ ct_ciphertext container)"

definition deserialize :: "bytes \<Rightarrow> container res" where
  "deserialize data =
     (if length data < kHeaderSize then Inl (FormatError ''container truncated: missing header'')
      else if list_ex (\<lambda>i. data ! i \<noteq> kMagic ! i) [0..<4] then Inl (FormatError ''container has bad magic bytes'')
      else
        let version = data ! 4
        in if version \<noteq> kContainerVersion then
             Inl (FormatError (''unsupported container version: '' @ to_string (unat version)))
           else
             let nonce = take kNonceSizeBytes (drop 5 data);
                 ct_len = fold (\<lambda>i v. v OR push_bit (8 * i) (ucast (data ! (5 + kNonceSizeBytes + i))))
                   [0..<8] (0 :: u64)
             in if length data - kHeaderSize \<noteq> unat ct_len then
                  Inl (FormatError ''container ciphertext length mismatch'')
                else Inr \<lparr>ct_nonce = nonce, ct_ciphertext = drop kHeaderSize data\<rparr>)"

definition read_file :: "'w system \<Rightarrow> string \<Rightarrow> ('w, bytes) io" where
  "read_file os path w =
     (case ifs_open os path w of
        (None, w) \<Rightarrow> Some (Inl (IoError (''failed to open file: '' @ path)), w)
      | (Some h, w) \<Rightarrow>
          (case ifs_tellg os h w of (sz, w) \<Rightarrow>
             if sz < 0 then
               Some (Inl (IoError (''failed to determine file size: '' @ path)), ifs_close os h w)
             else if nat sz = 0 then Some (Inr [], ifs_close os h w)
             else
               (case ifs_read os h (nat sz) w of
                  (None, w) \<Rightarrow> Some (Inl (IoError (''failed to read file: '' @ path)), ifs_close os h w)
                | (Some data, w) \<Rightarrow> Some (Inr data, ifs_close os h w))))"

text \<open>
  The \<^verbatim>\<open>while\<close> loop around \<^verbatim>\<open>::write\<close>: the final \<^verbatim>\<open>ok\<close> and the world. A \<^verbatim>\<open>write\<close> that keeps
  returning 0 keeps the loop going, so the loop is a partial function.
\<close>

partial_function (option) write_loop ::
  "'w system \<Rightarrow> int \<Rightarrow> bytes \<Rightarrow> nat \<Rightarrow> 'w \<Rightarrow> (bool \<times> 'w) option" where
  "write_loop os fd data written w =
     (if written < length data then
        (case sys_write os fd (drop written data) w of
           (n, w') \<Rightarrow> if n < 0 then Some (False, w')
                      else write_loop os fd data (written + nat n) w')
      else Some (True, w))"

definition write_file_posix :: "'w system \<Rightarrow> string \<Rightarrow> bytes \<Rightarrow> ('w, unit) io" where
  "write_file_posix os path data w =
     (case sys_open_wr os path (6 * 64 + 4 * 8 + 4) w of (fd, w) \<Rightarrow>
        if fd < 0 then Some (Inl (IoError (''failed to open file for writing: '' @ path)), w)
        else
          (case write_loop os fd data 0 w of
             None \<Rightarrow> None
           | Some (ok, w) \<Rightarrow>
               let w = sys_close os fd w
               in if \<not> ok then Some (Inl (IoError (''failed to write file: '' @ path)), w)
                  else Some (Inr (), w)))"

text \<open>
  The Windows branch. A handle on a reparse point is refused; an attribute query that
  fails counts as none. \<^verbatim>\<open>WriteFile\<close> is called once, with the length cast to a \<^verbatim>\<open>DWORD\<close>,
  and the count it reports is compared with the uncast length.
\<close>

definition kFileAttributeReparsePoint :: u32 where
  "kFileAttributeReparsePoint = 0x400"

definition w32_is_reparse_point :: "'w system \<Rightarrow> int \<Rightarrow> 'w \<Rightarrow> bool \<times> 'w" where
  "w32_is_reparse_point os h w =
     (case w32_file_information os h w of
        (None, w) \<Rightarrow> (False, w)
      | (Some attributes, w) \<Rightarrow> (attributes AND kFileAttributeReparsePoint \<noteq> 0, w))"

definition w32_write_all :: "'w system \<Rightarrow> int \<Rightarrow> bytes \<Rightarrow> 'w \<Rightarrow> bool \<times> 'w" where
  "w32_write_all os h data w =
     (case w32_WriteFile os h (take (unat (of_nat (length data) :: u32)) data) w of
        (r, written, w) \<Rightarrow> (r \<and> unat written = length data, w))"

definition write_file_win32 :: "'w system \<Rightarrow> string \<Rightarrow> bytes \<Rightarrow> ('w, unit) io" where
  "write_file_win32 os path data w =
     (case w32_create_wr os path w of
        (None, w) \<Rightarrow> Some (Inl (IoError (''failed to open file for writing: '' @ path)), w)
      | (Some h, w) \<Rightarrow>
          (case w32_is_reparse_point os h w of (reparse, w) \<Rightarrow>
             if reparse then
               Some (Inl (IoError (''refusing to write through a symlink/reparse point: '' @ path)),
                 w32_CloseHandle os h w)
             else
               (case (if data = [] then (True, w) else w32_write_all os h data w) of (ok, w) \<Rightarrow>
                  let w = w32_CloseHandle os h w
                  in if \<not> ok then Some (Inl (IoError (''failed to write file: '' @ path)), w)
                     else Some (Inr (), w))))"

definition write_file :: "'w system \<Rightarrow> string \<Rightarrow> bytes \<Rightarrow> ('w, unit) io" where
  "write_file os =
     (case sys_target os of OsWindows \<Rightarrow> write_file_win32 os | _ \<Rightarrow> write_file_posix os)"

definition save_container :: "'w system \<Rightarrow> container \<Rightarrow> string \<Rightarrow> ('w, unit) io" where
  "save_container os container path = write_file os path (serialize container)"

definition load_container :: "'w system \<Rightarrow> string \<Rightarrow> ('w, container) io" where
  "load_container os path = io_bind (read_file os path) (\<lambda>data. io_lift (deserialize data))"

section \<open>The contract of a wire format\<close>

text \<open>
  A format accepts exactly what its serializer writes: parsing a serialized value gives
  the value back, and every accepted byte string is the serialization of its value.
\<close>

locale codec =
  fixes enc :: "'a \<Rightarrow> bytes"
    and dec :: "bytes \<Rightarrow> 'a res"
    and valid :: "'a \<Rightarrow> bool"
  assumes dec_enc: "valid x \<Longrightarrow> dec (enc x) = Inr x"
    and dec_valid: "dec bs = Inr x \<Longrightarrow> valid x"
    and enc_dec: "dec bs = Inr x \<Longrightarrow> enc x = bs"
begin

lemma dec_iff: "dec bs = Inr x \<longleftrightarrow> valid x \<and> bs = enc x"
  using dec_enc dec_valid enc_dec by blast

lemma enc_inject: "valid x \<Longrightarrow> valid y \<Longrightarrow> enc x = enc y \<longleftrightarrow> x = y"
  using dec_enc by (metis sum.inject(2))

lemma tampered: "valid x \<Longrightarrow> bs \<noteq> enc x \<Longrightarrow> dec bs \<noteq> Inr x"
  using enc_dec by blast

end

section \<open>The container format\<close>

definition container_valid :: "container \<Rightarrow> bool" where
  "container_valid c \<longleftrightarrow> length (ct_nonce c) = 12 \<and> length (ct_ciphertext c) < 2 ^ 64"

lemma le_encode_length_field:
  "length xs < 2 ^ 64 \<Longrightarrow> unat (le_decode (le_encode 8 (of_nat (length xs) :: u64)) :: u64) = length xs"
  by (simp add: le_decode_encode take_bit_word_eq_self unsigned_of_nat take_bit_nat_eq_self)

lemma length_field_encode:
  assumes "length bs = 8"
  shows "le_encode 8 (of_nat (unat (le_decode bs :: u64)) :: u64) = bs"
  using assms by (simp add: le_encode_decode)

lemma serialize_layout:
  "serialize c = kMagic @ [kContainerVersion] @ ct_nonce c @
     le_encode 8 (of_nat (length (ct_ciphertext c)) :: u64) @ ct_ciphertext c"
  by (simp add: serialize_def Let_def le_encode_loop)

lemma magic_check:
  assumes "length m = 4" and "4 \<le> length data"
  shows "list_ex (\<lambda>i. data ! i \<noteq> m ! i) [0..<4] \<longleftrightarrow> take 4 data \<noteq> m"
proof -
  have "list_ex (\<lambda>i. data ! i \<noteq> m ! i) [0..<4] \<longleftrightarrow> (\<exists>i < 4. take 4 data ! i \<noteq> m ! i)"
    by (auto simp: list_ex_iff)
  also have "\<dots> \<longleftrightarrow> take 4 data \<noteq> m"
    using assms by (auto simp: list_eq_iff_nth_eq)
  finally show ?thesis .
qed

lemma deserialize_iff:
  "deserialize data = Inr c \<longleftrightarrow> kHeaderSize \<le> length data \<and> take 4 data = kMagic \<and>
     data ! 4 = kContainerVersion \<and>
     length data - 25 = unat (le_decode (take 8 (drop 17 data)) :: u64) \<and>
     c = \<lparr>ct_nonce = take 12 (drop 5 data), ct_ciphertext = drop 25 data\<rparr>"
proof (cases "kHeaderSize \<le> length data")
  case True
  then have "4 \<le> length data" "17 + 8 \<le> length data"
    by (simp_all add: kHeaderSize_def kNonceSizeBytes_def)
  with True show ?thesis
    using magic_check [of kMagic data] le_decode_loop [of 17 8 data, where 'a = 64]
    by (auto simp: deserialize_def Let_def kHeaderSize_def kNonceSizeBytes_def kMagic_def)
qed (simp add: deserialize_def)

lemma data_split:
  assumes "25 \<le> length data"
  shows "data = take 4 data @ [data ! 4] @ take 12 (drop 5 data) @ take 8 (drop 17 data) @ drop 25 data"
  using assms
  by (intro nth_equalityI) (auto simp: nth_append nth_Cons' nth_drop)

interpretation ctr_file: codec serialize deserialize container_valid
proof
  fix c
  assume v: "container_valid c"
  then show "deserialize (serialize c) = Inr c"
    using le_encode_length_field [of "ct_ciphertext c"]
    by (simp add: deserialize_iff serialize_layout container_valid_def kHeaderSize_def
        kNonceSizeBytes_def kMagic_def nth_append)
next
  fix data c
  assume d: "deserialize data = Inr c"
  then have len: "25 \<le> length data"
    by (simp add: deserialize_iff kHeaderSize_def kNonceSizeBytes_def)
  have "length data - 25 < 2 ^ 64"
    using d unsigned_less [of "le_decode (take 8 (drop 17 data)) :: u64"]
    by (simp add: deserialize_iff)
  with d len show "container_valid c"
    by (auto simp: deserialize_iff container_valid_def)
  show "serialize c = data"
    using d len length_field_encode [of "take 8 (drop 17 data)"] data_split [OF len]
    by (auto simp: deserialize_iff serialize_layout)
qed

section \<open>Properties\<close>

text \<open>
  C23. The container parser accepts exactly the serializations of containers with a 12-byte
  nonce and a ciphertext whose length fits 64 bits, and gives back the container that was
  serialized; every other byte string is rejected with a \<^verbatim>\<open>FormatError\<close>.
\<close>

theorem container_parser_accepts_exactly_serializations:
  "(deserialize data = Inr c \<longleftrightarrow>
     length (ct_nonce c) = 12 \<and> length (ct_ciphertext c) < 2 ^ 64 \<and> data = serialize c) \<and>
   ((\<exists>c. deserialize data = Inr c) \<or> (\<exists>m. deserialize data = Inl (FormatError m)))"
  using ctr_file.dec_iff [of data c]
  by (auto simp: container_valid_def) (auto simp: deserialize_def Let_def split: if_splits)

end
