(* ===== verification/Posix_Files.thy ===== *)
theory Posix_Files
  imports Container Csprng
begin

text \<open>
  What the library relies on of the operating system's files, as predicates on the
  parameter record \<open>'w system\<close>: the laws of \<^verbatim>\<open>std::ifstream\<close>, those of the POSIX calls and
  those of the Win32 calls, and the file helpers of \<^verbatim>\<open>src/container.cpp\<close> under them. An
  in-memory file system whose writes and reads are short shows that the laws can hold;
  the witnesses of the file properties run on it.
\<close>

section \<open>The laws\<close>

text \<open>
  A view of a world: the contents of the files, the path a descriptor open for writing
  appends to, and the bytes a descriptor open for reading has not delivered yet.
\<close>

record 'w file_view =
  fv_cont :: "'w \<Rightarrow> string \<Rightarrow> bytes option"
  fv_wr :: "'w \<Rightarrow> int \<Rightarrow> string option"
  fv_rd :: "'w \<Rightarrow> int \<Rightarrow> bytes option"

definition open_write_law :: "'w system \<Rightarrow> 'w file_view \<Rightarrow> bool" where
  "open_write_law os fv \<longleftrightarrow> (\<forall>path mode w fd w'.
     sys_open_wr os path mode w = (fd, w') \<longrightarrow> 0 \<le> fd \<longrightarrow>
       fv_cont fv w' = (fv_cont fv w)(path \<mapsto> []) \<and> fv_wr fv w' fd = Some path)"

definition write_law :: "'w system \<Rightarrow> 'w file_view \<Rightarrow> bool" where
  "write_law os fv \<longleftrightarrow> (\<forall>fd buf w n w' path xs.
     sys_write os fd buf w = (n, w') \<longrightarrow> 0 \<le> n \<longrightarrow>
     fv_wr fv w fd = Some path \<longrightarrow> fv_cont fv w path = Some xs \<longrightarrow>
       nat n \<le> length buf \<and> fv_wr fv w' fd = Some path \<and>
       fv_cont fv w' = (fv_cont fv w)(path \<mapsto> xs @ take (nat n) buf))"

definition close_law :: "'w system \<Rightarrow> 'w file_view \<Rightarrow> bool" where
  "close_law os fv \<longleftrightarrow> (\<forall>fd w. fv_cont fv (sys_close os fd w) = fv_cont fv w)"

definition open_read_law :: "'w system \<Rightarrow> 'w file_view \<Rightarrow> bool" where
  "open_read_law os fv \<longleftrightarrow> (\<forall>path w fd w'. sys_open_rd os path w = (fd, w') \<longrightarrow> 0 \<le> fd \<longrightarrow>
     fv_cont fv w' = fv_cont fv w \<and> fv_cont fv w path \<noteq> None \<and> fv_rd fv w' fd = fv_cont fv w path)"

definition read_law :: "'w system \<Rightarrow> 'w file_view \<Rightarrow> bool" where
  "read_law os fv \<longleftrightarrow>
     (\<forall>fd k w bs w' xs. sys_read os fd k w = (Some bs, w') \<longrightarrow> fv_rd fv w fd = Some xs \<longrightarrow>
        length bs \<le> k \<and> bs = take (length bs) xs \<and> (bs = [] \<longrightarrow> k = 0 \<or> xs = []) \<and>
        fv_rd fv w' fd = Some (drop (length bs) xs) \<and> fv_cont fv w' = fv_cont fv w)"

definition posix_files :: "'w system \<Rightarrow> 'w file_view \<Rightarrow> bool" where
  "posix_files os fv \<longleftrightarrow> open_write_law os fv \<and> write_law os fv \<and> close_law os fv \<and>
     open_read_law os fv \<and> read_law os fv"

text \<open>The Win32 calls, in the same view; a \<^verbatim>\<open>ReadFile\<close> on a disk file delivers a prefix of the rest.\<close>

definition w32_write_laws :: "'w system \<Rightarrow> 'w file_view \<Rightarrow> bool" where
  "w32_write_laws os fv \<longleftrightarrow>
     (\<forall>path w h w'. w32_create_wr os path w = (Some h, w') \<longrightarrow>
        fv_cont fv w' = (fv_cont fv w)(path \<mapsto> []) \<and> fv_wr fv w' h = Some path) \<and>
     (\<forall>h w a w'. w32_file_information os h w = (a, w') \<longrightarrow>
        fv_cont fv w' = fv_cont fv w \<and> fv_wr fv w' = fv_wr fv w) \<and>
     (\<forall>h buf w n w' path xs. w32_WriteFile os h buf w = (True, n, w') \<longrightarrow>
        fv_wr fv w h = Some path \<longrightarrow> fv_cont fv w path = Some xs \<longrightarrow>
        unat n \<le> length buf \<and> fv_wr fv w' h = Some path \<and>
        fv_cont fv w' = (fv_cont fv w)(path \<mapsto> xs @ take (unat n) buf)) \<and>
     (\<forall>h w. fv_cont fv (w32_CloseHandle os h w) = fv_cont fv w)"

definition w32_read_laws :: "'w system \<Rightarrow> 'w file_view \<Rightarrow> bool" where
  "w32_read_laws os fv \<longleftrightarrow>
     (\<forall>path w h w'. w32_create_rd os path w = (Some h, w') \<longrightarrow>
        fv_cont fv w' = fv_cont fv w \<and> fv_cont fv w path \<noteq> None \<and> fv_rd fv w' h = fv_cont fv w path) \<and>
     (\<forall>h k w bs w' xs. w32_ReadFile os h k w = (True, bs, w') \<longrightarrow> fv_rd fv w h = Some xs \<longrightarrow>
        length bs \<le> unat k \<and> bs = take (length bs) xs \<and>
        fv_rd fv w' h = Some (drop (length bs) xs) \<and> fv_cont fv w' = fv_cont fv w)"

definition win32_files :: "'w system \<Rightarrow> 'w file_view \<Rightarrow> bool" where
  "win32_files os fv \<longleftrightarrow> w32_write_laws os fv \<and> w32_read_laws os fv"

text \<open>\<^verbatim>\<open>std::ifstream\<close>, on every system.\<close>

definition std_files :: "'w system \<Rightarrow> 'w file_view \<Rightarrow> bool" where
  "std_files os fv \<longleftrightarrow>
     (\<forall>path w fd w'. ifs_open os path w = (Some fd, w') \<longrightarrow>
        fv_cont fv w' = fv_cont fv w \<and> fv_cont fv w path \<noteq> None \<and> fv_rd fv w' fd = fv_cont fv w path) \<and>
     (\<forall>fd w p w' xs. ifs_tellg os fd w = (p, w') \<longrightarrow> 0 \<le> p \<longrightarrow> fv_rd fv w fd = Some xs \<longrightarrow>
        p = int (length xs) \<and> fv_rd fv w' fd = Some xs \<and> fv_cont fv w' = fv_cont fv w) \<and>
     (\<forall>fd k w bs w' xs. ifs_read os fd k w = (Some bs, w') \<longrightarrow> fv_rd fv w fd = Some xs \<longrightarrow>
        k \<le> length xs \<longrightarrow> bs = take k xs \<and> fv_cont fv w' = fv_cont fv w) \<and>
     (\<forall>fd w. fv_cont fv (ifs_close os fd w) = fv_cont fv w)"

definition files_documented :: "'w system \<Rightarrow> 'w file_view \<Rightarrow> bool" where
  "files_documented os fv \<longleftrightarrow> std_files os fv \<and>
     (if sys_target os = OsWindows then win32_files os fv else posix_files os fv)"

lemma files_documentedD:
  assumes "files_documented os fv"
  shows "std_files os fv" "sys_target os = OsWindows \<Longrightarrow> win32_files os fv"
    "sys_target os \<noteq> OsWindows \<Longrightarrow> posix_files os fv"
  using assms by (simp_all add: files_documented_def)

text \<open>A POSIX write of a nonempty buffer fails or makes progress.\<close>

definition write_progress :: "'w system \<Rightarrow> bool" where
  "write_progress os \<longleftrightarrow> sys_target os = OsWindows \<or>
     (\<forall>fd buf w. buf \<noteq> [] \<longrightarrow> fst (sys_write os fd buf w) \<noteq> 0)"

lemma open_wrD:
  "\<lbrakk>posix_files os fv; sys_open_wr os path mode w = (fd, w'); 0 \<le> fd\<rbrakk> \<Longrightarrow>
     fv_cont fv w' = (fv_cont fv w)(path \<mapsto> []) \<and> fv_wr fv w' fd = Some path"
  unfolding posix_files_def open_write_law_def by metis

lemma writeD:
  "\<lbrakk>posix_files os fv; sys_write os fd buf w = (n, w'); 0 \<le> n; fv_wr fv w fd = Some path;
    fv_cont fv w path = Some xs\<rbrakk> \<Longrightarrow> nat n \<le> length buf \<and> fv_wr fv w' fd = Some path \<and>
     fv_cont fv w' = (fv_cont fv w)(path \<mapsto> xs @ take (nat n) buf)"
  unfolding posix_files_def write_law_def by metis

lemma closeD: "posix_files os fv \<Longrightarrow> fv_cont fv (sys_close os fd w) = fv_cont fv w"
  unfolding posix_files_def close_law_def by metis

lemma open_rdD:
  "\<lbrakk>posix_files os fv; sys_open_rd os path w = (fd, w'); 0 \<le> fd\<rbrakk> \<Longrightarrow>
     fv_cont fv w' = fv_cont fv w \<and> fv_cont fv w path \<noteq> None \<and> fv_rd fv w' fd = fv_cont fv w path"
  unfolding posix_files_def open_read_law_def by metis

lemma readD:
  "\<lbrakk>posix_files os fv; sys_read os fd k w = (Some bs, w'); fv_rd fv w fd = Some xs\<rbrakk> \<Longrightarrow>
     length bs \<le> k \<and> bs = take (length bs) xs \<and> (bs = [] \<longrightarrow> k = 0 \<or> xs = []) \<and>
     fv_rd fv w' fd = Some (drop (length bs) xs) \<and> fv_cont fv w' = fv_cont fv w"
  unfolding posix_files_def read_law_def by simp

lemma ifs_openD:
  "\<lbrakk>std_files os fv; ifs_open os path w = (Some fd, w')\<rbrakk> \<Longrightarrow>
     fv_cont fv w' = fv_cont fv w \<and> fv_cont fv w path \<noteq> None \<and> fv_rd fv w' fd = fv_cont fv w path"
  unfolding std_files_def by metis

lemma tellgD:
  "\<lbrakk>std_files os fv; ifs_tellg os fd w = (p, w'); 0 \<le> p; fv_rd fv w fd = Some xs\<rbrakk> \<Longrightarrow>
     p = int (length xs) \<and> fv_rd fv w' fd = Some xs \<and> fv_cont fv w' = fv_cont fv w"
  unfolding std_files_def by metis

lemma ifs_readD:
  "\<lbrakk>std_files os fv; ifs_read os fd k w = (Some bs, w'); fv_rd fv w fd = Some xs; k \<le> length xs\<rbrakk> \<Longrightarrow>
     bs = take k xs \<and> fv_cont fv w' = fv_cont fv w"
  unfolding std_files_def by metis

lemma ifs_closeD: "std_files os fv \<Longrightarrow> fv_cont fv (ifs_close os fd w) = fv_cont fv w"
  unfolding std_files_def by metis

lemma w32_create_wrD:
  "\<lbrakk>win32_files os fv; w32_create_wr os path w = (Some h, w')\<rbrakk> \<Longrightarrow>
     fv_cont fv w' = (fv_cont fv w)(path \<mapsto> []) \<and> fv_wr fv w' h = Some path"
  unfolding win32_files_def w32_write_laws_def by metis

lemma w32_closeD: "win32_files os fv \<Longrightarrow> fv_cont fv (w32_CloseHandle os h w) = fv_cont fv w"
  unfolding win32_files_def w32_write_laws_def by metis

lemma w32_is_reparse_pointD:
  assumes "win32_files os fv" and "w32_is_reparse_point os h w = (b, w')"
  shows "fv_cont fv w' = fv_cont fv w" "fv_wr fv w' = fv_wr fv w"
proof -
  obtain a where "w32_file_information os h w = (a, w')"
    using assms(2) by (auto simp: w32_is_reparse_point_def split: prod.splits option.splits)
  then show "fv_cont fv w' = fv_cont fv w" "fv_wr fv w' = fv_wr fv w"
    using assms(1) unfolding win32_files_def w32_write_laws_def by metis+
qed

text \<open>A complete write has appended the whole buffer, and the buffer is shorter than \<open>2 ^ 32\<close>.\<close>

lemma w32_write_allD:
  assumes "win32_files os fv" and "w32_write_all os h data w = (True, w')"
    and "fv_wr fv w h = Some path" and "fv_cont fv w path = Some xs"
  shows "fv_wr fv w' h = Some path" "fv_cont fv w' = (fv_cont fv w)(path \<mapsto> xs @ data)"
proof -
  let ?n = "unat (of_nat (length data) :: u32)"
  obtain n where n: "w32_WriteFile os h (take ?n data) w = (True, n, w')" "unat n = length data"
    using assms(2) by (auto simp: w32_write_all_def split: prod.splits)
  have l: "unat n \<le> length (take ?n data) \<and> fv_wr fv w' h = Some path \<and>
      fv_cont fv w' = (fv_cont fv w)(path \<mapsto> xs @ take (unat n) (take ?n data))"
    using assms(1,3,4) n(1) unfolding win32_files_def w32_write_laws_def by metis
  then have "take (unat n) (take ?n data) = data" using n(2) by simp
  with l show "fv_wr fv w' h = Some path" "fv_cont fv w' = (fv_cont fv w)(path \<mapsto> xs @ data)"
    by simp_all
qed

lemma w32_create_rdD:
  "\<lbrakk>win32_files os fv; w32_create_rd os path w = (Some h, w')\<rbrakk> \<Longrightarrow>
     fv_cont fv w' = fv_cont fv w \<and> fv_cont fv w path \<noteq> None \<and> fv_rd fv w' h = fv_cont fv w path"
  unfolding win32_files_def w32_read_laws_def by metis

lemma w32_readD:
  "\<lbrakk>win32_files os fv; w32_ReadFile os h k w = (True, bs, w'); fv_rd fv w h = Some xs\<rbrakk> \<Longrightarrow>
     length bs \<le> unat k \<and> bs = take (length bs) xs \<and>
     fv_rd fv w' h = Some (drop (length bs) xs) \<and> fv_cont fv w' = fv_cont fv w"
  unfolding win32_files_def w32_read_laws_def by simp

section \<open>Writing\<close>

text \<open>A loop that ends with \<^verbatim>\<open>ok\<close> has appended everything from its start offset on.\<close>

lemma write_loop_appends:
  assumes "write_loop os fd data written w = Some (ok, w')" and "posix_files os fv"
    and "fv_wr fv w fd = Some path" and "fv_cont fv w path = Some xs" and "written \<le> length data" and "ok"
  shows "fv_cont fv w' = (fv_cont fv w)(path \<mapsto> xs @ drop written data) \<and> fv_wr fv w' fd = Some path"
proof -
  let ?P = "\<lambda>os fd data written (w :: 'a) y. \<forall>xs. posix_files os fv \<longrightarrow> fv_wr fv w fd = Some path \<longrightarrow>
    fv_cont fv w path = Some xs \<longrightarrow> written \<le> length data \<longrightarrow> fst y \<longrightarrow>
    fv_cont fv (snd y) = (fv_cont fv w)(path \<mapsto> xs @ drop written data) \<and> fv_wr fv (snd y) fd = Some path"
  have "?P os fd data written w (ok, w')"
  proof (rule write_loop.raw_induct [where P = ?P, OF _ assms(1)], goal_cases)
    case (1 f os fd data written w y)
    show ?case
    proof (cases "written < length data")
      case True
      obtain n w1 where n: "sys_write os fd (drop written data) w = (n, w1)"
        by fastforce
      show ?thesis
      proof (intro allI impI)
        fix xs
        assume a: "posix_files os fv" "fv_wr fv w fd = Some path" "fv_cont fv w path = Some xs"
          "written \<le> length data" "fst y"
        from 1(2) True n a(5) have pos: "0 \<le> n" and r: "f os fd data (written + nat n) w1 = Some y"
          by (auto split: if_splits)
        note l = writeD [OF a(1) n pos a(2,3)]
        have "take (nat n) (drop written data) @ drop (written + nat n) data = drop written data"
          using append_take_drop_id [of "nat n" "drop written data"] by (simp add: add.commute)
        with 1(1) [OF r] l a True show "fv_cont fv (snd y) = (fv_cont fv w)(path \<mapsto> xs @ drop written data)
            \<and> fv_wr fv (snd y) fd = Some path"
          by fastforce
      qed
    next
      case False
      with 1(2) have "y = (True, w)" by auto
      with False show ?thesis
        by (auto simp: fun_eq_iff)
    qed
  qed
  with assms(2-6) show ?thesis by simp
qed

lemma write_loop_returns:
  assumes "write_progress os" and "sys_target os \<noteq> OsWindows"
    and "posix_files os fv" and "fv_wr fv w fd = Some path" and "fv_cont fv w path = Some xs"
    and "written \<le> length data"
  shows "\<exists>ok w'. write_loop os fd data written w = Some (ok, w')"
  using assms(4-6)
proof (induction "length data - written" arbitrary: written w xs rule: less_induct)
  case less
  show ?case
  proof (cases "written < length data")
    case True
    obtain n w1 where n: "sys_write os fd (drop written data) w = (n, w1)"
      by fastforce
    have "n \<noteq> 0"
      using assms(1,2) n True unfolding write_progress_def by (metis drop_eq_Nil fst_conv not_less)
    show ?thesis
    proof (cases "n < 0")
      case True
      with n \<open>written < length data\<close> show ?thesis
        by (subst write_loop.simps) auto
    next
      case False
      note l = writeD [OF assms(3) n _ less.prems(1,2)]
      have "\<exists>ok w'. write_loop os fd data (written + nat n) w1 = Some (ok, w')"
        using l False \<open>n \<noteq> 0\<close> \<open>written < length data\<close>
        by (intro less.hyps [where xs = "xs @ take (nat n) (drop written data)"]) auto
      with n False \<open>written < length data\<close> show ?thesis
        by (subst write_loop.simps) simp
    qed
  next
    case False
    then show ?thesis
      by (subst write_loop.simps) auto
  qed
qed

lemma write_file_posix_contents:
  assumes "posix_files os fv" and "write_file_posix os path data w = Some (Inr (), w')"
  shows "fv_cont fv w' = (fv_cont fv w)(path \<mapsto> data)"
proof -
  obtain fd w1 where o: "sys_open_wr os path (6 * 64 + 4 * 8 + 4) w = (fd, w1)"
    by fastforce
  with assms(2) obtain w2 where l: "0 \<le> fd" "write_loop os fd data 0 w1 = Some (True, w2)"
    "w' = sys_close os fd w2"
    by (auto simp: write_file_posix_def Let_def split: if_splits option.splits prod.splits)
  note od = open_wrD [OF assms(1) o l(1)]
  with write_loop_appends [OF l(2) assms(1), of path "[]"] closeD [OF assms(1)] show ?thesis
    by (simp add: l(3))
qed

lemma write_file_posix_returns:
  assumes "posix_files os fv" and "write_progress os" and "sys_target os \<noteq> OsWindows"
  shows "\<exists>r w'. write_file_posix os path data w = Some (r, w') \<and> (r = Inr () \<or> (\<exists>m. r = Inl (IoError m)))"
proof -
  obtain fd w1 where o: "sys_open_wr os path (6 * 64 + 4 * 8 + 4) w = (fd, w1)"
    by fastforce
  show ?thesis
  proof (cases "fd < 0")
    case True
    with o show ?thesis by (simp add: write_file_posix_def)
  next
    case False
    note od = open_wrD [OF assms(1) o]
    with False obtain ok w2 where "write_loop os fd data 0 w1 = Some (ok, w2)"
      using write_loop_returns [OF assms(2,3,1), of w1 fd path "[]" 0 data] by auto
    with False o show ?thesis by (auto simp: write_file_posix_def Let_def)
  qed
qed

lemma write_file_win32_contents:
  assumes "win32_files os fv" and "write_file_win32 os path data w = Some (Inr (), w')"
  shows "fv_cont fv w' = (fv_cont fv w)(path \<mapsto> data)"
proof -
  from assms(2) obtain h w1 w2 where o: "w32_create_wr os path w = (Some h, w1)"
    "w32_is_reparse_point os h w1 = (False, w2)"
    by (auto simp: write_file_win32_def split: prod.splits option.splits if_splits)
  have od: "fv_cont fv w2 = (fv_cont fv w)(path \<mapsto> [])" "fv_wr fv w2 h = Some path"
    using w32_create_wrD [OF assms(1) o(1)] w32_is_reparse_pointD [OF assms(1) o(2)] by simp_all
  show ?thesis
  proof (cases "data = []")
    case True
    with assms(2) o od w32_closeD [OF assms(1)] show ?thesis by (auto simp: write_file_win32_def)
  next
    case False
    with assms(2) o obtain w3 where "w32_write_all os h data w2 = (True, w3)" "w' = w32_CloseHandle os h w3"
      by (auto simp: write_file_win32_def Let_def split: prod.splits if_splits)
    with w32_write_allD [OF assms(1) this(1), of path "[]"] od w32_closeD [OF assms(1)] show ?thesis by simp
  qed
qed

lemma write_file_win32_returns:
  "\<exists>r w'. write_file_win32 os path data w = Some (r, w') \<and> (r = Inr () \<or> (\<exists>m. r = Inl (IoError m)))"
  by (auto simp: write_file_win32_def Let_def split: prod.split option.split)

lemma write_file_contents:
  assumes "files_documented os fv" and "write_file os path data w = Some (Inr (), w')"
  shows "fv_cont fv w' = (fv_cont fv w)(path \<mapsto> data)"
  using assms files_documentedD [OF assms(1)] write_file_win32_contents write_file_posix_contents
  by (cases "sys_target os") (auto simp: write_file_def)

lemma write_file_returns:
  assumes "files_documented os fv" and "write_progress os"
  shows "\<exists>r w'. write_file os path data w = Some (r, w') \<and> (r = Inr () \<or> (\<exists>m. r = Inl (IoError m)))"
  using files_documentedD [OF assms(1)] write_file_win32_returns [of os path data w]
    write_file_posix_returns [OF _ assms(2), of fv path data w]
  by (cases "sys_target os") (simp_all add: write_file_def)

section \<open>Reading\<close>

lemma read_file_contents:
  assumes "files_documented os fv" and "read_file os path w = Some (Inr data, w')"
  shows "fv_cont fv w path = Some data"
proof -
  obtain h w1 where o: "ifs_open os path w = (Some h, w1)"
    using assms(2) by (auto simp: read_file_def split: prod.splits option.splits)
  obtain sz w2 where t: "ifs_tellg os h w1 = (sz, w2)"
    by fastforce
  have pos: "0 \<le> sz"
    using assms(2) o t by (auto simp: read_file_def split: if_splits)
  obtain xs where xs: "fv_cont fv w path = Some xs" "fv_rd fv w1 h = Some xs"
    using ifs_openD [OF files_documentedD(1) [OF assms(1)] o] by auto
  note tg = tellgD [OF files_documentedD(1) [OF assms(1)] t pos xs(2)]
  show ?thesis
  proof (cases "sz = 0")
    case True
    with assms(2) o t xs tg show ?thesis by (auto simp: read_file_def)
  next
    case False
    with assms(2) o t pos obtain w3 where "ifs_read os h (nat sz) w2 = (Some data, w3)"
      by (auto simp: read_file_def split: prod.splits option.splits)
    from ifs_readD [OF files_documentedD(1) [OF assms(1)] this] tg xs show ?thesis by simp
  qed
qed

lemma read_file_keeps_files:
  assumes "files_documented os fv" and "read_file os path w = Some (Inr data, w')"
  shows "fv_cont fv w' = fv_cont fv w"
proof -
  obtain h w1 where o: "ifs_open os path w = (Some h, w1)"
    using assms(2) by (auto simp: read_file_def split: prod.splits option.splits)
  obtain sz w2 where t: "ifs_tellg os h w1 = (sz, w2)"
    by fastforce
  have pos: "0 \<le> sz"
    using assms(2) o t by (auto simp: read_file_def split: if_splits)
  obtain xs where xs: "fv_cont fv w1 = fv_cont fv w" "fv_rd fv w1 h = Some xs"
    using ifs_openD [OF files_documentedD(1) [OF assms(1)] o] by auto
  note tg = tellgD [OF files_documentedD(1) [OF assms(1)] t pos xs(2)]
  show ?thesis
  proof (cases "sz = 0")
    case True
    with assms(2) o t xs tg ifs_closeD [OF files_documentedD(1) [OF assms(1)]] show ?thesis by (auto simp: read_file_def)
  next
    case False
    with assms(2) o t pos obtain w3 where "ifs_read os h (nat sz) w2 = (Some data, w3)" "w' = ifs_close os h w3"
      by (auto simp: read_file_def split: prod.splits option.splits)
    with ifs_readD [OF files_documentedD(1) [OF assms(1)] this(1)] tg xs ifs_closeD [OF files_documentedD(1) [OF assms(1)]] show ?thesis by simp
  qed
qed

lemma read_file_returns:
  "\<exists>r w'. read_file os path w = Some (r, w') \<and> ((\<exists>data. r = Inr data) \<or> (\<exists>m. r = Inl (IoError m)))"
  by (auto simp: read_file_def split: prod.split option.split)

text \<open>Reading back what was written.\<close>

lemma read_after_write:
  assumes "files_documented os fv" and "write_file os path data w = Some (Inr (), w1)"
  shows "\<exists>r w2. read_file os path w1 = Some (r, w2) \<and> (r = Inr data \<or> (\<exists>m. r = Inl (IoError m)))"
  using read_file_returns [of os path w1] read_file_contents [OF assms(1), of path w1]
    write_file_contents [OF assms]
  by fastforce

section \<open>An in-memory file system\<close>

text \<open>
  Descriptors are numbered from 3; every \<^verbatim>\<open>write\<close> and \<^verbatim>\<open>read\<close> moves at most 5 bytes, so the
  loops of the library run several times. \<^verbatim>\<open>getrandom\<close> delivers at most 7 bytes per call
  and is interrupted on every third call.
\<close>

record mem_world =
  mw_files :: "string \<Rightarrow> bytes option"
  mw_fds :: "int \<Rightarrow> (string \<times> nat) option"
  mw_next :: int
  mw_calls :: nat

definition mem_rest :: "mem_world \<Rightarrow> int \<Rightarrow> bytes option" where
  "mem_rest w fd = (case mw_fds w fd of None \<Rightarrow> None
     | Some (path, off) \<Rightarrow> map_option (drop off) (mw_files w path))"

definition mem_posix :: "mem_world system" where
  "mem_posix =
     \<lparr>sys_target = OsLinux,
      sys_getrandom = (\<lambda>k w.
        (if mw_calls w mod 3 = 2 then GrEintr
         else GrBytes (map (\<lambda>i. of_nat (mw_calls w + i)) [0..<min 7 k]),
         w\<lparr>mw_calls := mw_calls w + 1\<rparr>)),
      sys_arc4random_buf = (\<lambda>k w. (map of_nat [0..<k], w)),
      sys_open_wr = (\<lambda>path mode w. (mw_next w,
        w\<lparr>mw_files := (mw_files w)(path \<mapsto> []), mw_fds := (mw_fds w)(mw_next w \<mapsto> (path, 0)),
          mw_next := mw_next w + 1\<rparr>)),
      sys_open_rd = (\<lambda>path w. if mw_files w path = None then (- 1, w)
        else (mw_next w, w\<lparr>mw_fds := (mw_fds w)(mw_next w \<mapsto> (path, 0)), mw_next := mw_next w + 1\<rparr>)),
      sys_write = (\<lambda>fd buf w. case mw_fds w fd of None \<Rightarrow> (- 1, w)
        | Some (path, off) \<Rightarrow> (case mw_files w path of None \<Rightarrow> (- 1, w)
            | Some xs \<Rightarrow> (int (min 5 (length buf)),
                w\<lparr>mw_files := (mw_files w)(path \<mapsto> xs @ take 5 buf)\<rparr>))),
      sys_read = (\<lambda>fd k w. case mem_rest w fd of None \<Rightarrow> (None, w)
        | Some xs \<Rightarrow> (Some (take (min 5 k) xs), w\<lparr>mw_fds := (mw_fds w)(fd :=
            map_option (\<lambda>(path, off). (path, off + length (take (min 5 k) xs))) (mw_fds w fd))\<rparr>)),
      sys_close = (\<lambda>fd w. w\<lparr>mw_fds := (mw_fds w)(fd := None)\<rparr>),
      w32_BCryptGenRandom = (\<lambda>k w. (Some (map of_nat [0..<unat k]), w)),
      w32_create_wr = (\<lambda>path w. (Some (mw_next w),
        w\<lparr>mw_files := (mw_files w)(path \<mapsto> []), mw_fds := (mw_fds w)(mw_next w \<mapsto> (path, 0)),
          mw_next := mw_next w + 1\<rparr>)),
      w32_create_rd = (\<lambda>path w. if mw_files w path = None then (None, w)
        else (Some (mw_next w), w\<lparr>mw_fds := (mw_fds w)(mw_next w \<mapsto> (path, 0)),
          mw_next := mw_next w + 1\<rparr>)),
      w32_file_information = (\<lambda>h w. (Some 0x80, w)),
      w32_WriteFile = (\<lambda>h buf w. case mw_fds w h of None \<Rightarrow> (False, 0, w)
        | Some (path, off) \<Rightarrow> (case mw_files w path of None \<Rightarrow> (False, 0, w)
            | Some xs \<Rightarrow> if length buf < 2 ^ 32
                then (True, of_nat (length buf), w\<lparr>mw_files := (mw_files w)(path \<mapsto> xs @ buf)\<rparr>)
                else (False, 0, w))),
      w32_ReadFile = (\<lambda>h k w. case mem_rest w h of None \<Rightarrow> (False, [], w)
        | Some xs \<Rightarrow> (True, take (unat k) xs, w\<lparr>mw_fds := (mw_fds w)(h :=
            map_option (\<lambda>(path, off). (path, off + length (take (unat k) xs))) (mw_fds w h))\<rparr>)),
      w32_CloseHandle = (\<lambda>h w. w\<lparr>mw_fds := (mw_fds w)(h := None)\<rparr>),
      ifs_open = (\<lambda>path w. if mw_files w path = None then (None, w)
        else (Some (mw_next w), w\<lparr>mw_fds := (mw_fds w)(mw_next w \<mapsto> (path, 0)),
          mw_next := mw_next w + 1\<rparr>)),
      ifs_tellg = (\<lambda>fd w. (case mem_rest w fd of None \<Rightarrow> - 1 | Some xs \<Rightarrow> int (length xs), w)),
      ifs_read = (\<lambda>fd k w. (map_option (take k) (mem_rest w fd), w)),
      ifs_close = (\<lambda>fd w. w\<lparr>mw_fds := (mw_fds w)(fd := None)\<rparr>)\<rparr>"

text \<open>The same world behind the Win32 calls.\<close>

definition mem_win32 :: "mem_world system" where
  "mem_win32 = mem_posix\<lparr>sys_target := OsWindows\<rparr>"

definition mem_view :: "mem_world file_view" where
  "mem_view =
     \<lparr>fv_cont = mw_files, fv_wr = (\<lambda>w fd. map_option fst (mw_fds w fd)), fv_rd = mem_rest\<rparr>"

definition mem_start :: mem_world where
  "mem_start = \<lparr>mw_files = (\<lambda>_. None), mw_fds = (\<lambda>_. None), mw_next = 3, mw_calls = 0\<rparr>"

lemma mem_target [simp]: "sys_target mem_posix = OsLinux" "sys_target mem_win32 = OsWindows"
  by (simp_all add: mem_posix_def mem_win32_def)

lemma take_min_length: "take (min (length xs - b) k) (drop b xs) = take k (drop b xs)"
  by (simp add: min_def)

lemma mem_open_write_law: "open_write_law mem_posix mem_view"
  by (auto simp: open_write_law_def mem_posix_def mem_view_def)

lemma mem_write_law: "write_law mem_posix mem_view"
  by (auto simp: write_law_def mem_posix_def mem_view_def min_def split: option.splits)

lemma mem_close_law: "close_law mem_posix mem_view"
  by (simp add: close_law_def mem_posix_def mem_view_def)

lemma mem_open_read_law: "open_read_law mem_posix mem_view"
  by (auto simp: open_read_law_def mem_posix_def mem_view_def mem_rest_def split: if_splits)

lemma mem_read_law: "read_law mem_posix mem_view"
  by (auto simp: read_law_def mem_posix_def mem_view_def mem_rest_def add.commute take_min_length
      split: option.splits)

lemma mem_std_files: "std_files mem_posix mem_view"
  by (auto simp: std_files_def mem_posix_def mem_view_def mem_rest_def split: option.splits if_splits)

lemma mem_w32_write_laws: "w32_write_laws mem_win32 mem_view"
  by (auto simp: w32_write_laws_def mem_win32_def mem_posix_def mem_view_def unsigned_of_nat
      take_bit_nat_eq_self split: option.splits if_splits)

lemma mem_w32_read_laws: "w32_read_laws mem_win32 mem_view"
  by (auto simp: w32_read_laws_def mem_win32_def mem_posix_def mem_view_def mem_rest_def add.commute
      take_min_length split: option.splits if_splits)

lemma mem_files_documented: "files_documented mem_posix mem_view"
  using mem_std_files mem_open_write_law mem_write_law mem_close_law mem_open_read_law mem_read_law
  by (simp add: files_documented_def posix_files_def mem_posix_def)

lemma mem_win32_documented: "files_documented mem_win32 mem_view"
  using mem_std_files mem_w32_write_laws mem_w32_read_laws
  by (simp add: files_documented_def win32_files_def std_files_def mem_win32_def)

lemma mem_write_progress: "write_progress mem_posix" "write_progress mem_win32"
  by (auto simp: write_progress_def mem_win32_def mem_posix_def split: option.splits)

text \<open>The random sources: as documented, and with an answer for a nonce.\<close>

lemma mem_random_documented: "random_documented mem_posix" "random_documented mem_win32"
  by (auto simp: random_documented_def getrandom_law_def mem_win32_def mem_posix_def split: if_splits)

lemma mem_fill_12: "fill_random mem_posix 12 mem_start =
    Some (Inr [0, 1, 2, 3, 4, 5, 6, 1, 2, 3, 4, 5], mem_start\<lparr>mw_calls := 2\<rparr>)"
  by (simp add: fill_random_def fill_random_linux_def fill_random_loop.simps mem_posix_def mem_start_def upt_rec_numeral
      upt_conv_Cons numeral_2_eq_2 [symmetric])

text \<open>The Linux source is interrupted on every third call only.\<close>

lemma mem_getrandom_progress:
  "getrandom_progress mem_posix (\<lambda>w. if mw_calls w mod 3 = 2 then 1 else 0)"
  "getrandom_progress mem_win32 m"
  by (auto simp: getrandom_progress_def mem_win32_def mem_posix_def) presburger

section \<open>Properties\<close>

text \<open>
  C25. Saving a container and loading it back: on a file system that behaves as documented
  (POSIX, with short writes, or Win32), the save returns success or \<^verbatim>\<open>IoError\<close>; after a successful
  save the load returns, and yields the same container or an \<^verbatim>\<open>IoError\<close>, never another
  container and never a format error. The file then holds exactly the serialization.
\<close>

theorem container_save_load_roundtrip:
  assumes "files_documented os fv" and "write_progress os"
    and "length (ct_nonce c) = 12" and "length (ct_ciphertext c) < 2 ^ 64"
  shows "(\<exists>w1. save_container os c path w = Some (Inr (), w1) \<and>
      fv_cont fv w1 path = Some (serialize c) \<and>
      (\<exists>r w2. load_container os path w1 = Some (r, w2) \<and> (r = Inr c \<or> (\<exists>m. r = Inl (IoError m))))) \<or>
    (\<exists>m w1. save_container os c path w = Some (Inl (IoError m), w1))"
proof -
  have d: "deserialize (serialize c) = Inr c"
    using assms(3,4) by (intro ctr_file.dec_enc) (simp add: container_valid_def)
  obtain r w1 where s: "write_file os path (serialize c) w = Some (r, w1)"
    "r = Inr () \<or> (\<exists>m. r = Inl (IoError m))"
    using write_file_returns [OF assms(1,2)] by blast
  have "\<exists>r w2. load_container os path w1 = Some (r, w2) \<and> (r = Inr c \<or> (\<exists>m. r = Inl (IoError m)))"
    if ok: "r = Inr ()"
  proof -
    obtain r2 w2 where "read_file os path w1 = Some (r2, w2)"
      "r2 = Inr (serialize c) \<or> (\<exists>m. r2 = Inl (IoError m))"
      using read_after_write [OF assms(1) s(1) [unfolded ok]] by blast
    with d show ?thesis
      by (auto simp: load_container_def)
  qed
  with s write_file_contents [OF assms(1), of path "serialize c" w w1] show ?thesis
    by (auto simp: save_container_def)
qed

theorem container_save_load_roundtrip_witness:
  "let c = \<lparr>ct_nonce = replicate 12 3, ct_ciphertext = [1, 2, 3]\<rparr> in
   (\<exists>w1. save_container mem_posix c ''f'' mem_start = Some (Inr (), w1) \<and>
      fv_cont mem_view w1 ''f'' = Some (serialize c) \<and>
      (\<exists>r w2. load_container mem_posix ''f'' w1 = Some (r, w2) \<and>
         (r = Inr c \<or> (\<exists>m. r = Inl (IoError m))))) \<or>
   (\<exists>m w1. save_container mem_posix c ''f'' mem_start = Some (Inl (IoError m), w1))"
  unfolding Let_def
  by (rule container_save_load_roundtrip [OF mem_files_documented mem_write_progress(1)]) simp_all

text \<open>
  C30. The random source on every system: where the system calls behave as documented, and
  \<^verbatim>\<open>getrandom\<close> is not interrupted forever, \<^verbatim>\<open>fill_random\<close> returns. It throws nothing but
  \<^verbatim>\<open>IoError\<close>, and when it succeeds the whole buffer has been filled, on Windows only if
  its size fits 32 bits: of a larger buffer only the size modulo \<open>2 ^ 32\<close> is filled there,
  without an error.
\<close>

theorem fill_random_fills_buffer:
  assumes "random_documented os" and "getrandom_progress os m"
  shows "\<exists>r w'. fill_random os sz w = Some (r, w') \<and>
    (case r of
       Inl e \<Rightarrow> \<exists>msg. e = IoError msg
     | Inr bs \<Rightarrow> length bs = (if sys_target os = OsWindows then sz mod 2 ^ 32 else sz))"
proof -
  obtain r w' where f: "fill_random os sz w = Some (r, w')"
    using fill_random_returns [OF assms(2)] by fastforce
  then show ?thesis
    using fill_random_error [of os sz w _ w'] fill_random_win32_length [OF assms(1)]
      fill_random_posix_length [OF assms(1)]
    by (cases r) auto
qed

theorem fill_random_fills_buffer_witness:
  "(\<exists>r w'. fill_random mem_posix 20 mem_start = Some (r, w') \<and>
     (case r of Inl e \<Rightarrow> \<exists>msg. e = IoError msg | Inr bs \<Rightarrow> length bs = 20)) \<and>
   (\<exists>r w'. fill_random mem_win32 (2 ^ 32 + 5) mem_start = Some (r, w') \<and>
     (case r of Inl e \<Rightarrow> \<exists>msg. e = IoError msg | Inr bs \<Rightarrow> length bs = 5))"
  using fill_random_fills_buffer [OF mem_random_documented(1) mem_getrandom_progress(1), of 20 mem_start]
    fill_random_fills_buffer [OF mem_random_documented(2) mem_getrandom_progress(2), of "2 ^ 32 + 5" mem_start]
  by (simp cong del: sum.case_cong_weak)

end
