(* ===== verification/Ghash.thy ===== *)
theory Ghash
  imports Shift_Field Byte_Codec
begin

text \<open>
  The GHASH function of AES-GCM, \<^verbatim>\<open>src/ghash.cpp\<close>: the big-endian loads and stores, the
  branch-free bit-serial product \<^verbatim>\<open>gf128_mul\<close> on two 64-bit halves, the block folding
  loop and \<^verbatim>\<open>ghash\<close>. A \<^verbatim>\<open>Block\<close> is a list of 16 bytes.
\<close>

section \<open>Definitions\<close>

definition kBlockSizeBytes :: nat where
  "kBlockSizeBytes = 16"

definition load_be64 :: "bytes \<Rightarrow> u64" where
  "load_be64 p = fold (\<lambda>i v. push_bit 8 v OR ucast (p ! i)) [0..<8] 0"

text \<open>The store loop writes \<^verbatim>\<open>p[7]\<close> first and shifts; \<open>k\<close> bytes remain to be written.\<close>

primrec store_be64_loop :: "nat \<Rightarrow> u64 \<Rightarrow> bytes" where
  "store_be64_loop 0 v = []"
| "store_be64_loop (Suc k) v = store_be64_loop k (drop_bit 8 v) @ [ucast (v AND 0xff)]"

definition store_be64 :: "u64 \<Rightarrow> bytes" where
  "store_be64 v = store_be64_loop 8 v"

type_synonym gf128_regs = "u64 \<times> u64 \<times> u64 \<times> u64"

definition kRHi :: u64 where
  "kRHi = 0xE100000000000000"

text \<open>One iteration of the loop of \<^verbatim>\<open>gf128_mul\<close> on \<open>(z_hi, z_lo, v_hi, v_lo)\<close>.\<close>

fun gf128_step :: "u64 \<Rightarrow> u64 \<Rightarrow> nat \<Rightarrow> gf128_regs \<Rightarrow> gf128_regs" where
  "gf128_step y_hi y_lo i (z_hi, z_lo, v_hi, v_lo) =
     (let ybit = (if i < 64 then drop_bit (63 - i) y_hi AND 1
                  else drop_bit (63 - (i - 64)) y_lo AND 1);
          zmask = 0 - ybit;
          z_hi = z_hi XOR (zmask AND v_hi);
          z_lo = z_lo XOR (zmask AND v_lo);
          lsb = v_lo AND 1;
          new_lo = drop_bit 1 v_lo OR push_bit 63 (v_hi AND 1);
          new_hi = drop_bit 1 v_hi;
          rmask = 0 - lsb
      in (z_hi, z_lo, new_hi XOR (rmask AND kRHi), new_lo))"

definition gf128_mul :: "bytes \<Rightarrow> bytes \<Rightarrow> bytes" where
  "gf128_mul x y =
     (let v_hi = load_be64 x; v_lo = load_be64 (drop 8 x);
          y_hi = load_be64 y; y_lo = load_be64 (drop 8 y)
      in case fold (gf128_step y_hi y_lo) [0..<128] (0, 0, v_hi, v_lo) of
           (z_hi, z_lo, _, _) \<Rightarrow> store_be64 z_hi @ store_be64 z_lo)"

text \<open>The loop of \<^verbatim>\<open>fold_into\<close>, by the offset of the next chunk.\<close>

function fold_into :: "bytes \<Rightarrow> bytes \<Rightarrow> bytes \<Rightarrow> nat \<Rightarrow> bytes" where
  "fold_into y h data offset =
     (if offset < length data then
        let chunk = min kBlockSizeBytes (length data - offset);
            block = fold (\<lambda>i b. b[i := data ! (offset + i)]) [0..<chunk]
                      (replicate kBlockSizeBytes 0);
            y = map (\<lambda>i. y ! i XOR block ! i) [0..<kBlockSizeBytes]
        in fold_into (gf128_mul y h) h data (offset + chunk)
      else y)"
  by pat_completeness auto
termination
  by (relation "measure (\<lambda>(y, h, data, offset). length data - offset)")
    (auto simp: kBlockSizeBytes_def)

declare fold_into.simps [simp del]

definition ghash :: "bytes \<Rightarrow> bytes \<Rightarrow> bytes \<Rightarrow> bytes" where
  "ghash h aad ciphertext =
     (let y = replicate kBlockSizeBytes 0;
          y = fold_into y h aad 0;
          y = fold_into y h ciphertext 0;
          len_block = store_be64 (of_nat (length aad) * 8) @
                      store_be64 (of_nat (length ciphertext) * 8);
          y = map (\<lambda>i. y ! i XOR len_block ! i) [0..<kBlockSizeBytes]
      in gf128_mul y h)"

section \<open>Loads and stores\<close>

lemma upt_8: "[0..<8] = [0, 1, 2, 3, 4, 5, 6, 7 :: nat]"
  by (simp add: upt_rec_numeral upt_conv_Cons numeral_2_eq_2 [symmetric])

lemma load_be64_decode:
  assumes "8 \<le> length p"
  shows "load_be64 p = be_decode (take 8 p)"
proof -
  have "fold (\<lambda>i v. push_bit 8 v OR ucast (p ! i)) [0..<k] 0 = (be_decode (take k p) :: u64)"
    if "k \<le> 8" for k
    using that
  proof (induction k)
    case 0
    then show ?case by (simp add: be_decode_def)
  next
    case (Suc k)
    with assms show ?case
      by (simp add: take_Suc_conv_app_nth be_decode_snoc)
  qed
  then show ?thesis
    by (simp add: load_be64_def)
qed

lemma store_be64_encode: "store_be64 v = be_encode 8 v"
proof -
  have "store_be64_loop k v = be_encode k v" for k
    by (induction k arbitrary: v) (simp_all add: be_encode_Suc ucast_and_255, simp add: be_encode_def)
  then show ?thesis
    by (simp add: store_be64_def)
qed

section \<open>The product over 128-bit words\<close>

text \<open>
  NIST SP 800-38D, algorithm 1, on the block read as one 128-bit word: the leftmost bit
  of the string is bit 127, and a right shift that loses a one adds \<open>R = 11100001 || 0^120\<close>.
\<close>

definition gf128_shift :: "128 word \<Rightarrow> 128 word" where
  "gf128_shift v = drop_bit 1 v XOR (if bit v 0 then 0xE1000000000000000000000000000000 else 0)"

definition gf128_spec :: "128 word \<Rightarrow> 128 word \<Rightarrow> 128 word" where
  "gf128_spec x y = xorsum (\<lambda>i. if bit y (127 - i) then (gf128_shift ^^ i) x else 0) 128"

definition gf128_one :: "128 word" where
  "gf128_one = push_bit 127 1"

lemma gf128_shift_xor: "gf128_shift (x XOR y) = gf128_shift x XOR gf128_shift y"
  by (auto simp: gf128_shift_def drop_bit_xor bit_xor_iff xor_ac)

lemma gf128_shift_one: "i < 128 \<Longrightarrow> (gf128_shift ^^ i) gf128_one = push_bit (127 - i) 1"
proof (induction i)
  case (Suc i)
  then have "(gf128_shift ^^ Suc i) gf128_one = gf128_shift (push_bit (127 - i) 1)"
    by simp
  also have "\<dots> = push_bit (127 - Suc i) 1"
  proof (rule bit_word_eqI)
    fix k
    assume "k < LENGTH(128)"
    with Suc.prems show "bit (gf128_shift (push_bit (127 - i) 1)) k =
        bit (push_bit (127 - Suc i) 1 :: 128 word) k"
      by (auto simp: gf128_shift_def bit_drop_bit_eq bit_exp_iff)
  qed
  finally show ?case .
qed (simp add: gf128_one_def)

interpretation gf128: shift_field 128 gf128_shift "\<lambda>y i. bit y (127 - i)" gf128_one gf128_spec
proof
  show "y = xorsum (\<lambda>i. if bit y (127 - i) then (gf128_shift ^^ i) gf128_one else 0) 128"
    for y :: "128 word"
  proof -
    have "xorsum (\<lambda>i. if bit y (127 - i) then (gf128_shift ^^ i) gf128_one else 0) 128 =
        xorsum (\<lambda>i. if bit y (127 - i) then push_bit (127 - i) 1 else 0) 128"
      by (rule xorsum_cong) (simp add: gf128_shift_one)
    also have "\<dots> = y"
    proof (rule xorsum_basis [of "\<lambda>i. 127 - i" y, simplified])
      show "inj_on (\<lambda>i. 127 - i) {..<128 :: nat}"
        by (auto intro!: inj_onI)
      show "(\<lambda>i. 127 - i) ` {..<128 :: nat} = {..<128}"
        by (auto intro: image_eqI [of k "\<lambda>i. 127 - i" "127 - k" for k])
    qed
    finally show ?thesis by simp
  qed
qed (simp_all add: gf128_shift_xor gf128_spec_def bit_xor_iff)

section \<open>The two-register loop computes the product\<close>

definition join64 :: "u64 \<Rightarrow> u64 \<Rightarrow> 128 word" where
  "join64 hi lo = push_bit 64 (ucast hi) OR ucast lo"

lemma bit_join64: "bit (join64 hi lo) k \<longleftrightarrow> (if k < 64 then bit lo k else bit hi (k - 64))"
  by (auto simp: join64_def bit_or_iff bit_push_bit_iff bit_ucast_iff dest: bit_imp_le_length)

lemma join64_0 [simp]: "join64 0 0 = 0"
  by (simp add: join64_def)

lemma join64_xor: "join64 (a XOR b) (c XOR d) = join64 a c XOR join64 b d"
  by (rule bit_word_eqI) (simp add: bit_join64 bit_xor_iff)

lemma join64_mask:
  "join64 ((0 - (b AND 1)) AND hi) ((0 - (b AND 1)) AND lo) =
     (if bit b 0 then join64 hi lo else 0)" for b :: u64
  using and_mask_bit0 [of hi b] and_mask_bit0 [of lo b] by (simp add: and.commute)

lemma join64_shift:
  "join64 (drop_bit 1 hi) (drop_bit 1 lo OR push_bit 63 (hi AND 1)) = drop_bit 1 (join64 hi lo)"
proof (rule bit_word_eqI)
  fix k
  assume "k < LENGTH(128)"
  then have "k < 63 \<or> k = 63 \<or> 64 \<le> k" by auto
  moreover have "64 \<le> k \<Longrightarrow> Suc (k - 64) = k - 63" by simp
  ultimately show "bit (join64 (drop_bit 1 hi) (drop_bit 1 lo OR push_bit 63 (hi AND 1))) k =
      bit (drop_bit 1 (join64 hi lo)) k"
    by (elim disjE) (auto simp: bit_join64 bit_drop_bit_eq bit_or_iff bit_push_bit_iff bit_and_iff
        bit_1_iff Suc_diff_le dest: bit_imp_le_length)
qed

lemma join64_reduce:
  "join64 (drop_bit 1 hi XOR ((0 - (lo AND 1)) AND kRHi))
     (drop_bit 1 lo OR push_bit 63 (hi AND 1)) = gf128_shift (join64 hi lo)"
proof -
  have "join64 (drop_bit 1 hi XOR ((0 - (lo AND 1)) AND kRHi))
      (drop_bit 1 lo OR push_bit 63 (hi AND 1)) =
      drop_bit 1 (join64 hi lo) XOR join64 ((0 - (lo AND 1)) AND kRHi) ((0 - (lo AND 1)) AND 0)"
    using join64_xor [of "drop_bit 1 hi" "(0 - (lo AND 1)) AND kRHi"
        "drop_bit 1 lo OR push_bit 63 (hi AND 1)" 0]
    by (simp add: join64_shift [simplified])
  also have "\<dots> = gf128_shift (join64 hi lo)"
  proof -
    have "join64 kRHi 0 = 0xE1000000000000000000000000000000"
      by (simp add: join64_def kRHi_def)
    then show ?thesis
      unfolding join64_mask gf128_shift_def by (simp add: bit_join64)
  qed
  finally show ?thesis .
qed

text \<open>The loop invariant after \<open>k\<close> iterations.\<close>

lemma gf128_loop:
  assumes "k \<le> 128"
  shows "\<exists>z_hi z_lo w_hi w_lo.
    fold (gf128_step y_hi y_lo) [0..<k] (0, 0, v_hi, v_lo) = (z_hi, z_lo, w_hi, w_lo) \<and>
    join64 z_hi z_lo = xorsum (\<lambda>i. if bit (join64 y_hi y_lo) (127 - i)
      then (gf128_shift ^^ i) (join64 v_hi v_lo) else 0) k \<and>
    join64 w_hi w_lo = (gf128_shift ^^ k) (join64 v_hi v_lo)"
  using assms
proof (induction k)
  case (Suc k)
  then obtain z_hi z_lo w_hi w_lo where
    IH: "fold (gf128_step y_hi y_lo) [0..<k] (0, 0, v_hi, v_lo) = (z_hi, z_lo, w_hi, w_lo)"
      "join64 z_hi z_lo = xorsum (\<lambda>i. if bit (join64 y_hi y_lo) (127 - i)
         then (gf128_shift ^^ i) (join64 v_hi v_lo) else 0) k"
      "join64 w_hi w_lo = (gf128_shift ^^ k) (join64 v_hi v_lo)"
    by auto
  define yb where "yb = (if k < 64 then drop_bit (63 - k) y_hi else drop_bit (63 - (k - 64)) y_lo)"
  have yb: "bit yb 0 = bit (join64 y_hi y_lo) (127 - k)"
    using Suc.prems by (auto simp: yb_def bit_join64 bit_drop_bit_eq)
  have "gf128_step y_hi y_lo k (z_hi, z_lo, w_hi, w_lo) =
      (z_hi XOR ((0 - (yb AND 1)) AND w_hi), z_lo XOR ((0 - (yb AND 1)) AND w_lo),
       drop_bit 1 w_hi XOR ((0 - (w_lo AND 1)) AND kRHi),
       drop_bit 1 w_lo OR push_bit 63 (w_hi AND 1))"
    by (simp add: yb_def Let_def)
  with IH show ?case
    by (simp add: join64_xor join64_mask [simplified] join64_reduce [simplified] yb)
qed simp

lemma be_decode_join64:
  assumes "length b = 16"
  shows "be_decode b = join64 (load_be64 b) (load_be64 (drop 8 b))"
proof -
  have "(be_decode b :: 128 word) = be_decode (take 8 b @ drop 8 b)"
    by simp
  also have "\<dots> = join64 (be_decode (take 8 b)) (be_decode (drop 8 b))"
    unfolding be_decode_append using assms by (simp add: join64_def ucast_be_decode)
  finally show ?thesis
    using assms by (simp add: load_be64_decode)
qed

lemma store_join64:
  "store_be64 hi @ store_be64 lo = be_encode 16 (join64 hi lo)"
proof -
  let ?b = "be_encode 8 hi @ be_encode 8 lo"
  have "be_decode ?b = join64 hi lo"
    by (simp add: be_decode_join64 load_be64_decode be_decode_encode take_bit_word_eq_self)
  then show ?thesis
    using be_encode_decode [of ?b 16, where 'a = 128] by (simp add: store_be64_encode)
qed

lemma gf128_mul_spec:
  assumes "length x = 16" and "length y = 16"
  shows "gf128_mul x y = be_encode 16 (gf128_spec (be_decode x) (be_decode y))"
proof -
  obtain z_hi z_lo w_hi w_lo where
    "fold (gf128_step (load_be64 y) (load_be64 (drop 8 y))) [0..<128]
       (0, 0, load_be64 x, load_be64 (drop 8 x)) = (z_hi, z_lo, w_hi, w_lo)"
    "join64 z_hi z_lo = gf128_spec (be_decode x) (be_decode y)"
    using gf128_loop [of 128 "load_be64 y" "load_be64 (drop 8 y)" "load_be64 x"
        "load_be64 (drop 8 x)"] assms
    by (auto simp: gf128_spec_def be_decode_join64)
  then show ?thesis
    by (simp add: gf128_mul_def store_join64 Let_def)
qed

lemma length_gf128_mul [simp]: "length (gf128_mul x y) = 16"
  by (auto simp: gf128_mul_def Let_def store_be64_encode split: prod.split)

section \<open>GHASH\<close>

text \<open>The zero-padded 16-byte blocks of a byte string.\<close>

function ghash_blocks :: "bytes \<Rightarrow> bytes list" where
  "ghash_blocks [] = []"
| "ghash_blocks (b # bs) =
     (take 16 (b # bs) @ replicate (16 - length (b # bs)) 0) # ghash_blocks (drop 16 (b # bs))"
  by pat_completeness auto
termination
  by (relation "measure length") auto

lemma ghash_blocks_step:
  "bs \<noteq> [] \<Longrightarrow> ghash_blocks bs =
     (take 16 bs @ replicate (16 - length bs) 0) # ghash_blocks (drop 16 bs)"
  by (cases bs) simp_all

lemma length_ghash_blocks: "b \<in> set (ghash_blocks bs) \<Longrightarrow> length b = 16"
  by (induction bs rule: ghash_blocks.induct) auto

abbreviation ghash_fold :: "bytes \<Rightarrow> bytes \<Rightarrow> bytes list \<Rightarrow> bytes" where
  "ghash_fold h y bs \<equiv> foldl (\<lambda>y b. gf128_mul (xor_bytes y b) h) y bs"

lemma length_ghash_fold:
  "length y = 16 \<Longrightarrow> length (ghash_fold h y bs) = 16"
  by (induction bs arbitrary: y) simp_all

lemma fold_into_blocks:
  "length y = 16 \<Longrightarrow>
   fold_into y h data offset = ghash_fold h y (ghash_blocks (drop offset data))"
proof (induction y h data offset rule: fold_into.induct)
  case (1 y h data offset)
  show ?case
  proof (cases "offset < length data")
    case True
    define chunk where "chunk = min 16 (length data - offset)"
    define block where "block = take 16 (drop offset data) @ replicate (16 - (length data - offset)) 0"
    have copy: "fold (\<lambda>i b. b[i := data ! (offset + i)]) [0..<chunk] (replicate 16 0) = block"
      using True by (subst copy_loop) (auto simp: chunk_def block_def min_def)
    have len: "length block = 16"
      by (simp add: block_def)
    have "fold_into y h data offset =
        fold_into (gf128_mul (xor_bytes y block) h) h data (offset + chunk)"
      using True copy 1(2) len
      by (subst fold_into.simps) (simp add: kBlockSizeBytes_def chunk_def map_xor_upt Let_def)
    also have "\<dots> = ghash_fold h (gf128_mul (xor_bytes y block) h)
        (ghash_blocks (drop (offset + chunk) data))"
      using 1(1) [OF True refl] copy 1(2) len
      by (simp add: kBlockSizeBytes_def chunk_def map_xor_upt Let_def)
    also have "\<dots> = ghash_fold h y (ghash_blocks (drop offset data))"
      using True by (auto simp: ghash_blocks_step block_def chunk_def min_def add.commute)
    finally show ?thesis .
  qed (simp add: fold_into.simps [of y h data offset])
qed

text \<open>SP 800-38D, section 6.4, over 128-bit words.\<close>

definition ghash_spec :: "128 word \<Rightarrow> 128 word list \<Rightarrow> 128 word" where
  "ghash_spec H Xs = foldl (\<lambda>Y X. gf128_spec (Y XOR X) H) 0 Xs"

definition ghash_input :: "bytes \<Rightarrow> bytes \<Rightarrow> bytes list" where
  "ghash_input aad ct = ghash_blocks aad @ ghash_blocks ct @
     [be_encode 8 (of_nat (8 * length aad) :: u64) @ be_encode 8 (of_nat (8 * length ct) :: u64)]"

lemma ghash_as_fold: "ghash h aad ct = ghash_fold h (replicate 16 0) (ghash_input aad ct)"
  by (simp add: ghash_def ghash_input_def fold_into_blocks kBlockSizeBytes_def map_xor_upt
      length_ghash_fold store_be64_encode Let_def mult.commute)

lemma ghash_fold_spec:
  assumes "length h = 16" and "length y = 16" and "\<forall>b \<in> set bs. length b = 16"
  shows "be_decode (ghash_fold h y bs) =
    foldl (\<lambda>Y X. gf128_spec (Y XOR X) (be_decode h)) (be_decode y) (map be_decode bs)"
  using assms(2,3)
proof (induction bs arbitrary: y)
  case (Cons b bs)
  have "be_decode (gf128_mul (xor_bytes y b) h) =
      gf128_spec (be_decode y XOR be_decode b) (be_decode h)"
    using Cons.prems assms(1)
    by (simp add: gf128_mul_spec be_decode_encode be_decode_xor take_bit_word_eq_self)
  with Cons show ?case by simp
qed simp

lemma ghash_input_16: "b \<in> set (ghash_input aad ct) \<Longrightarrow> length b = 16"
  using length_ghash_blocks by (auto simp: ghash_input_def)

lemma be_decode_zeros [simp]: "be_decode (replicate n 0) = 0"
proof -
  have "le_decode (replicate n 0) = 0"
    by (induction n) simp_all
  then show ?thesis by (simp add: be_decode_def)
qed

lemma ghash_meets_spec:
  "length h = 16 \<Longrightarrow>
   be_decode (ghash h aad ct) = ghash_spec (be_decode h) (map be_decode (ghash_input aad ct))"
  using ghash_fold_spec [of h "replicate 16 0" "ghash_input aad ct"] ghash_input_16
  by (simp add: ghash_as_fold ghash_spec_def)

lemma length_ghash [simp]: "length (ghash h aad ct) = 16"
  by (simp add: ghash_as_fold length_ghash_fold)

text \<open>Unrolled, GHASH evaluates a polynomial at the hash key.\<close>

primrec gf128_pow :: "128 word \<Rightarrow> nat \<Rightarrow> 128 word" where
  "gf128_pow H 0 = gf128_one"
| "gf128_pow H (Suc n) = gf128_spec (gf128_pow H n) H"

lemma ghash_spec_snoc: "ghash_spec H (Xs @ [X]) = gf128_spec (ghash_spec H Xs XOR X) H"
  by (simp add: ghash_spec_def)

lemma ghash_spec_polynomial:
  "ghash_spec H Xs = xorsum (\<lambda>i. gf128_spec (Xs ! i) (gf128_pow H (length Xs - i))) (length Xs)"
proof (induction Xs rule: rev_induct)
  case (snoc X Xs)
  have "gf128_spec (ghash_spec H Xs) H =
      xorsum (\<lambda>i. gf128_spec (gf128_spec (Xs ! i) (gf128_pow H (length Xs - i))) H) (length Xs)"
    by (simp add: snoc.IH gf128.mult_xorsum_left)
  also have "\<dots> = xorsum (\<lambda>i. gf128_spec ((Xs @ [X]) ! i)
      (gf128_pow H (length (Xs @ [X]) - i))) (length Xs)"
    by (rule xorsum_cong) (simp add: nth_append Suc_diff_le gf128.mult_assoc)
  finally show ?case
    by (simp add: ghash_spec_snoc gf128.mult_xor_left gf128.one_mult)
qed (simp add: ghash_spec_def)

section \<open>Properties\<close>

text \<open>
  C15. The branch-free product \<^verbatim>\<open>gf128_mul\<close> on two 64-bit halves is the product of NIST SP
  800-38D on the whole 128-bit block, and it is the multiplication of a commutative ring
  of characteristic 2 on 16-byte blocks: commutative, associative, distributive over
  exclusive or, with the block \<open>10...0\<close> as unit.
\<close>

theorem gf128_mul_is_ring_product:
  assumes "length x = 16" and "length y = 16" and "length z = 16"
  shows "gf128_mul x y = be_encode 16 (gf128_spec (be_decode x) (be_decode y)) \<and>
    gf128_mul x y = gf128_mul y x \<and>
    gf128_mul (gf128_mul x y) z = gf128_mul x (gf128_mul y z) \<and>
    gf128_mul (xor_bytes x y) z = xor_bytes (gf128_mul x z) (gf128_mul y z) \<and>
    gf128_mul (0x80 # replicate 15 0) x = x"
proof -
  have dm: "be_decode (gf128_mul a b) = gf128_spec (be_decode a) (be_decode b)"
    if "length a = 16" "length b = 16" for a b
    using that by (simp add: gf128_mul_spec be_decode_encode take_bit_word_eq_self)
  have inj: "a = b" if "length a = 16" "length b = 16" "(be_decode a :: 128 word) = be_decode b" for a b
  proof -
    have "be_encode 16 (be_decode a :: 128 word) = a" "be_encode 16 (be_decode b :: 128 word) = b"
      using that(1,2) by (simp_all add: be_encode_decode)
    with that(3) show ?thesis by metis
  qed
  have one: "be_decode (0x80 # replicate 15 0) = gf128_one"
    using be_decode_append [of "[0x80]" "replicate 15 0", where 'a = 128]
    by (simp add: gf128_one_def be_decode_def [of "[_]"])
  show ?thesis
  proof (intro conjI)
    show "gf128_mul x y = be_encode 16 (gf128_spec (be_decode x) (be_decode y))"
      using assms by (simp add: gf128_mul_spec)
    show "gf128_mul x y = gf128_mul y x"
      using assms by (intro inj) (simp_all add: dm, rule gf128.mult_commute)
    show "gf128_mul (gf128_mul x y) z = gf128_mul x (gf128_mul y z)"
      using assms by (intro inj) (simp_all add: dm gf128.mult_assoc)
    show "gf128_mul (xor_bytes x y) z = xor_bytes (gf128_mul x z) (gf128_mul y z)"
      using assms by (intro inj) (simp_all add: dm be_decode_xor gf128.mult_xor_left)
    show "gf128_mul (0x80 # replicate 15 0) x = x"
      using assms by (intro inj) (simp_all add: dm one gf128.one_mult)
  qed
qed

theorem gf128_mul_is_ring_product_witness:
  "gf128_mul (replicate 16 3) (replicate 16 5) = gf128_mul (replicate 16 5) (replicate 16 3)"
  using gf128_mul_is_ring_product [OF length_replicate length_replicate length_replicate, of 3 5 0]
  by blast

text \<open>
  C14. \<^verbatim>\<open>ghash\<close> is the GHASH function of NIST SP 800-38D: the zero-padded blocks of the
  additional data, those of the ciphertext and the block of the two bit lengths are the
  coefficients of a polynomial that it evaluates at the hash key.
\<close>

theorem ghash_evaluates_polynomial:
  assumes "length h = 16"
  shows "let Xs = map be_decode (ghash_blocks aad @ ghash_blocks ct @
        [be_encode 8 (of_nat (8 * length aad) :: u64) @ be_encode 8 (of_nat (8 * length ct) :: u64)])
    in be_decode (ghash h aad ct) =
         xorsum (\<lambda>i. gf128_spec (Xs ! i) (gf128_pow (be_decode h) (length Xs - i))) (length Xs)"
  using ghash_meets_spec [OF assms, of aad ct]
    ghash_spec_polynomial [of "be_decode h" "map be_decode (ghash_input aad ct)"]
  by (simp add: Let_def ghash_input_def)

theorem ghash_evaluates_polynomial_witness:
  "let Xs = map be_decode (ghash_blocks [1] @ ghash_blocks [2, 3] @
        [be_encode 8 (of_nat (8 * length [1 :: byte]) :: u64) @
         be_encode 8 (of_nat (8 * length [2, 3 :: byte]) :: u64)])
   in be_decode (ghash (replicate 16 7) [1] [2, 3]) =
        xorsum (\<lambda>i. gf128_spec (Xs ! i) (gf128_pow (be_decode (replicate 16 7)) (length Xs - i))) (length Xs)"
  by (rule ghash_evaluates_polynomial) simp

end
