(* ===== verification/Ctr_Mode.thy ===== *)
theory Ctr_Mode
  imports Cpu_Detect Posix_Files Ghash
begin

text \<open>
  AES in counter mode, \<^verbatim>\<open>src/aes256_ctr.cpp\<close>: the per-block dispatch to a backend, the
  counter block, the keystream loop, the block-count limit, and \<^verbatim>\<open>Aes256Ctr::encrypt\<close> and
  \<^verbatim>\<open>decrypt\<close>. The locale \<open>counter_loop\<close> is the contract of such a keystream loop over a block
  function; the loop of this file and the loop of \<^verbatim>\<open>src/aes_gcm.cpp\<close> are its interpretations.
\<close>

section \<open>Definitions\<close>

definition kMaxBlocks :: u64 where
  "kMaxBlocks = push_bit 32 1"

definition kMaxPlaintextBytes :: u64 where
  "kMaxPlaintextBytes = kMaxBlocks * of_nat kBlockSizeBytes"

definition encrypt_block :: "platform \<Rightarrow> secret_key \<Rightarrow> bytes \<Rightarrow> bytes res" where
  "encrypt_block pf key block =
     res_bind (active_backend pf) (\<lambda>backend.
       let hw = (backend = Hardware)
       in if key_size_bytes key = 16 then
            (if hw then aes128_encrypt_block_hw pf key block
             else Inr (aes128_encrypt_block_soft key block))
          else
            (if hw then aes256_encrypt_block_hw pf key block
             else Inr (aes256_encrypt_block_soft key block)))"

definition make_counter_block :: "bytes \<Rightarrow> u32 \<Rightarrow> bytes" where
  "make_counter_block nonce counter =
     (let block = replicate kBlockSizeBytes 0;
          block = fold (\<lambda>i b. b[i := nonce ! i]) [0..<kNonceSizeBytes] block
      in block[12 := ucast (drop_bit 24 counter AND 0xff),
               13 := ucast (drop_bit 16 counter AND 0xff),
               14 := ucast (drop_bit 8 counter AND 0xff),
               15 := ucast (counter AND 0xff)])"

text \<open>The loop of \<^verbatim>\<open>apply_keystream\<close> from an offset and a counter on.\<close>

function apply_keystream_loop ::
  "platform \<Rightarrow> secret_key \<Rightarrow> bytes \<Rightarrow> bytes \<Rightarrow> nat \<Rightarrow> u32 \<Rightarrow> bytes \<Rightarrow> bytes res" where
  "apply_keystream_loop pf key nonce input offset counter output =
     (if offset < length input then
        res_bind (encrypt_block pf key (make_counter_block nonce counter)) (\<lambda>keystream.
          let chunk = min kBlockSizeBytes (length input - offset);
              output = fold (\<lambda>i out. out[offset + i := input ! (offset + i) XOR keystream ! i])
                [0..<chunk] output
          in apply_keystream_loop pf key nonce input (offset + kBlockSizeBytes) (counter + 1) output)
      else Inr output)"
  by pat_completeness auto
termination
  by (relation "measure (\<lambda>(pf, key, nonce, input, offset, counter, output). length input - offset)")
    (auto simp: kBlockSizeBytes_def)

declare apply_keystream_loop.simps [simp del]

definition apply_keystream :: "platform \<Rightarrow> secret_key \<Rightarrow> bytes \<Rightarrow> bytes \<Rightarrow> bytes res" where
  "apply_keystream pf key nonce input =
     apply_keystream_loop pf key nonce input 0 0 (replicate (length input) 0)"

definition generate_nonce :: "'w system \<Rightarrow> ('w, bytes) io" where
  "generate_nonce os = fill_random os kNonceSizeBytes"

definition validate_block_count :: "nat \<Rightarrow> unit res" where
  "validate_block_count plaintext_len =
     (if (of_nat plaintext_len :: u64) > kMaxPlaintextBytes then
        Inl (LimitError (''plaintext exceeds the 64 GiB limit addressable by this CTR '' @
          ''construction's 32-bit block counter''))
      else Inr ())"

definition ctr_encrypt :: "'w system \<Rightarrow> platform \<Rightarrow> secret_key \<Rightarrow> bytes \<Rightarrow> ('w, container) io" where
  "ctr_encrypt os pf key plaintext =
     io_bind (io_lift (validate_block_count (length plaintext))) (\<lambda>_.
     io_bind (generate_nonce os) (\<lambda>nonce.
     io_bind (io_lift (apply_keystream pf key nonce plaintext)) (\<lambda>ciphertext.
     io_return \<lparr>ct_nonce = nonce, ct_ciphertext = ciphertext\<rparr>)))"

definition ctr_decrypt :: "platform \<Rightarrow> secret_key \<Rightarrow> container \<Rightarrow> bytes res" where
  "ctr_decrypt pf key container =
     res_bind (validate_block_count (length (ct_ciphertext container))) (\<lambda>_.
       apply_keystream pf key (ct_nonce container) (ct_ciphertext container))"

section \<open>Keystream loops\<close>

text \<open>
  The contract of a keystream loop: a total block function on 16-byte blocks, and the
  loop equation. The lemmas give the loop's result as one exclusive or with the keystream
  \<open>E(nonce || c), E(nonce || c + 1), ...\<close>, and from it that the loop is its own inverse.
\<close>

locale counter_loop =
  fixes enc :: "bytes \<Rightarrow> bytes"
    and loop :: "bytes \<Rightarrow> bytes \<Rightarrow> nat \<Rightarrow> u32 \<Rightarrow> bytes \<Rightarrow> bytes res"
  assumes enc_length: "length b = 16 \<Longrightarrow> length (enc b) = 16"
    and loop_done: "\<not> offset < length input \<Longrightarrow> loop nonce input offset counter output = Inr output"
    and loop_step: "length nonce = 12 \<Longrightarrow> offset < length input \<Longrightarrow>
      loop nonce input offset counter output =
        loop nonce input (offset + 16) (counter + 1)
          (fold (\<lambda>i out. out[offset + i := input ! (offset + i) XOR
              enc (nonce @ be_encode 4 counter) ! i])
            [0..<min 16 (length input - offset)] output)"
begin

definition stream :: "bytes \<Rightarrow> u32 \<Rightarrow> nat \<Rightarrow> bytes" where
  "stream nonce c n = concat (map (\<lambda>i. enc (nonce @ be_encode 4 (c + of_nat i))) [0..<n])"

lemma enc_block_length: "length nonce = 12 \<Longrightarrow> length (enc (nonce @ be_encode 4 c)) = 16"
  by (simp add: enc_length)

lemma stream_Suc:
  "stream nonce c (Suc n) = enc (nonce @ be_encode 4 c) @ stream nonce (c + 1) n"
proof -
  have "map (\<lambda>i. enc (nonce @ be_encode 4 (c + of_nat i))) [0..<Suc n] =
      enc (nonce @ be_encode 4 c) # map (\<lambda>i. enc (nonce @ be_encode 4 (c + 1 + of_nat i))) [0..<n]"
    by (simp add: upt_conv_Cons map_Suc_upt [symmetric] ac_simps del: upt_Suc)
  then show ?thesis
    by (simp add: stream_def)
qed

lemma length_stream: "length nonce = 12 \<Longrightarrow> length (stream nonce c n) = 16 * n"
  by (induction n arbitrary: c) (simp_all add: stream_Suc enc_block_length, simp add: stream_def)

lemma nth_stream:
  assumes "length nonce = 12" and "i < 16 * n"
  shows "stream nonce c n ! i = enc (nonce @ be_encode 4 (c + of_nat (i div 16))) ! (i mod 16)"
  using assms(2)
proof (induction n arbitrary: c i)
  case (Suc n)
  show ?case
  proof (cases "i < 16")
    case True
    then show ?thesis
      by (simp add: stream_Suc nth_append enc_block_length [OF assms(1)])
  next
    case False
    then have "i div 16 = Suc ((i - 16) div 16)" "i mod 16 = (i - 16) mod 16" "i - 16 < 16 * n"
      using Suc.prems by (simp_all add: le_div_geq le_mod_geq)
    with False Suc.IH [of "i - 16" "c + 1"] show ?thesis
      by (simp add: stream_Suc nth_append enc_block_length [OF assms(1)] ac_simps)
  qed
qed simp

lemma xor_loop:
  assumes "off + k \<le> length out" and "length out = length inp" and "k \<le> length ks"
  shows "fold (\<lambda>i out. out[off + i := inp ! (off + i) XOR ks ! i]) [0..<k] out =
    take off out @ xor_bytes (take k (drop off inp)) ks @ drop (off + k) out"
  using assms
proof (induction k)
  case (Suc k)
  let ?a = "take off out" and ?b = "xor_bytes (take k (drop off inp)) ks"
  have len: "length ?a = off" "length ?b = k"
    using Suc.prems by simp_all
  have "drop (off + k) out = out ! (off + k) # drop (off + Suc k) out"
    using Suc.prems by (simp add: Cons_nth_drop_Suc)
  moreover have "xor_bytes (take (Suc k) (drop off inp)) ks =
      ?b @ [inp ! (off + k) XOR ks ! k]"
    using Suc.prems
    by (intro nth_equalityI) (auto simp: nth_append less_Suc_eq take_Suc_conv_app_nth)
  ultimately show ?case
    using Suc len by (simp add: list_update_append)
qed simp

text \<open>One iteration, and the keystream of what is left, at a full block and at the last one.\<close>

lemma loop_block:
  assumes "length nonce = 12" and "length out = length input" and "offset < length input"
    and "k = min 16 (length input - offset)"
  shows "loop nonce input offset c out = loop nonce input (offset + 16) (c + 1)
    (take offset out @ xor_bytes (take k (drop offset input)) (enc (nonce @ be_encode 4 c)) @ drop (offset + k) out)"
proof -
  have k: "offset + k \<le> length out" "k \<le> length (enc (nonce @ be_encode 4 c))"
    using assms enc_block_length [OF assms(1), of c] by simp_all
  show ?thesis
    using loop_step [OF assms(1,3), folded assms(4), of c out] unfolding xor_loop [OF k(1) assms(2) k(2)] .
qed

lemma stream_block:
  assumes "length nonce = 12" and "offset + 16 \<le> length input"
  shows "xor_bytes (drop offset input) (stream nonce c ((length input - offset + 15) div 16)) =
    xor_bytes (take 16 (drop offset input)) (enc (nonce @ be_encode 4 c)) @
    xor_bytes (drop (offset + 16) input) (stream nonce (c + 1) ((length input - (offset + 16) + 15) div 16))"
proof -
  have n: "(length input - offset + 15) div 16 = Suc ((length input - (offset + 16) + 15) div 16)"
    using assms(2) by (simp add: div_add_self2 [symmetric])
  have "xor_bytes (drop offset input) (enc (nonce @ be_encode 4 c) @ s) =
      xor_bytes (take 16 (drop offset input)) (enc (nonce @ be_encode 4 c)) @ xor_bytes (drop (offset + 16) input) s" for s
    using xor_bytes_append [of "take 16 (drop offset input)" "enc (nonce @ be_encode 4 c)" "drop 16 (drop offset input)" s,
        unfolded append_take_drop_id] enc_block_length [OF assms(1), of c] assms(2)
    by (simp add: add.commute)
  then show ?thesis by (simp only: n stream_Suc)
qed

lemma stream_last:
  assumes "length nonce = 12" and "offset < length input" and "\<not> offset + 16 \<le> length input"
  shows "stream nonce c ((length input - offset + 15) div 16) = enc (nonce @ be_encode 4 c)"
proof -
  have "(length input - offset + 15) div 16 = Suc 0" using assms(2,3) by simp
  then show ?thesis by (simp only: stream_Suc) (simp add: stream_def)
qed

lemma loop_stream:
  assumes "length nonce = 12" and "length out = length input" and "offset \<le> length input"
  shows "loop nonce input offset c out = Inr (take offset out @
    xor_bytes (drop offset input) (stream nonce c ((length input - offset + 15) div 16)))"
  using assms(2,3)
proof (induction "length input - offset" arbitrary: offset c out rule: less_induct)
  case less
  let ?X = "xor_bytes (take 16 (drop offset input)) (enc (nonce @ be_encode 4 c))"
  consider "offset + 16 \<le> length input" | "offset < length input" "\<not> offset + 16 \<le> length input"
    | "\<not> offset < length input" by linarith
  then show ?case
  proof cases
    case 1
    let ?out = "take offset out @ ?X @ drop (offset + 16) out"
    have lo: "length ?X = 16" "length ?out = length input"
      using 1 less.prems enc_block_length [OF assms(1), of c] by simp_all
    have "loop nonce input (offset + 16) (c + 1) ?out = Inr (take (offset + 16) ?out @
        xor_bytes (drop (offset + 16) input)
          (stream nonce (c + 1) ((length input - (offset + 16) + 15) div 16)))"
      using 1 lo by (intro less.hyps) auto
    moreover have "take (offset + 16) ?out = take offset out @ ?X"
      using lo(1) less.prems 1 by simp
    moreover have "offset < length input" "16 = min 16 (length input - offset)" using 1 by simp_all
    note loop_block [OF assms(1) less.prems(1) this, of c]
    ultimately show ?thesis
      by (simp only: stream_block [OF assms(1) 1] append_assoc)
  next
    case 2
    then show ?thesis
      using loop_block [OF assms(1) less.prems(1) 2(1) refl, of c] less.prems
      unfolding stream_last [OF assms(1) 2] by (simp add: loop_done)
  next
    case 3
    with less.prems show ?thesis by (simp add: loop_done)
  qed
qed

lemma run_stream:
  "length nonce = 12 \<Longrightarrow> loop nonce input 0 c (replicate (length input) 0) =
     Inr (xor_bytes input (stream nonce c ((length input + 15) div 16)))"
  by (simp add: loop_stream)

lemma stream_covers: "length nonce = 12 \<Longrightarrow> n \<le> length (stream nonce c ((n + 15) div 16))"
  by (simp add: length_stream)

lemma nth_run:
  assumes "length nonce = 12" and "loop nonce input 0 c (replicate (length input) 0) = Inr out"
    and "i < length input"
  shows "out ! i = input ! i XOR enc (nonce @ be_encode 4 (c + of_nat (i div 16))) ! (i mod 16)"
proof -
  have n: "i < 16 * ((length input + 15) div 16)"
    using assms(3) stream_covers [OF assms(1), of "length input" c]
    unfolding length_stream [OF assms(1)] by (rule order_less_le_trans)
  have out: "out = xor_bytes input (stream nonce c ((length input + 15) div 16))"
    using assms(2) by (simp add: run_stream [OF assms(1)])
  show ?thesis
    unfolding out using n assms(3)
    by (subst nth_xor_bytes) (simp_all only: length_stream [OF assms(1)] nth_stream [OF assms(1)])
qed

lemma run_length:
  "length nonce = 12 \<Longrightarrow> loop nonce input 0 c (replicate (length input) 0) = Inr out \<Longrightarrow>
   length out = length input"
  using stream_covers [of nonce "length input" c] by (auto simp: run_stream)

lemma run_involution:
  assumes "length nonce = 12" and "loop nonce x 0 c (replicate (length x) 0) = Inr y"
  shows "loop nonce y 0 c (replicate (length y) 0) = Inr x"
proof -
  have y: "y = xor_bytes x (stream nonce c ((length x + 15) div 16))"
    using assms by (simp add: run_stream)
  have len: "length y = length x"
    by (rule run_length [OF assms])
  show ?thesis
    unfolding run_stream [OF assms(1)] len y
    using stream_covers [OF assms(1), of "length x" c] by (simp add: xor_bytes_cancel)
qed

end

text \<open>The counter blocks of one run are pairwise distinct up to \<open>2 ^ 32\<close> blocks.\<close>

lemma counter_blocks_distinct:
  fixes c :: u32
  assumes "n \<le> 2 ^ 32"
  shows "distinct (map (\<lambda>i. nonce @ be_encode 4 (c + of_nat i)) [0..<n])"
proof -
  have "inj_on (\<lambda>i. nonce @ be_encode 4 (c + of_nat i)) {0..<n}"
  proof (rule inj_onI)
    fix i j
    assume ij: "i \<in> {0..<n}" "j \<in> {0..<n}"
      and "nonce @ be_encode 4 (c + of_nat i) = nonce @ be_encode 4 (c + of_nat j)"
    then have "c + of_nat i = c + of_nat j"
      using be_encode_inject [of 4 "c + of_nat i" "c + of_nat j"] by simp
    then have "(of_nat i :: u32) = of_nat j" by simp
    moreover have "unat (of_nat i :: u32) = i" "unat (of_nat j :: u32) = j"
      using ij assms by (simp_all add: unsigned_of_nat take_bit_nat_eq_self)
    ultimately show "i = j" by metis
  qed
  then show ?thesis
    by (simp add: distinct_map)
qed

section \<open>The block function\<close>

text \<open>What \<^verbatim>\<open>encrypt_block\<close> returns: it never throws, and every block has 16 bytes.\<close>

definition block_fn :: "platform \<Rightarrow> secret_key \<Rightarrow> bytes \<Rightarrow> bytes" where
  "block_fn pf key block = (case encrypt_block pf key block of Inr out \<Rightarrow> out | Inl _ \<Rightarrow> [])"

lemma hw_total:
  assumes "active_backend pf = Inr Hardware"
  shows "\<exists>out. aes128_encrypt_block_hw pf key block = Inr out"
    and "\<exists>out. aes256_encrypt_block_hw pf key block = Inr out"
  using has_hw_aes_True(1) [OF active_backend_Hardware [OF assms]]
  by (cases "pf_arch pf"; simp add: aes128_encrypt_block_hw_def aes256_encrypt_block_hw_def)+

lemma encrypt_block_total: "\<exists>out. encrypt_block pf key block = Inr out"
proof -
  obtain b where b: "active_backend pf = Inr b"
    using active_backend_total by blast
  show ?thesis
    using hw_total [of pf key block] by (cases b) (auto simp: encrypt_block_def b)
qed

lemma encrypt_block_fn: "encrypt_block pf key block = Inr (block_fn pf key block)"
  using encrypt_block_total [of pf key block] by (auto simp: block_fn_def)

lemma length_block_fn: "length block = 16 \<Longrightarrow> length (block_fn pf key block) = 16"
proof -
  assume len: "length block = 16"
  obtain b where b: "active_backend pf = Inr b"
    using active_backend_total by blast
  have "length out = 16" if "encrypt_block pf key block = Inr out" for out
    using that len length_hw length_aes_soft
    by (cases b) (auto simp: encrypt_block_def b aes128_encrypt_block_soft_def
        aes256_encrypt_block_soft_def split: if_splits)
  then show ?thesis
    using encrypt_block_fn by blast
qed

definition soft_block :: "secret_key \<Rightarrow> bytes \<Rightarrow> bytes" where
  "soft_block key block =
     (if sk_size key = Aes128 then aes128_encrypt_block_soft key block
      else aes256_encrypt_block_soft key block)"

lemma block_fn_documented:
  assumes "platform_documented pf" and "key_wf key" and "length block = 16"
  shows "block_fn pf key block = soft_block key block"
proof -
  obtain b where b: "active_backend pf = Inr b"
    using active_backend_total by blast
  have "pf_arch pf \<noteq> ArchOther" if "b = Hardware"
    using has_hw_aes_True(1) active_backend_Hardware b that by blast
  with hw_eq_soft [OF assms(1) _ assms(2,3)] show ?thesis
    by (cases b; cases "sk_size key")
      (simp_all add: block_fn_def encrypt_block_def b soft_block_def key_size_bytes_def)
qed

lemma make_counter_block_append:
  assumes "length nonce = 12"
  shows "make_counter_block nonce counter = nonce @ be_encode 4 counter"
proof -
  have "fold (\<lambda>i b. b[i := nonce ! i]) [0..<12] (replicate 16 0) = nonce @ replicate 4 0"
    using copy_loop [of 12 "replicate 16 0" 0 nonce] assms by simp
  then show ?thesis
    using assms
    by (simp add: make_counter_block_def Let_def kBlockSizeBytes_def kNonceSizeBytes_def
        list_update_append be_encode_def le_encode_numeral ucast_and_255 replicate_eval
        drop_bit_drop_bit)
qed

interpretation ctr: counter_loop "block_fn pf key" "apply_keystream_loop pf key" for pf key
proof
  show "length (block_fn pf key b) = 16" if "length b = 16" for b
    using that by (rule length_block_fn)
  show "apply_keystream_loop pf key nonce input offset counter out' = Inr out'"
    if "\<not> offset < length input" for nonce input offset counter out'
    using that by (simp add: apply_keystream_loop.simps)
  show "apply_keystream_loop pf key nonce input offset counter out' =
      apply_keystream_loop pf key nonce input (offset + 16) (counter + 1)
        (fold (\<lambda>i out. out[offset + i := input ! (offset + i) XOR
            block_fn pf key (nonce @ be_encode 4 counter) ! i])
          [0..<min 16 (length input - offset)] out')"
    if "length nonce = 12" "offset < length input" for nonce input offset counter out'
    using that
    by (subst apply_keystream_loop.simps)
      (simp add: encrypt_block_fn make_counter_block_append kBlockSizeBytes_def Let_def)
qed

lemma apply_keystream_stream:
  "length nonce = 12 \<Longrightarrow> apply_keystream pf key nonce input =
     Inr (xor_bytes input (ctr.stream pf key nonce 0 ((length input + 15) div 16)))"
  by (simp add: apply_keystream_def ctr.run_stream)

lemma validate_block_count_iff:
  assumes "n < 2 ^ 64"
  shows "validate_block_count n = Inr () \<longleftrightarrow> n \<le> 2 ^ 36"
proof -
  have "unat (of_nat n :: u64) = n" "unat kMaxPlaintextBytes = 2 ^ 36"
    using assms by (simp_all add: unsigned_of_nat take_bit_nat_eq_self kMaxPlaintextBytes_def
        kMaxBlocks_def kBlockSizeBytes_def)
  then show ?thesis
    by (simp add: validate_block_count_def word_less_nat_alt linorder_not_less)
qed

lemma apply_keystream_total:
  assumes "length nonce = 12"
  shows "\<exists>out. apply_keystream pf key nonce input = Inr out \<and> length out = length input \<and>
    (\<forall>i < length input. out ! i = input ! i XOR
       block_fn pf key (nonce @ be_encode 4 (of_nat (i div 16) :: u32)) ! (i mod 16))"
proof -
  obtain out where out: "apply_keystream_loop pf key nonce input 0 0 (replicate (length input) 0) = Inr out"
    using ctr.run_stream [OF assms] by blast
  with ctr.run_length [OF assms out] ctr.nth_run [OF assms out] show ?thesis
    by (simp add: apply_keystream_def)
qed

lemma apply_keystream_involution:
  "length nonce = 12 \<Longrightarrow> apply_keystream pf key nonce x = Inr y \<Longrightarrow> apply_keystream pf key nonce y = Inr x"
  unfolding apply_keystream_def by (rule ctr.run_involution)

text \<open>Platforms that agree on every block produce the same keystream.\<close>

lemma apply_keystream_cong:
  assumes "length nonce = 12" and "\<And>b. length b = 16 \<Longrightarrow> block_fn pf1 key b = block_fn pf2 key b"
  shows "apply_keystream pf1 key nonce x = apply_keystream pf2 key nonce x"
proof -
  have "ctr.stream pf1 key nonce c n = ctr.stream pf2 key nonce c n" for c n
    using assms by (simp add: ctr.stream_def)
  then show ?thesis
    using assms(1) by (simp add: apply_keystream_stream)
qed

lemma validate_block_count_cases:
  "n < 2 ^ 64 \<Longrightarrow> (validate_block_count n = Inr () \<and> n \<le> 2 ^ 36) \<or>
     (\<exists>m. validate_block_count n = Inl (LimitError m)) \<and> 2 ^ 36 < n"
  using validate_block_count_iff [of n]
  by (cases "n \<le> 2 ^ 36") (auto simp: validate_block_count_def split: if_splits)

lemma ctr_encrypt_InrE:
  assumes "ctr_encrypt os pf key plaintext w = Some (Inr c, w')"
  obtains "validate_block_count (length plaintext) = Inr ()"
    "fill_random os 12 w = Some (Inr (ct_nonce c), w')"
    "apply_keystream pf key (ct_nonce c) plaintext = Inr (ct_ciphertext c)"
proof -
  obtain nonce where "validate_block_count (length plaintext) = Inr ()"
    "generate_nonce os w = Some (Inr nonce, w')" and a: "ct_nonce c = nonce"
    "apply_keystream pf key nonce plaintext = Inr (ct_ciphertext c)"
    using assms unfolding ctr_encrypt_def
    by (auto elim!: io_bind_InrE simp: io_return_def io_lift_def)
  with that show ?thesis
    by (simp add: generate_nonce_def kNonceSizeBytes_def)
qed

text \<open>What a container that \<^verbatim>\<open>encrypt\<close> returned decrypts to.\<close>

lemma ctr_encrypt_decrypt:
  assumes "random_documented os" and "ctr_encrypt os pf1 key plaintext w = Some (Inr c, w')"
    and "pf2 = pf1 \<or> platform_documented pf1 \<and> platform_documented pf2 \<and> key_wf key"
  shows "fill_random os 12 w = Some (Inr (ct_nonce c), w') \<and> length (ct_nonce c) = 12 \<and>
    length (ct_ciphertext c) = length plaintext \<and> ctr_decrypt pf2 key c = Inr plaintext"
proof -
  obtain v: "validate_block_count (length plaintext) = Inr ()"
    and f: "fill_random os 12 w = Some (Inr (ct_nonce c), w')"
    and a: "apply_keystream pf1 key (ct_nonce c) plaintext = Inr (ct_ciphertext c)"
    using assms(2) by (rule ctr_encrypt_InrE)
  have n: "length (ct_nonce c) = 12"
    by (rule fill_random_length [OF assms(1) f]) simp
  have len: "length (ct_ciphertext c) = length plaintext"
    using apply_keystream_total [OF n, of pf1 key plaintext] a by auto
  have "apply_keystream pf1 key (ct_nonce c) (ct_ciphertext c) = Inr plaintext"
    using a n by (rule apply_keystream_involution [rotated])
  moreover have "apply_keystream pf2 key (ct_nonce c) x = apply_keystream pf1 key (ct_nonce c) x" for x
    using assms(3) by (intro apply_keystream_cong [OF n]) (auto simp: block_fn_documented)
  ultimately show ?thesis
    using f n len by (simp add: ctr_decrypt_def v)
qed

lemma ctr_encrypt_result:
  assumes "random_documented os" and "length plaintext \<le> 2 ^ 36"
  shows "ctr_encrypt os pf key plaintext w =
    (case fill_random os 12 w of
       None \<Rightarrow> None
     | Some (Inl e, w') \<Rightarrow> Some (Inl e, w')
     | Some (Inr nonce, w') \<Rightarrow> Some (Inr \<lparr>ct_nonce = nonce, ct_ciphertext =
         xor_bytes plaintext (ctr.stream pf key nonce 0 ((length plaintext + 15) div 16))\<rparr>, w'))"
proof -
  have v: "validate_block_count (length plaintext) = Inr ()"
    using validate_block_count_iff [of "length plaintext"] assms(2) by simp
  show ?thesis
    using fill_random_length [OF assms(1), of 12 w]
    by (auto simp: ctr_encrypt_def v generate_nonce_def kNonceSizeBytes_def io_bind_def
        apply_keystream_stream split: option.split sum.split)
qed

section \<open>Properties\<close>



text \<open>
  C13. Counter-mode decryption is the keystream construction of NIST SP 800-38A with the
  96-bit nonce and a 32-bit big-endian block counter from 0: byte \<open>i\<close> of the output is byte
  \<open>i\<close> of the input xor byte \<open>i mod 16\<close> of the AES encryption of \<open>nonce || i div 16\<close>. It is
  defined up to 64 GiB, where no counter block occurs twice, and beyond that it throws
  \<^verbatim>\<open>LimitError\<close>.
\<close>

theorem ctr_decrypt_is_counter_mode:
  assumes "platform_documented pf" and "key_wf key" and "length (ct_nonce c) = 12"
    and "length (ct_ciphertext c) < 2 ^ 64"
  shows "if length (ct_ciphertext c) \<le> 2 ^ 36 then
      (\<exists>out. ctr_decrypt pf key c = Inr out \<and> length out = length (ct_ciphertext c) \<and>
        (\<forall>i < length out. out ! i = ct_ciphertext c ! i XOR
           soft_block key (ct_nonce c @ be_encode 4 (of_nat (i div 16) :: u32)) ! (i mod 16))) \<and>
      distinct (map (\<lambda>b. ct_nonce c @ be_encode 4 (of_nat b :: u32))
        [0..<(length (ct_ciphertext c) + 15) div 16])
    else (\<exists>m. ctr_decrypt pf key c = Inl (LimitError m))"
proof (cases "length (ct_ciphertext c) \<le> 2 ^ 36")
  case True
  obtain out where "apply_keystream pf key (ct_nonce c) (ct_ciphertext c) = Inr out"
    "length out = length (ct_ciphertext c)"
    "\<forall>i < length (ct_ciphertext c). out ! i = ct_ciphertext c ! i XOR
       block_fn pf key (ct_nonce c @ be_encode 4 (of_nat (i div 16) :: u32)) ! (i mod 16)"
    using apply_keystream_total [OF assms(3)] by blast
  moreover have "validate_block_count (length (ct_ciphertext c)) = Inr ()"
    using validate_block_count_iff [OF assms(4)] True by simp
  moreover have "distinct (map (\<lambda>b. ct_nonce c @ be_encode 4 (of_nat b :: u32))
      [0..<(length (ct_ciphertext c) + 15) div 16])"
    using counter_blocks_distinct [of "(length (ct_ciphertext c) + 15) div 16" "ct_nonce c" 0] True
    by simp
  ultimately show ?thesis
    using True block_fn_documented [OF assms(1,2)] assms(3) by (auto simp: ctr_decrypt_def)
next
  case False
  with validate_block_count_cases [OF assms(4)] show ?thesis
    by (auto simp: ctr_decrypt_def)
qed

theorem ctr_decrypt_is_counter_mode_witness:
  "let c = \<lparr>ct_nonce = replicate 12 9, ct_ciphertext = replicate 20 5\<rparr>;
       pf = x86_platform (push_bit 25 1) None
   in (\<exists>out. ctr_decrypt pf SecretKey c = Inr out \<and> length out = 20 \<and>
      (\<forall>i < length out. out ! i = ct_ciphertext c ! i XOR
         soft_block SecretKey (ct_nonce c @ be_encode 4 (of_nat (i div 16) :: u32)) ! (i mod 16)))"
  using ctr_decrypt_is_counter_mode [OF x86_platform_documented [of "push_bit 25 1" None]
      key_wf_SecretKey, of "\<lparr>ct_nonce = replicate 12 9, ct_ciphertext = replicate 20 5\<rparr>"]
  by simp

text \<open>
  C8. Counter-mode round trip: a container that \<^verbatim>\<open>Aes256Ctr::encrypt\<close> returns has a 12-byte
  nonce drawn from the random source and a ciphertext as long as the plaintext, and
  \<^verbatim>\<open>decrypt\<close> gives the plaintext back, on the same platform or, where the hardware of both
  is documented, on another one with another backend. An oversized plaintext is refused
  before any randomness is drawn.
\<close>

theorem ctr_roundtrip:
  assumes "random_documented os" and "length plaintext < 2 ^ 64"
    and "pf2 = pf1 \<or> platform_documented pf1 \<and> platform_documented pf2 \<and> key_wf key"
  shows "(\<forall>c w'. ctr_encrypt os pf1 key plaintext w = Some (Inr c, w') \<longrightarrow>
      fill_random os 12 w = Some (Inr (ct_nonce c), w') \<and> length (ct_nonce c) = 12 \<and>
      length (ct_ciphertext c) = length plaintext \<and> ctr_decrypt pf2 key c = Inr plaintext) \<and>
    (2 ^ 36 < length plaintext \<longrightarrow>
      (\<exists>m. ctr_encrypt os pf1 key plaintext w = Some (Inl (LimitError m), w)))"
proof -
  have "\<exists>m. ctr_encrypt os pf1 key plaintext w = Some (Inl (LimitError m), w)"
    if "2 ^ 36 < length plaintext"
    using validate_block_count_cases [OF assms(2)] that by (auto simp: ctr_encrypt_def)
  with ctr_encrypt_decrypt [OF assms(1) _ assms(3)] show ?thesis by blast
qed

theorem ctr_roundtrip_witness:
  "\<exists>c w'. ctr_encrypt mem_posix (x86_platform (push_bit 25 1) None) SecretKey [1, 2, 3] mem_start =
      Some (Inr c, w') \<and>
    ctr_decrypt (x86_platform 0 None) SecretKey c = Inr [1, 2, 3]"
proof -
  let ?pf = "x86_platform (push_bit 25 1) None"
  have "\<exists>c w'. ctr_encrypt mem_posix ?pf SecretKey [1, 2, 3] mem_start = Some (Inr c, w')"
    using apply_keystream_total [of "[0, 1, 2, 3, 4, 5, 6, 1, 2, 3, 4, 5]" ?pf SecretKey "[1, 2, 3]"]
      validate_block_count_iff [of "Suc (Suc (Suc 0))"] mem_fill_12
    by (auto simp: ctr_encrypt_def generate_nonce_def kNonceSizeBytes_def)
  then show ?thesis
    using ctr_roundtrip [OF mem_random_documented(1), of "[1, 2, 3]" "x86_platform 0 None" ?pf SecretKey
        mem_start] x86_platform_documented
    by auto
qed

end
