(* ===== verification/Ct_Util.thy ===== *)
theory Ct_Util
  imports Aes_Prelude
begin

text \<open>
  The two constant-time byte helpers at the end of \<^verbatim>\<open>src/sha256.cpp\<close>, shared by AES-GCM and
  the encrypted key file: \<^verbatim>\<open>constant_time_equal\<close> and \<^verbatim>\<open>secure_wipe\<close>.
\<close>

section \<open>Definitions\<close>

definition constant_time_equal :: "bytes \<Rightarrow> bytes \<Rightarrow> nat \<Rightarrow> bool" where
  "constant_time_equal a b len =
     (let diff = fold (\<lambda>i d. d OR (a ! i XOR b ! i)) [0..<len] (0 :: byte)
      in diff = 0)"

definition secure_wipe :: "bytes \<Rightarrow> nat \<Rightarrow> bytes" where
  "secure_wipe data len = fold (\<lambda>i d. d[i := 0]) [0..<len] data"

section \<open>Their results\<close>

lemma fold_or_eq_0_iff:
  fixes f :: "nat \<Rightarrow> byte"
  shows "fold (\<lambda>i d. d OR f i) xs d = 0 \<longleftrightarrow> d = 0 \<and> (\<forall>i \<in> set xs. f i = 0)"
  by (induction xs arbitrary: d) (auto simp: or_eq_0_iff)

lemma constant_time_equal_iff:
  assumes "length a = len" and "length b = len"
  shows "constant_time_equal a b len \<longleftrightarrow> a = b"
proof -
  have "constant_time_equal a b len \<longleftrightarrow> (\<forall>i < len. a ! i = b ! i)"
    unfolding constant_time_equal_def Let_def fold_or_eq_0_iff by auto
  also have "\<dots> \<longleftrightarrow> a = b"
    using assms by (auto intro: nth_equalityI)
  finally show ?thesis .
qed

lemma secure_wipe_zero: "len \<le> length data \<Longrightarrow> secure_wipe data len = replicate len 0 @ drop len data"
proof (induction len)
  case (Suc len)
  then have "secure_wipe data (Suc len) = (replicate len 0 @ drop len data)[len := 0]"
    by (simp add: secure_wipe_def)
  also have "drop len data = data ! len # drop (Suc len) data"
    using Suc.prems by (simp add: Cons_nth_drop_Suc)
  finally show ?case
    by (simp add: list_update_append replicate_append_same [symmetric])
qed (simp add: secure_wipe_def)

end
