(* ===== verification/Gcm_Mode.thy ===== *)
theory Gcm_Mode
  imports Ctr_Mode Ct_Util
begin

text \<open>
  AES-GCM, \<^verbatim>\<open>src/aes_gcm.cpp\<close> and \<^verbatim>\<open>include/aeslib/aes_gcm.hpp\<close>: the keystream from counter 2,
  the tag, the per-key invocation limit, \<^verbatim>\<open>AesGcm::encrypt\<close> and \<^verbatim>\<open>decrypt\<close>, and the \<^verbatim>\<open>AESG\<close>
  container format. The key is passed \<^verbatim>\<open>const\<close> but its invocation counter is mutable, so
  \<^verbatim>\<open>encrypt\<close> returns the key with its new count, on errors too.
\<close>

section \<open>Definitions\<close>

definition kGcmNonceSizeBytes :: nat where
  "kGcmNonceSizeBytes = 12"

definition kGcmTagSizeBytes :: nat where
  "kGcmTagSizeBytes = 16"

definition kGcmContainerVersion :: byte where
  "kGcmContainerVersion = 1"

record gcm_container =
  gc_nonce :: bytes
  gc_tag :: bytes
  gc_ciphertext :: bytes

definition kGcmMaxBlocks :: u64 where
  "kGcmMaxBlocks = push_bit 32 1 - 2"

definition kGcmMaxPlaintextBytes :: u64 where
  "kGcmMaxPlaintextBytes = kGcmMaxBlocks * of_nat kBlockSizeBytes"

definition gcm_encrypt_block :: "platform \<Rightarrow> secret_key \<Rightarrow> bytes \<Rightarrow> bytes res" where
  "gcm_encrypt_block pf key block =
     res_bind (active_backend pf) (\<lambda>backend.
       let hw = (backend = Hardware)
       in if key_size_bytes key = 16 then
            (if hw then aes128_encrypt_block_hw pf key block
             else Inr (aes128_encrypt_block_soft key block))
          else
            (if hw then aes256_encrypt_block_hw pf key block
             else Inr (aes256_encrypt_block_soft key block)))"

definition gcm_make_counter_block :: "bytes \<Rightarrow> u32 \<Rightarrow> bytes" where
  "gcm_make_counter_block nonce counter =
     (let block = replicate kBlockSizeBytes 0;
          block = fold (\<lambda>i b. b[i := nonce ! i]) [0..<kGcmNonceSizeBytes] block
      in block[12 := ucast (drop_bit 24 counter AND 0xff),
               13 := ucast (drop_bit 16 counter AND 0xff),
               14 := ucast (drop_bit 8 counter AND 0xff),
               15 := ucast (counter AND 0xff)])"

function gcm_apply_keystream_loop ::
  "platform \<Rightarrow> secret_key \<Rightarrow> bytes \<Rightarrow> bytes \<Rightarrow> nat \<Rightarrow> u32 \<Rightarrow> bytes \<Rightarrow> bytes res" where
  "gcm_apply_keystream_loop pf key nonce input offset counter output =
     (if offset < length input then
        res_bind (gcm_encrypt_block pf key (gcm_make_counter_block nonce counter)) (\<lambda>keystream.
          let chunk = min kBlockSizeBytes (length input - offset);
              output = fold (\<lambda>i out. out[offset + i := input ! (offset + i) XOR keystream ! i])
                [0..<chunk] output
          in gcm_apply_keystream_loop pf key nonce input (offset + kBlockSizeBytes) (counter + 1) output)
      else Inr output)"
  by pat_completeness auto
termination
  by (relation "measure (\<lambda>(pf, key, nonce, input, offset, counter, output). length input - offset)")
    (auto simp: kBlockSizeBytes_def)

declare gcm_apply_keystream_loop.simps [simp del]

definition gcm_apply_keystream :: "platform \<Rightarrow> secret_key \<Rightarrow> bytes \<Rightarrow> bytes \<Rightarrow> bytes res" where
  "gcm_apply_keystream pf key nonce input =
     gcm_apply_keystream_loop pf key nonce input 0 2 (replicate (length input) 0)"

definition gcm_generate_nonce :: "'w system \<Rightarrow> ('w, bytes) io" where
  "gcm_generate_nonce os = fill_random os kGcmNonceSizeBytes"

definition gcm_validate_block_count :: "nat \<Rightarrow> unit res" where
  "gcm_validate_block_count plaintext_len =
     (if (of_nat plaintext_len :: u64) > kGcmMaxPlaintextBytes then
        Inl (LimitError (''plaintext exceeds the limit addressable by this GCM '' @
          ''construction's 32-bit block counter''))
      else Inr ())"

definition kGcmInvocationLimit :: u64 where
  "kGcmInvocationLimit = push_bit 32 1"

definition check_gcm_invocation_count :: "u64 \<Rightarrow> unit res" where
  "check_gcm_invocation_count prior_invocations =
     (if prior_invocations \<ge> kGcmInvocationLimit then
        Inl (LimitError (''this SecretKey has been used for AesGcm::encrypt() more than NIST SP '' @
          ''800-38D section 8.3's recommended 2^32-per-key limit for random GCM nonces; rotate '' @
          ''to a new key''))
      else Inr ())"

definition xor_blocks :: "bytes \<Rightarrow> bytes \<Rightarrow> bytes" where
  "xor_blocks a b = map (\<lambda>i. a ! i XOR b ! i) [0..<kBlockSizeBytes]"

text \<open>
  \<^verbatim>\<open>compute_tag\<close>: the tag, and the two secret locals \<^verbatim>\<open>h\<close> and \<^verbatim>\<open>e_j0\<close> as they go out of
  scope.
\<close>

definition compute_tag_run ::
  "platform \<Rightarrow> secret_key \<Rightarrow> bytes \<Rightarrow> bytes \<Rightarrow> bytes \<Rightarrow> (bytes \<times> bytes \<times> bytes) res" where
  "compute_tag_run pf key nonce aad ciphertext =
     (let zero = replicate kBlockSizeBytes 0
      in res_bind (gcm_encrypt_block pf key zero) (\<lambda>h.
           let j0 = gcm_make_counter_block nonce 1;
               s = ghash h aad ciphertext
           in res_bind (gcm_encrypt_block pf key j0) (\<lambda>e_j0.
                let tag = xor_blocks e_j0 s;
                    h = secure_wipe h (length h);
                    e_j0 = secure_wipe e_j0 (length e_j0)
                in Inr (tag, h, e_j0))))"

definition compute_tag :: "platform \<Rightarrow> secret_key \<Rightarrow> bytes \<Rightarrow> bytes \<Rightarrow> bytes \<Rightarrow> bytes res" where
  "compute_tag pf key nonce aad ciphertext =
     res_bind (compute_tag_run pf key nonce aad ciphertext) (\<lambda>(tag, _). Inr tag)"

definition gcm_encrypt ::
  "'w system \<Rightarrow> platform \<Rightarrow> secret_key \<Rightarrow> bytes \<Rightarrow> bytes \<Rightarrow> 'w \<Rightarrow>
   (gcm_container res \<times> secret_key \<times> 'w) option" where
  "gcm_encrypt os pf key plaintext aad w =
     (case gcm_validate_block_count (length plaintext) of
        Inl e \<Rightarrow> Some (Inl e, key, w)
      | Inr _ \<Rightarrow>
          (case consume_gcm_invocation key of (prior, key) \<Rightarrow>
             (case check_gcm_invocation_count prior of
                Inl e \<Rightarrow> Some (Inl e, key, w)
              | Inr _ \<Rightarrow>
                  (case gcm_generate_nonce os w of
                     None \<Rightarrow> None
                   | Some (Inl e, w) \<Rightarrow> Some (Inl e, key, w)
                   | Some (Inr nonce, w) \<Rightarrow>
                       Some (res_bind (gcm_apply_keystream pf key nonce plaintext) (\<lambda>ciphertext.
                          res_bind (compute_tag pf key nonce aad ciphertext) (\<lambda>tag.
                            Inr \<lparr>gc_nonce = nonce, gc_tag = tag, gc_ciphertext = ciphertext\<rparr>)),
                          key, w)))))"

definition gcm_decrypt :: "platform \<Rightarrow> secret_key \<Rightarrow> gcm_container \<Rightarrow> bytes \<Rightarrow> bytes res" where
  "gcm_decrypt pf key container aad =
     res_bind (gcm_validate_block_count (length (gc_ciphertext container))) (\<lambda>_.
     res_bind (compute_tag pf key (gc_nonce container) aad (gc_ciphertext container)) (\<lambda>expected_tag.
       if \<not> constant_time_equal expected_tag (gc_tag container) kGcmTagSizeBytes then
         Inl (AuthenticationError
           ''GCM authentication failed: wrong key/nonce/aad, or tampered ciphertext/tag'')
       else gcm_apply_keystream pf key (gc_nonce container) (gc_ciphertext container)))"

text \<open>\<^verbatim>\<open>{'A', 'E', 'S', 'G'}\<close> as bytes.\<close>

definition kGcmMagic :: bytes where
  "kGcmMagic = [0x41, 0x45, 0x53, 0x47]"

definition kGcmHeaderSize :: nat where
  "kGcmHeaderSize = 4 + 1 + kGcmNonceSizeBytes + kGcmTagSizeBytes + 8"

definition serialize_gcm :: "gcm_container \<Rightarrow> bytes" where
  "serialize_gcm container =
     (let out = kGcmMagic;
          out = out @ [kGcmContainerVersion];
          out = out @ gc_nonce container;
          out = out @ gc_tag container;
          ct_len = of_nat (length (gc_ciphertext container)) :: u64;
          out = out @ map (\<lambda>i. ucast (drop_bit (8 * i) ct_len AND 0xff)) [0..<8]
      in out @ gc_ciphertext container)"

definition deserialize_gcm :: "bytes \<Rightarrow> gcm_container res" where
  "deserialize_gcm data =
     (if length data < kGcmHeaderSize then Inl (FormatError ''GCM container truncated: missing header'')
      else if list_ex (\<lambda>i. data ! i \<noteq> kGcmMagic ! i) [0..<4] then
        Inl (FormatError ''GCM container has bad magic bytes'')
      else
        let version = data ! 4
        in if version \<noteq> kGcmContainerVersion then
             Inl (FormatError (''unsupported GCM container version: '' @ to_string (unat version)))
           else
             let offset = 5;
                 nonce = take kGcmNonceSizeBytes (drop offset data);
                 offset = offset + kGcmNonceSizeBytes;
                 tag = take kGcmTagSizeBytes (drop offset data);
                 offset = offset + kGcmTagSizeBytes;
                 ct_len = fold (\<lambda>i v. v OR push_bit (8 * i) (ucast (data ! (offset + i))))
                   [0..<8] (0 :: u64);
                 offset = offset + 8
             in if length data - offset \<noteq> unat ct_len then
                  Inl (FormatError ''GCM container ciphertext length mismatch'')
                else Inr \<lparr>gc_nonce = nonce, gc_tag = tag, gc_ciphertext = drop offset data\<rparr>)"

definition save_gcm_container :: "'w system \<Rightarrow> gcm_container \<Rightarrow> string \<Rightarrow> ('w, unit) io" where
  "save_gcm_container os container path = write_file os path (serialize_gcm container)"

definition load_gcm_container :: "'w system \<Rightarrow> string \<Rightarrow> ('w, gcm_container) io" where
  "load_gcm_container os path = io_bind (read_file os path) (\<lambda>data. io_lift (deserialize_gcm data))"

section \<open>The keystream\<close>

text \<open>The block helpers are the same code as in \<^verbatim>\<open>src/aes256_ctr.cpp\<close>.\<close>

lemma gcm_encrypt_block_fn: "gcm_encrypt_block pf key block = Inr (block_fn pf key block)"
  using encrypt_block_fn [of pf key block]
  by (simp add: gcm_encrypt_block_def encrypt_block_def Let_def)

lemma gcm_make_counter_block_append:
  "length nonce = 12 \<Longrightarrow> gcm_make_counter_block nonce counter = nonce @ be_encode 4 counter"
  using make_counter_block_append [of nonce counter]
  by (simp add: gcm_make_counter_block_def make_counter_block_def kGcmNonceSizeBytes_def
      kNonceSizeBytes_def)

interpretation gcm: counter_loop "block_fn pf key" "gcm_apply_keystream_loop pf key" for pf key
proof
  show "length (block_fn pf key b) = 16" if "length b = 16" for b
    using that by (rule length_block_fn)
  show "gcm_apply_keystream_loop pf key nonce input offset counter out' = Inr out'"
    if "\<not> offset < length input" for nonce input offset counter out'
    using that by (simp add: gcm_apply_keystream_loop.simps)
  show "gcm_apply_keystream_loop pf key nonce input offset counter out' =
      gcm_apply_keystream_loop pf key nonce input (offset + 16) (counter + 1)
        (fold (\<lambda>i out. out[offset + i := input ! (offset + i) XOR
            block_fn pf key (nonce @ be_encode 4 counter) ! i])
          [0..<min 16 (length input - offset)] out')"
    if "length nonce = 12" "offset < length input" for nonce input offset counter out'
    using that
    by (subst gcm_apply_keystream_loop.simps)
      (simp add: gcm_encrypt_block_fn gcm_make_counter_block_append kBlockSizeBytes_def Let_def)
qed

lemma gcm_apply_keystream_total:
  assumes "length nonce = 12"
  shows "\<exists>out. gcm_apply_keystream pf key nonce input = Inr out \<and> length out = length input \<and>
    (\<forall>i < length input. out ! i = input ! i XOR
       block_fn pf key (nonce @ be_encode 4 (2 + of_nat (i div 16) :: u32)) ! (i mod 16))"
proof -
  obtain out where out: "gcm_apply_keystream_loop pf key nonce input 0 2 (replicate (length input) 0) = Inr out"
    using gcm.run_stream [OF assms] by blast
  with gcm.run_length [OF assms out] gcm.nth_run [OF assms out] show ?thesis
    by (simp add: gcm_apply_keystream_def)
qed

lemma gcm_apply_keystream_involution:
  "length nonce = 12 \<Longrightarrow> gcm_apply_keystream pf key nonce x = Inr y \<Longrightarrow>
   gcm_apply_keystream pf key nonce y = Inr x"
  unfolding gcm_apply_keystream_def by (rule gcm.run_involution)

lemma gcm_apply_keystream_cong:
  assumes "length nonce = 12"
    and "\<And>b. length b = 16 \<Longrightarrow> block_fn pf1 key1 b = block_fn pf2 key2 b"
  shows "gcm_apply_keystream pf1 key1 nonce x = gcm_apply_keystream pf2 key2 nonce x"
proof -
  have "gcm.stream pf1 key1 nonce c n = gcm.stream pf2 key2 nonce c n" for c n
    using assms by (simp add: gcm.stream_def)
  then show ?thesis
    using assms(1) by (simp add: gcm_apply_keystream_def gcm.run_stream)
qed

section \<open>The tag\<close>

definition gcm_tag :: "(bytes \<Rightarrow> bytes) \<Rightarrow> bytes \<Rightarrow> bytes \<Rightarrow> bytes \<Rightarrow> bytes" where
  "gcm_tag enc nonce aad ciphertext =
     xor_bytes (enc (nonce @ be_encode 4 (1 :: u32))) (ghash (enc (replicate 16 0)) aad ciphertext)"

lemma compute_tag_run_eq:
  assumes "length nonce = 12"
  shows "compute_tag_run pf key nonce aad ct =
    Inr (gcm_tag (block_fn pf key) nonce aad ct, replicate 16 0, replicate 16 0)"
proof -
  have "length (block_fn pf key (nonce @ be_encode 4 (1 :: u32))) = 16"
    "length (block_fn pf key (replicate 16 0)) = 16"
    using assms by (simp_all add: length_block_fn)
  then show ?thesis
    using assms
    by (simp add: compute_tag_run_def Let_def gcm_encrypt_block_fn gcm_make_counter_block_append
        xor_blocks_def map_xor_upt gcm_tag_def secure_wipe_zero kBlockSizeBytes_def)
qed

lemma compute_tag_eq:
  "length nonce = 12 \<Longrightarrow> compute_tag pf key nonce aad ct = Inr (gcm_tag (block_fn pf key) nonce aad ct)"
  by (simp add: compute_tag_def compute_tag_run_eq)

lemma length_gcm_tag:
  "length nonce = 12 \<Longrightarrow> length (gcm_tag (block_fn pf key) nonce aad ct) = 16"
  by (simp add: gcm_tag_def length_block_fn)

lemma gcm_validate_iff:
  assumes "n < 2 ^ 64"
  shows "gcm_validate_block_count n = Inr () \<longleftrightarrow> n \<le> 2 ^ 36 - 32"
proof -
  have "unat (of_nat n :: u64) = n" "unat kGcmMaxPlaintextBytes = 2 ^ 36 - 32"
    using assms by (simp_all add: unsigned_of_nat take_bit_nat_eq_self kGcmMaxPlaintextBytes_def
        kGcmMaxBlocks_def kBlockSizeBytes_def)
  then show ?thesis
    by (simp add: gcm_validate_block_count_def word_less_nat_alt linorder_not_less)
qed

lemma gcm_validate_cases:
  "n < 2 ^ 64 \<Longrightarrow> (gcm_validate_block_count n = Inr () \<and> n \<le> 2 ^ 36 - 32) \<or>
     (\<exists>m. gcm_validate_block_count n = Inl (LimitError m)) \<and> 2 ^ 36 - 32 < n"
  using gcm_validate_iff [of n]
  by (cases "n \<le> 2 ^ 36 - 32") (auto simp: gcm_validate_block_count_def split: if_splits)

section \<open>The invocation counter\<close>

text \<open>The count of a key has no part in the block cipher.\<close>

lemma block_fn_invocations [simp]:
  "block_fn pf (key\<lparr>sk_gcm_invocations := n\<rparr>) = block_fn pf key"
proof -
  have kb: "key_bytes (key\<lparr>sk_gcm_invocations := n\<rparr>) = key_bytes key"
    "key_size_bytes (key\<lparr>sk_gcm_invocations := n\<rparr>) = key_size_bytes key"
    by (simp_all add: key_bytes_def key_size_bytes_def)
  have ek: "expand_key Nk Nr (key\<lparr>sk_gcm_invocations := n\<rparr>) = expand_key Nk Nr key" for Nk Nr
    by (simp add: expand_key_def kb)
  have "aes128_encrypt_block_hw pf (key\<lparr>sk_gcm_invocations := n\<rparr>) = aes128_encrypt_block_hw pf key"
    "aes256_encrypt_block_hw pf (key\<lparr>sk_gcm_invocations := n\<rparr>) = aes256_encrypt_block_hw pf key"
    by (cases "pf_arch pf"; simp add: fun_eq_iff aes128_encrypt_block_hw_def aes256_encrypt_block_hw_def
        aes256_encrypt_block_ni_def aes256_encrypt_block_ni_run_def expand_key_ni_def
        aes128_encrypt_block_ni_def aes128_encrypt_block_ni_run_def expand_key128_ni_def
        aes256_encrypt_block_arm_def aes128_encrypt_block_arm_def aes_encrypt_block_arm_def
        aes_encrypt_block_arm_run_def aes256_encrypt_block_riscv_def aes128_encrypt_block_riscv_def
        expand_key256_riscv_def expand_key128_riscv_def kb ek)+
  moreover have "aes128_encrypt_block_soft (key\<lparr>sk_gcm_invocations := n\<rparr>) = aes128_encrypt_block_soft key"
    "aes256_encrypt_block_soft (key\<lparr>sk_gcm_invocations := n\<rparr>) = aes256_encrypt_block_soft key"
    by (simp_all add: fun_eq_iff aes128_encrypt_block_soft_def aes256_encrypt_block_soft_def
        aes_encrypt_block_soft_def aes_encrypt_block_soft_run_def ek)
  ultimately show ?thesis
    by (intro ext) (simp only: block_fn_def encrypt_block_def kb)
qed

lemma check_gcm_invocation_iff: "check_gcm_invocation_count n = Inr () \<longleftrightarrow> unat n < 2 ^ 32"
  by (simp add: check_gcm_invocation_count_def kGcmInvocationLimit_def word_le_nat_alt linorder_not_le)

lemma check_gcm_invocation_error:
  "2 ^ 32 \<le> unat n \<Longrightarrow> \<exists>m. check_gcm_invocation_count n = Inl (LimitError m)"
  by (simp add: check_gcm_invocation_count_def kGcmInvocationLimit_def word_le_nat_alt)

text \<open>A successful call, taken apart.\<close>

lemma gcm_encrypt_InrE:
  assumes "gcm_encrypt os pf key plaintext aad w = Some (Inr c, key', w')"
  obtains "gcm_validate_block_count (length plaintext) = Inr ()"
    "unat (sk_gcm_invocations key) < 2 ^ 32"
    "key' = key\<lparr>sk_gcm_invocations := sk_gcm_invocations key + 1\<rparr>"
    "fill_random os 12 w = Some (Inr (gc_nonce c), w')"
    "gcm_apply_keystream pf key' (gc_nonce c) plaintext = Inr (gc_ciphertext c)"
    "compute_tag pf key' (gc_nonce c) aad (gc_ciphertext c) = Inr (gc_tag c)"
proof -
  have v: "gcm_validate_block_count (length plaintext) = Inr ()"
    using assms by (auto simp: gcm_encrypt_def split: sum.splits)
  have n: "check_gcm_invocation_count (sk_gcm_invocations key) = Inr ()"
    using assms v by (auto simp: gcm_encrypt_def consume_gcm_invocation_def split: sum.splits)
  let ?key = "key\<lparr>sk_gcm_invocations := sk_gcm_invocations key + 1\<rparr>"
  obtain nonce where f: "fill_random os 12 w = Some (Inr nonce, w')" and k: "key' = ?key"
    and r: "res_bind (gcm_apply_keystream pf ?key nonce plaintext) (\<lambda>ciphertext.
       res_bind (compute_tag pf ?key nonce aad ciphertext) (\<lambda>tag.
         Inr \<lparr>gc_nonce = nonce, gc_tag = tag, gc_ciphertext = ciphertext\<rparr>)) = Inr c"
    using assms v n
    by (auto simp: gcm_encrypt_def consume_gcm_invocation_def gcm_generate_nonce_def
        kGcmNonceSizeBytes_def split: option.splits sum.splits prod.splits)
  from r obtain ct tag where "gcm_apply_keystream pf ?key nonce plaintext = Inr ct"
    "compute_tag pf ?key nonce aad ct = Inr tag"
    "c = \<lparr>gc_nonce = nonce, gc_tag = tag, gc_ciphertext = ct\<rparr>"
    by (auto simp: res_bind_Inr_iff)
  with that v f k show ?thesis
    using n check_gcm_invocation_iff [of "sk_gcm_invocations key"] by simp
qed

text \<open>A call succeeds when the limits are kept and the random source answers.\<close>

lemma gcm_encrypt_succeeds:
  assumes "random_documented os" and "gcm_validate_block_count (length plaintext) = Inr ()"
    and "unat (sk_gcm_invocations key) < 2 ^ 32" and "fill_random os 12 w = Some (Inr nonce, w')"
  shows "\<exists>c. gcm_encrypt os pf key plaintext aad w =
    Some (Inr c, key\<lparr>sk_gcm_invocations := sk_gcm_invocations key + 1\<rparr>, w')"
proof -
  have n: "length nonce = 12"
    by (rule fill_random_length [OF assms(1,4)]) simp
  let ?key = "key\<lparr>sk_gcm_invocations := sk_gcm_invocations key + 1\<rparr>"
  obtain ct where "gcm_apply_keystream pf ?key nonce plaintext = Inr ct"
    using gcm_apply_keystream_total [OF n] by blast
  with assms(2-4) n check_gcm_invocation_iff [of "sk_gcm_invocations key"] show ?thesis
    by (simp add: gcm_encrypt_def consume_gcm_invocation_def gcm_generate_nonce_def
        kGcmNonceSizeBytes_def compute_tag_eq)
qed

text \<open>The count after any call that returns.\<close>

lemma gcm_encrypt_count:
  assumes "gcm_encrypt os pf key plaintext aad w = Some (r, key', w')"
  shows "key' = key \<or> key' = key\<lparr>sk_gcm_invocations := sk_gcm_invocations key + 1\<rparr>"
  using assms
  by (auto simp: gcm_encrypt_def consume_gcm_invocation_def split: sum.splits option.splits prod.splits)

text \<open>
  A key object in use: any number of \<^verbatim>\<open>encrypt\<close> calls, on any messages and with the rest of
  the world changing in between. \<open>gcm_calls os pf key n k key'\<close> holds when \<open>n\<close> calls on \<open>key\<close>,
  of which \<open>k\<close> succeeded, leave it as \<open>key'\<close>.
\<close>

inductive gcm_calls :: "'w system \<Rightarrow> platform \<Rightarrow> secret_key \<Rightarrow> nat \<Rightarrow> nat \<Rightarrow> secret_key \<Rightarrow> bool"
  for os pf key where
  gcm_calls_none: "gcm_calls os pf key 0 0 key"
| gcm_calls_ok: "gcm_calls os pf key n k key1 \<Longrightarrow>
    gcm_encrypt os pf key1 plaintext aad w = Some (Inr c, key2, w') \<Longrightarrow>
    gcm_calls os pf key (Suc n) (Suc k) key2"
| gcm_calls_error: "gcm_calls os pf key n k key1 \<Longrightarrow>
    gcm_encrypt os pf key1 plaintext aad w = Some (Inl e, key2, w') \<Longrightarrow>
    gcm_calls os pf key (Suc n) k key2"

inductive_simps gcm_calls_0: "gcm_calls os pf key 0 k key'"

lemma unat_add_1: "unat (x :: u64) < 2 ^ 64 - 1 \<Longrightarrow> unat (x + 1) = unat x + 1"
  by (simp add: unat_word_ariths)

lemma gcm_calls_invariant:
  assumes "gcm_calls os pf key n k key'" and "sk_gcm_invocations key = 0" and "n < 2 ^ 64"
  shows "k \<le> 2 ^ 32 \<and> k \<le> unat (sk_gcm_invocations key') \<and> unat (sk_gcm_invocations key') \<le> n"
  using assms
proof (induction rule: gcm_calls.induct)
  case (gcm_calls_ok n k key1 plaintext aad w c key2 w')
  from gcm_calls_ok.hyps(2) have "unat (sk_gcm_invocations key1) < 2 ^ 32"
    "key2 = key1\<lparr>sk_gcm_invocations := sk_gcm_invocations key1 + 1\<rparr>"
    by (auto elim: gcm_encrypt_InrE)
  with gcm_calls_ok.IH gcm_calls_ok.prems unat_add_1 [of "sk_gcm_invocations key1"] show ?case
    by simp
next
  case (gcm_calls_error n k key1 plaintext aad w e key2 w')
  with gcm_encrypt_count [OF gcm_calls_error.hyps(2)] unat_add_1 [of "sk_gcm_invocations key1"]
  show ?case by auto
qed simp

section \<open>The container format\<close>

definition gcm_container_valid :: "gcm_container \<Rightarrow> bool" where
  "gcm_container_valid c \<longleftrightarrow> length (gc_nonce c) = 12 \<and> length (gc_tag c) = 16 \<and>
     length (gc_ciphertext c) < 2 ^ 64"

lemma serialize_gcm_layout:
  "serialize_gcm c = kGcmMagic @ [kGcmContainerVersion] @ gc_nonce c @ gc_tag c @
     le_encode 8 (of_nat (length (gc_ciphertext c)) :: u64) @ gc_ciphertext c"
  by (simp add: serialize_gcm_def Let_def le_encode_loop)

lemma deserialize_gcm_iff:
  "deserialize_gcm data = Inr c \<longleftrightarrow> kGcmHeaderSize \<le> length data \<and> take 4 data = kGcmMagic \<and>
     data ! 4 = kGcmContainerVersion \<and>
     length data - 41 = unat (le_decode (take 8 (drop 33 data)) :: u64) \<and>
     c = \<lparr>gc_nonce = take 12 (drop 5 data), gc_tag = take 16 (drop 17 data),
          gc_ciphertext = drop 41 data\<rparr>"
proof (cases "kGcmHeaderSize \<le> length data")
  case True
  then have "4 \<le> length data" "33 + 8 \<le> length data"
    by (simp_all add: kGcmHeaderSize_def kGcmNonceSizeBytes_def kGcmTagSizeBytes_def)
  with True show ?thesis
    using magic_check [of kGcmMagic data] le_decode_loop [of 33 8 data, where 'a = 64]
    by (auto simp: deserialize_gcm_def Let_def kGcmHeaderSize_def kGcmNonceSizeBytes_def
        kGcmTagSizeBytes_def kGcmMagic_def)
qed (simp add: deserialize_gcm_def)

lemma gcm_data_split:
  assumes "41 \<le> length data"
  shows "data = take 4 data @ [data ! 4] @ take 12 (drop 5 data) @ take 16 (drop 17 data) @
    take 8 (drop 33 data) @ drop 41 data"
  using assms
  by (intro nth_equalityI) (auto simp: nth_append nth_Cons' nth_drop)

interpretation gcm_file: codec serialize_gcm deserialize_gcm gcm_container_valid
proof
  fix c
  assume v: "gcm_container_valid c"
  then show "deserialize_gcm (serialize_gcm c) = Inr c"
    using le_encode_length_field [of "gc_ciphertext c"]
    by (simp add: deserialize_gcm_iff serialize_gcm_layout gcm_container_valid_def kGcmHeaderSize_def
        kGcmNonceSizeBytes_def kGcmTagSizeBytes_def kGcmMagic_def nth_append)
next
  fix data c
  assume d: "deserialize_gcm data = Inr c"
  then have len: "41 \<le> length data"
    by (simp add: deserialize_gcm_iff kGcmHeaderSize_def kGcmNonceSizeBytes_def kGcmTagSizeBytes_def)
  have "length data - 41 < 2 ^ 64"
    using d unsigned_less [of "le_decode (take 8 (drop 33 data)) :: u64"]
    by (simp add: deserialize_gcm_iff)
  with d len show "gcm_container_valid c"
    by (auto simp: deserialize_gcm_iff gcm_container_valid_def)
  show "serialize_gcm c = data"
    using d len length_field_encode [of "take 8 (drop 33 data)"] gcm_data_split [OF len]
    by (auto simp: deserialize_gcm_iff serialize_gcm_layout)
qed

text \<open>Decryption undoes a successful encryption.\<close>

lemma gcm_encrypt_decrypt:
  assumes "random_documented os"
    and "gcm_encrypt os pf1 key plaintext aad w = Some (Inr c, key', w')"
    and "pf2 = pf1 \<or> platform_documented pf1 \<and> platform_documented pf2 \<and> key_wf key"
  shows "gcm_decrypt pf2 key c aad = Inr plaintext \<and> gcm_decrypt pf2 key' c aad = Inr plaintext \<and>
    fill_random os 12 w = Some (Inr (gc_nonce c), w') \<and> length (gc_nonce c) = 12 \<and>
    length (gc_tag c) = 16 \<and> length (gc_ciphertext c) = length plaintext \<and>
    key' = key\<lparr>sk_gcm_invocations := sk_gcm_invocations key + 1\<rparr>"
proof -
  obtain v: "gcm_validate_block_count (length plaintext) = Inr ()"
    and k: "key' = key\<lparr>sk_gcm_invocations := sk_gcm_invocations key + 1\<rparr>"
    and f: "fill_random os 12 w = Some (Inr (gc_nonce c), w')"
    and a: "gcm_apply_keystream pf1 key' (gc_nonce c) plaintext = Inr (gc_ciphertext c)"
    and t: "compute_tag pf1 key' (gc_nonce c) aad (gc_ciphertext c) = Inr (gc_tag c)"
    using assms(2) by (rule gcm_encrypt_InrE)
  have n: "length (gc_nonce c) = 12"
    by (rule fill_random_length [OF assms(1) f]) simp
  have len: "length (gc_ciphertext c) = length plaintext"
    using gcm_apply_keystream_total [OF n, of pf1 key' plaintext] a by auto
  have same: "block_fn pf2 key b = block_fn pf1 key b" if "length b = 16" for b
    using assms(3) that by (auto simp: block_fn_documented)
  have tag: "gc_tag c = gcm_tag (block_fn pf1 key) (gc_nonce c) aad (gc_ciphertext c)"
    using t by (simp add: compute_tag_eq [OF n] k)
  also have "\<dots> = gcm_tag (block_fn pf2 key) (gc_nonce c) aad (gc_ciphertext c)"
    by (simp add: gcm_tag_def same n)
  finally have tag2: "gc_tag c = gcm_tag (block_fn pf2 key) (gc_nonce c) aad (gc_ciphertext c)" .
  have "gcm_apply_keystream pf1 key' (gc_nonce c) (gc_ciphertext c) = Inr plaintext"
    using a n by (rule gcm_apply_keystream_involution [rotated])
  moreover have "gcm_apply_keystream pf2 K (gc_nonce c) x = gcm_apply_keystream pf1 key' (gc_nonce c) x"
    if "K = key \<or> K = key'" for K x
    using that same by (intro gcm_apply_keystream_cong [OF n]) (auto simp: k)
  ultimately have "gcm_decrypt pf2 K c aad = Inr plaintext" if "K = key \<or> K = key'" for K
    using that v len tag2 length_gcm_tag [OF n, of pf2 key aad "gc_ciphertext c"]
    by (auto simp: gcm_decrypt_def compute_tag_eq [OF n] constant_time_equal_iff kGcmTagSizeBytes_def k)
  with f n len k tag show ?thesis
    by (simp add: length_gcm_tag)
qed

section \<open>Properties\<close>

text \<open>
  C2. AES-GCM round trip: what \<^verbatim>\<open>AesGcm::encrypt\<close> returns has a fresh 12-byte nonce, a
  16-byte tag and a ciphertext as long as the plaintext, and \<^verbatim>\<open>decrypt\<close> with the same key
  and the same additional data authenticates it and gives the plaintext back, on the same
  platform or on any other one with documented hardware. The call consumed one invocation
  of the key.
\<close>

theorem gcm_roundtrip:
  assumes "random_documented os"
    and "gcm_encrypt os pf1 key plaintext aad w = Some (Inr c, key', w')"
    and "pf2 = pf1 \<or> platform_documented pf1 \<and> platform_documented pf2 \<and> key_wf key"
  shows "gcm_decrypt pf2 key c aad = Inr plaintext \<and> gcm_decrypt pf2 key' c aad = Inr plaintext \<and>
    fill_random os 12 w = Some (Inr (gc_nonce c), w') \<and> length (gc_nonce c) = 12 \<and>
    length (gc_tag c) = 16 \<and> length (gc_ciphertext c) = length plaintext \<and>
    key' = key\<lparr>sk_gcm_invocations := sk_gcm_invocations key + 1\<rparr>"
  by (rule gcm_encrypt_decrypt [OF assms])

theorem gcm_roundtrip_witness:
  "\<exists>c key' w'. gcm_encrypt mem_posix (x86_platform (push_bit 25 1) None) SecretKey [1, 2, 3] [9] mem_start =
      Some (Inr c, key', w') \<and>
    gcm_decrypt (x86_platform 0 None) SecretKey c [9] = Inr [1, 2, 3] \<and>
    sk_gcm_invocations key' = 1"
proof -
  let ?pf = "x86_platform (push_bit 25 1) None"
  have c0: "sk_gcm_invocations SecretKey = 0"
    by (simp add: SecretKey_def lock_memory_def)
  obtain c where e: "gcm_encrypt mem_posix ?pf SecretKey [1, 2, 3] [9] mem_start =
      Some (Inr c, SecretKey\<lparr>sk_gcm_invocations := sk_gcm_invocations SecretKey + 1\<rparr>, mem_start\<lparr>mw_calls := 2\<rparr>)"
    using gcm_encrypt_succeeds [OF mem_random_documented(1) _ _ mem_fill_12, of "[1, 2, 3]" SecretKey ?pf "[9]"]
      gcm_validate_iff [of "Suc (Suc (Suc 0))"] c0 by auto
  show ?thesis
    using e gcm_roundtrip [OF mem_random_documented(1) e, of "x86_platform 0 None"] x86_platform_documented c0
    by auto
qed

text \<open>
  C1. The verdict of AES-GCM decryption, on documented hardware and for a container with
  its 12-byte nonce and 16-byte tag: beyond \<open>2 ^ 36 - 32\<close> bytes it throws \<^verbatim>\<open>LimitError\<close>; if the
  tag differs in any bit from \<open>E(K, nonce || 1)\<close> xor GHASH of the additional data and the
  ciphertext under \<open>E(K, 0)\<close>, it throws \<^verbatim>\<open>AuthenticationError\<close> and no plaintext is produced;
  otherwise it returns the ciphertext xor the keystream from counter 2.
\<close>

theorem gcm_decrypt_verdict:
  assumes "platform_documented pf" and "key_wf key" and "length (gc_nonce c) = 12"
    and "length (gc_tag c) = 16" and "length (gc_ciphertext c) < 2 ^ 64"
  shows "if 2 ^ 36 - 32 < length (gc_ciphertext c) then
      (\<exists>m. gcm_decrypt pf key c aad = Inl (LimitError m))
    else if gc_tag c \<noteq> xor_bytes (soft_block key (gc_nonce c @ [0, 0, 0, 1]))
        (ghash (soft_block key (replicate 16 0)) aad (gc_ciphertext c)) then
      (\<exists>m. gcm_decrypt pf key c aad = Inl (AuthenticationError m))
    else
      (\<exists>out. gcm_decrypt pf key c aad = Inr out \<and> length out = length (gc_ciphertext c) \<and>
        (\<forall>i < length out. out ! i = gc_ciphertext c ! i XOR
           soft_block key (gc_nonce c @ be_encode 4 (2 + of_nat (i div 16) :: u32)) ! (i mod 16)))"
proof (cases "2 ^ 36 - 32 < length (gc_ciphertext c)")
  case True
  with gcm_validate_cases [OF assms(5)] show ?thesis
    by (auto simp: gcm_decrypt_def)
next
  case False
  then have v: "gcm_validate_block_count (length (gc_ciphertext c)) = Inr ()"
    using gcm_validate_cases [OF assms(5)] by auto
  have one: "be_encode 4 (1 :: u32) = [0, 0, 0, 1]"
    by (simp add: be_encode_def le_encode_numeral)
  have tag: "gcm_tag (block_fn pf key) (gc_nonce c) aad (gc_ciphertext c) =
      xor_bytes (soft_block key (gc_nonce c @ [0, 0, 0, 1]))
        (ghash (soft_block key (replicate 16 0)) aad (gc_ciphertext c))" (is "?t = ?u")
    using block_fn_documented [OF assms(1,2)] assms(3) by (simp add: gcm_tag_def one)
  have ct: "constant_time_equal ?t (gc_tag c) 16 \<longleftrightarrow> ?t = gc_tag c"
    using assms(3,4) by (intro constant_time_equal_iff) (simp_all add: length_gcm_tag)
  have d: "gcm_decrypt pf key c aad =
      (if ?u = gc_tag c then gcm_apply_keystream pf key (gc_nonce c) (gc_ciphertext c)
       else Inl (AuthenticationError
         ''GCM authentication failed: wrong key/nonce/aad, or tampered ciphertext/tag''))"
    using v ct by (simp add: gcm_decrypt_def compute_tag_eq [OF assms(3)] kGcmTagSizeBytes_def tag)
  obtain out where out: "gcm_apply_keystream pf key (gc_nonce c) (gc_ciphertext c) = Inr out"
    "length out = length (gc_ciphertext c)"
    "\<forall>i < length (gc_ciphertext c). out ! i = gc_ciphertext c ! i XOR
       block_fn pf key (gc_nonce c @ be_encode 4 (2 + of_nat (i div 16) :: u32)) ! (i mod 16)"
    using gcm_apply_keystream_total [OF assms(3)] by blast
  have "block_fn pf key (gc_nonce c @ be_encode 4 n) = soft_block key (gc_nonce c @ be_encode 4 n)"
    for n :: u32
    using block_fn_documented [OF assms(1,2)] assms(3) by simp
  with False out show ?thesis
    unfolding d by (cases "?u = gc_tag c") simp_all
qed

theorem gcm_decrypt_verdict_witness:
  "let pf = x86_platform (push_bit 25 1) None;
       u = xor_bytes (soft_block SecretKey (replicate 12 9 @ [0, 0, 0, 1]))
             (ghash (soft_block SecretKey (replicate 16 0)) [] [7]);
       bad = map (\<lambda>b. b XOR 1) u
   in (\<exists>m. gcm_decrypt pf SecretKey \<lparr>gc_nonce = replicate 12 9, gc_tag = bad, gc_ciphertext = [7]\<rparr> [] =
         Inl (AuthenticationError m)) \<and>
      (\<exists>out. gcm_decrypt pf SecretKey \<lparr>gc_nonce = replicate 12 9, gc_tag = u, gc_ciphertext = [7]\<rparr> [] =
         Inr out \<and> length out = 1)"
proof -
  let ?pf = "x86_platform (push_bit 25 1) None"
  let ?u = "xor_bytes (soft_block SecretKey (replicate 12 9 @ [0, 0, 0, 1]))
             (ghash (soft_block SecretKey (replicate 16 0)) [] [7])"
  let ?c = "\<lambda>t. \<lparr>gc_nonce = replicate 12 9, gc_tag = t, gc_ciphertext = [7 :: byte]\<rparr>"
  have len: "length ?u = 16"
    by (simp add: soft_block_def aes256_encrypt_block_soft_def aes128_encrypt_block_soft_def
        length_aes_soft)
  have x: "map (\<lambda>b. b XOR 1) u \<noteq> u" if "length u = 16" for u :: bytes
  proof
    assume "map (\<lambda>b. b XOR 1) u = u"
    then have "u ! 0 XOR 1 = u ! 0"
      using that by (metis nth_map zero_less_numeral)
    then show False
      using xor_left_inject [of "u ! 0" 1 0] by simp
  qed
  show ?thesis
    using gcm_decrypt_verdict [OF x86_platform_documented [of "push_bit 25 1" None] key_wf_SecretKey,
        of "?c ?u" "[]"]
      gcm_decrypt_verdict [OF x86_platform_documented [of "push_bit 25 1" None] key_wf_SecretKey,
        of "?c (map (\<lambda>b. b XOR 1) ?u)" "[]"] len x [OF len]
    by (auto simp: Let_def)
qed



text \<open>
  C10. The per-key limit of NIST SP 800-38D: starting from a fresh key object, any sequence
  of fewer than \<open>2 ^ 64\<close> calls of \<^verbatim>\<open>AesGcm::encrypt\<close> contains at most \<open>2 ^ 32\<close> that succeed,
  whatever the messages and whatever failed in between; and a key at the limit refuses
  every accepted length with \<^verbatim>\<open>LimitError\<close> before a nonce is drawn.
\<close>

theorem gcm_invocation_limit:
  assumes "sk_gcm_invocations key = 0" and "gcm_calls os pf key n k key'" and "n < 2 ^ 64"
  shows "k \<le> 2 ^ 32 \<and> k \<le> unat (sk_gcm_invocations key') \<and>
    (unat (sk_gcm_invocations key') < 2 ^ 32 \<or>
      (\<exists>m key''. gcm_encrypt os pf key' plaintext aad w = Some (Inl (LimitError m), key'', w)))"
proof -
  have "\<exists>m key''. gcm_encrypt os pf key' plaintext aad w = Some (Inl (LimitError m), key'', w)"
    if "\<not> unat (sk_gcm_invocations key') < 2 ^ 32"
    using that check_gcm_invocation_error [of "sk_gcm_invocations key'"]
    by (auto simp: gcm_encrypt_def consume_gcm_invocation_def gcm_validate_block_count_def)
  with gcm_calls_invariant [OF assms(2,1,3)] show ?thesis by blast
qed

theorem gcm_invocation_limit_witness:
  "\<exists>key'. gcm_calls mem_posix (x86_platform 0 None) SecretKey 1 1 key' \<and>
     (1 :: nat) \<le> 2 ^ 32 \<and> 1 \<le> unat (sk_gcm_invocations key')"
proof -
  have c0: "sk_gcm_invocations SecretKey = 0"
    by (simp add: SecretKey_def lock_memory_def)
  obtain c where "gcm_encrypt mem_posix (x86_platform 0 None) SecretKey [] [] mem_start =
      Some (Inr c, SecretKey\<lparr>sk_gcm_invocations := sk_gcm_invocations SecretKey + 1\<rparr>, mem_start\<lparr>mw_calls := 2\<rparr>)"
    using gcm_encrypt_succeeds [OF mem_random_documented(1) _ _ mem_fill_12, of "[]" SecretKey
        "x86_platform 0 None" "[]"] gcm_validate_iff [of 0] c0 by auto
  from gcm_calls_ok [OF gcm_calls_none this]
  have "gcm_calls mem_posix (x86_platform 0 None) SecretKey 1 1
      (SecretKey\<lparr>sk_gcm_invocations := sk_gcm_invocations SecretKey + 1\<rparr>)" by simp
  with gcm_invocation_limit [OF c0 this] show ?thesis by auto
qed

text \<open>
  C24. The GCM container parser accepts exactly the serializations of containers with a
  12-byte nonce, a 16-byte tag and a ciphertext whose length fits 64 bits; it rejects
  everything else with \<^verbatim>\<open>FormatError\<close>, and in particular no byte string is accepted both as
  a GCM container and as a CTR container.
\<close>

theorem gcm_parser_accepts_exactly_serializations:
  "(deserialize_gcm data = Inr c \<longleftrightarrow> length (gc_nonce c) = 12 \<and> length (gc_tag c) = 16 \<and>
     length (gc_ciphertext c) < 2 ^ 64 \<and> data = serialize_gcm c) \<and>
   ((\<exists>c. deserialize_gcm data = Inr c) \<or> (\<exists>m. deserialize_gcm data = Inl (FormatError m))) \<and>
   \<not> (deserialize_gcm data = Inr c \<and> deserialize data = Inr d)"
proof (intro conjI)
  show "deserialize_gcm data = Inr c \<longleftrightarrow> length (gc_nonce c) = 12 \<and> length (gc_tag c) = 16 \<and>
      length (gc_ciphertext c) < 2 ^ 64 \<and> data = serialize_gcm c"
    using gcm_file.dec_iff [of data c] by (simp add: gcm_container_valid_def)
  show "(\<exists>c. deserialize_gcm data = Inr c) \<or> (\<exists>m. deserialize_gcm data = Inl (FormatError m))"
    by (auto simp: deserialize_gcm_def Let_def)
  show "\<not> (deserialize_gcm data = Inr c \<and> deserialize data = Inr d)"
    by (auto simp: deserialize_gcm_iff deserialize_iff kGcmMagic_def kMagic_def)
qed

end
