(* ===== verification/Key_File.thy ===== *)
theory Key_File
  imports Ctr_Mode
begin

text \<open>
  The plain key file of \<^verbatim>\<open>src/key.cpp\<close>: \<^verbatim>\<open>SecretKey::save_to_file\<close> and
  \<^verbatim>\<open>SecretKey::load_from_file\<close>, in the POSIX branch with their raw \<^verbatim>\<open>write\<close> and \<^verbatim>\<open>read\<close>
  loops, in the Windows branch with single \<^verbatim>\<open>WriteFile\<close> and \<^verbatim>\<open>ReadFile\<close> calls.
\<close>

section \<open>Definitions\<close>

definition kKeyFileVersion :: byte where
  "kKeyFileVersion = 2"

definition save_to_file_posix :: "'w system \<Rightarrow> secret_key \<Rightarrow> string \<Rightarrow> ('w, unit) io" where
  "save_to_file_posix os key path w =
     (let key_len = key_size_bytes key
      in case sys_open_wr os path (6 * 64) w of (fd, w) \<Rightarrow>
        if fd < 0 then Some (Inl (IoError (''failed to create key file: '' @ path)), w)
        else
          let header = [kKeyFileVersion, of_nat key_len]
          in case sys_write os fd header w of (n, w) \<Rightarrow>
            (case (if n = int (length header) then write_loop os fd (take key_len (sk_bytes key)) 0 w
                   else Some (False, w)) of
               None \<Rightarrow> None
             | Some (ok, w) \<Rightarrow>
                 let w = sys_close os fd w
                 in if \<not> ok then Some (Inl (IoError (''failed to write key file: '' @ path)), w)
                    else Some (Inr (), w)))"

text \<open>
  The Windows branch: version, size marker and key bytes in three writes, each of which
  must be complete; \<^verbatim>\<open>&&\<close> stops at the first that is not.
\<close>

definition save_to_file_win32 :: "'w system \<Rightarrow> secret_key \<Rightarrow> string \<Rightarrow> ('w, unit) io" where
  "save_to_file_win32 os key path w =
     (let key_len = key_size_bytes key
      in case w32_create_wr os path w of
        (None, w) \<Rightarrow> Some (Inl (IoError (''failed to create key file: '' @ path)), w)
      | (Some h, w) \<Rightarrow>
          (case w32_is_reparse_point os h w of (reparse, w) \<Rightarrow>
             if reparse then
               Some (Inl (IoError (''refusing to write key file through a symlink/reparse point: '' @ path)),
                 w32_CloseHandle os h w)
             else
               (case w32_write_all os h [kKeyFileVersion] w of (ok1, w) \<Rightarrow>
                (case (if ok1 then w32_write_all os h [of_nat key_len] w else (False, w)) of (ok2, w) \<Rightarrow>
                (case (if ok2 then w32_write_all os h (take key_len (sk_bytes key)) w else (False, w)) of
                  (ok, w) \<Rightarrow>
                    let w = w32_CloseHandle os h w
                    in if \<not> ok then Some (Inl (IoError (''failed to write key file: '' @ path)), w)
                       else Some (Inr (), w))))))"

definition save_to_file :: "'w system \<Rightarrow> secret_key \<Rightarrow> string \<Rightarrow> ('w, unit) io" where
  "save_to_file os =
     (case sys_target os of OsWindows \<Rightarrow> save_to_file_win32 os | _ \<Rightarrow> save_to_file_posix os)"

definition is_valid_size_marker :: "byte \<Rightarrow> bool" where
  "is_valid_size_marker marker \<longleftrightarrow>
     marker = of_nat (key_size_value Aes128) \<or> marker = of_nat (key_size_value Aes256)"

text \<open>\<^verbatim>\<open>static_cast<KeySize>(marker)\<close> for a valid marker.\<close>

definition key_size_cast :: "byte \<Rightarrow> key_size" where
  "key_size_cast marker = (if marker = of_nat (key_size_value Aes128) then Aes128 else Aes256)"

text \<open>The \<^verbatim>\<open>while\<close> loop around \<^verbatim>\<open>::read\<close>: \<open>got\<close> are the bytes stored so far.\<close>

function read_loop :: "'w system \<Rightarrow> int \<Rightarrow> nat \<Rightarrow> bytes \<Rightarrow> 'w \<Rightarrow> bool \<times> bytes \<times> 'w" where
  "read_loop os fd want got w =
     (if length got < want then
        (case sys_read os fd (want - length got) w of
           (None, w') \<Rightarrow> (False, got, w')
         | (Some bs, w') \<Rightarrow>
             if bs = [] then (False, got, w') else read_loop os fd want (got @ bs) w')
      else (True, got, w))"
  by pat_completeness auto
termination
  by (relation "measure (\<lambda>(os, fd, want, got, w). want - length got)")
    (auto, metis diff_less_mono2 length_greater_0_conv less_add_same_cancel1)

declare read_loop.simps [simp del]

definition load_from_file_posix :: "'w system \<Rightarrow> string \<Rightarrow> ('w, secret_key) io" where
  "load_from_file_posix os path w =
     (case sys_open_rd os path w of (fd, w) \<Rightarrow>
        if fd < 0 then Some (Inl (IoError (''failed to open key file: '' @ path)), w)
        else
          (case sys_read os fd 2 w of (hdr, w) \<Rightarrow>
             let got_header = (case hdr of None \<Rightarrow> False | Some h \<Rightarrow> length h = 2);
                 header = (case hdr of None \<Rightarrow> [0, 0] | Some h \<Rightarrow> h @ drop (length h) [0, 0]);
                 version = header ! 0;
                 size_marker = header ! 1
             in if \<not> got_header \<or> version \<noteq> kKeyFileVersion \<or> \<not> is_valid_size_marker size_marker then
                  Some (Inl (FormatError (''unsupported or corrupt key file: '' @ path)), sys_close os fd w)
                else
                  let key = SecretKey\<lparr>sk_size := key_size_cast size_marker\<rparr>
                  in case read_loop os fd (unat size_marker) [] w of (ok, got, w) \<Rightarrow>
                       let key = key\<lparr>sk_bytes := got @ drop (length got) (sk_bytes key)\<rparr>;
                           w = sys_close os fd w
                       in if \<not> ok then Some (Inl (FormatError (''key file truncated: '' @ path)), w)
                          else Some (Inr key, w)))"

text \<open>
  \<^verbatim>\<open>ReadFile\<close> stores a prefix into the buffer; \<^verbatim>\<open>read\<close> is the length of that prefix.
\<close>

definition load_from_file_win32 :: "'w system \<Rightarrow> string \<Rightarrow> ('w, secret_key) io" where
  "load_from_file_win32 os path w =
     (case w32_create_rd os path w of
        (None, w) \<Rightarrow> Some (Inl (IoError (''failed to open key file: '' @ path)), w)
      | (Some h, w) \<Rightarrow>
          (case w32_ReadFile os h 2 w of (r, hdr, w) \<Rightarrow>
             let got_header = (r \<and> length hdr = 2);
                 header = hdr @ drop (length hdr) [0, 0];
                 version = header ! 0;
                 size_marker = header ! 1
             in if \<not> got_header \<or> version \<noteq> kKeyFileVersion \<or> \<not> is_valid_size_marker size_marker then
                  Some (Inl (FormatError (''unsupported or corrupt key file: '' @ path)), w32_CloseHandle os h w)
                else
                  let key = SecretKey\<lparr>sk_size := key_size_cast size_marker\<rparr>
                  in case w32_ReadFile os h (ucast size_marker) w of (r, got, w) \<Rightarrow>
                       let key = key\<lparr>sk_bytes := got @ drop (length got) (sk_bytes key)\<rparr>;
                           ok = (r \<and> length got = unat size_marker);
                           w = w32_CloseHandle os h w
                       in if \<not> ok then Some (Inl (FormatError (''key file truncated: '' @ path)), w)
                          else Some (Inr key, w)))"

definition load_from_file :: "'w system \<Rightarrow> string \<Rightarrow> ('w, secret_key) io" where
  "load_from_file os =
     (case sys_target os of OsWindows \<Rightarrow> load_from_file_win32 os | _ \<Rightarrow> load_from_file_posix os)"

section \<open>Writing and reading a key\<close>

lemma save_to_file_posix_contents:
  assumes "posix_files os fv" and "save_to_file_posix os key path w = Some (Inr (), w')"
  shows "fv_cont fv w' = (fv_cont fv w)(path \<mapsto>
    [kKeyFileVersion, of_nat (key_size_bytes key)] @ take (key_size_bytes key) (sk_bytes key))"
proof -
  let ?h = "[kKeyFileVersion, of_nat (key_size_bytes key)]"
  let ?k = "take (key_size_bytes key) (sk_bytes key)"
  obtain fd w1 where o: "sys_open_wr os path (6 * 64) w = (fd, w1)" by fastforce
  obtain n w2 where h: "sys_write os fd ?h w1 = (n, w2)" by fastforce
  from assms(2) o h obtain w3 where l: "0 \<le> fd" "n = 2" "write_loop os fd ?k 0 w2 = Some (True, w3)"
    "w' = sys_close os fd w3"
    by (auto simp: save_to_file_posix_def Let_def split: if_splits option.splits prod.splits)
  note od = open_wrD [OF assms(1) o l(1)]
  then have c1: "fv_cont fv w1 path = Some []" "fv_wr fv w1 fd = Some path" by simp_all
  have "fv_wr fv w2 fd = Some path \<and> fv_cont fv w2 = (fv_cont fv w1)(path \<mapsto> ?h)"
    using writeD [OF assms(1) h _ c1(2,1)] l(2) by simp
  with write_loop_appends [OF l(3) assms(1), of path ?h] closeD [OF assms(1)] od show ?thesis
    by (simp add: l(4))
qed

lemma read_loop_prefix:
  assumes "posix_files os fv" and "fv_rd fv w fd = Some xs" and "length got \<le> want"
    and "read_loop os fd want got w = (True, out, w')"
  shows "out = got @ take (want - length got) xs \<and> want - length got \<le> length xs \<and>
    fv_cont fv w' = fv_cont fv w"
  using assms
proof (induction os fd want got w arbitrary: xs rule: read_loop.induct)
  case (1 os fd want got w)
  show ?case
  proof (cases "length got < want")
    case True
    obtain r w1 where r: "sys_read os fd (want - length got) w = (r, w1)" by fastforce
    with True "1.prems"(4) obtain bs where bs: "r = Some bs" "bs \<noteq> []"
      "read_loop os fd want (got @ bs) w1 = (True, out, w')"
      by (auto simp: read_loop.simps [of os fd want got w] split: option.splits if_splits)
    note l = readD [OF "1.prems"(1) r [unfolded bs(1)] "1.prems"(2)]
    have IH: "out = (got @ bs) @ take (want - length (got @ bs)) (drop (length bs) xs) \<and>
        want - length (got @ bs) \<le> length (drop (length bs) xs) \<and> fv_cont fv w' = fv_cont fv w1"
      using True r bs l "1.prems"(1) by (intro "1.IH" [of r w1 bs]) auto
    have "bs @ take (want - length (got @ bs)) (drop (length bs) xs) = take (want - length got) xs"
    proof -
      have "take (want - length got) xs =
          take (length bs) xs @ take (want - length got - length bs) (drop (length bs) xs)"
        using l by (metis le_add_diff_inverse take_add)
      with l show ?thesis by simp
    qed
    moreover have "want - length got \<le> length xs"
    proof -
      have "length bs \<le> length xs"
        using l by (metis length_take min.bounded_iff order_refl)
      moreover have "want - (length got + length bs) \<le> length xs - length bs"
        using IH by simp
      ultimately show ?thesis by linarith
    qed
    ultimately show ?thesis
      using IH l by simp
  next
    case False
    with "1.prems" show ?thesis by (simp add: read_loop.simps)
  qed
qed

text \<open>What a successful load has read.\<close>

lemma load_from_file_posix_contents:
  assumes "posix_files os fv" and "load_from_file_posix os path w = Some (Inr key, w')"
  shows "\<exists>marker rest. fv_cont fv w path = Some (kKeyFileVersion # marker # rest) \<and>
    is_valid_size_marker marker \<and> unat marker \<le> length rest \<and>
    key = key_from_bytes (take (unat marker) rest) (key_size_cast marker)"
proof -
  obtain fd w1 where o: "sys_open_rd os path w = (fd, w1)" by fastforce
  obtain hdr w2 where h: "sys_read os fd 2 w1 = (hdr, w2)" by fastforce
  have fd: "0 \<le> fd"
    using assms(2) o by (auto simp: load_from_file_posix_def split: if_splits)
  obtain xs where xs: "fv_cont fv w path = Some xs" "fv_rd fv w1 fd = Some xs"
    using open_rdD [OF assms(1) o fd] by auto
  from assms(2) o h fd obtain hd where hdr: "hdr = Some hd" "length hd = 2"
    by (auto simp: load_from_file_posix_def Let_def split: if_splits option.splits)
  then obtain v marker where hd: "hd = [v, marker]"
    by (auto simp: numeral_2_eq_2 length_Suc_conv)
  note l = readD [OF assms(1) h [unfolded hdr(1)] xs(2)]
  obtain got w3 where g: "v = kKeyFileVersion" "is_valid_size_marker marker"
    "read_loop os fd (unat marker) [] w2 = (True, got, w3)"
    "key = SecretKey\<lparr>sk_size := key_size_cast marker, sk_bytes := got @ drop (length got) (sk_bytes SecretKey)\<rparr>"
    using assms(2) o h fd hdr hd
    by (auto simp: load_from_file_posix_def Let_def split: if_splits prod.splits)
  have "fv_rd fv w2 fd = Some (drop 2 xs)" "[v, marker] = take 2 xs"
    using l hd by (simp_all add: numeral_2_eq_2)
  moreover from this(2) have "xs = v # marker # drop 2 xs"
    by (metis append_Cons append_Nil append_take_drop_id)
  moreover from calculation read_loop_prefix [OF assms(1) _ _ g(3)]
  have "got = take (unat marker) (drop 2 xs)" "unat marker \<le> length (drop 2 xs)" by simp_all
  moreover have "key_size_value (key_size_cast marker) = unat marker"
    using g(2) by (auto simp: is_valid_size_marker_def key_size_cast_def)
  ultimately show ?thesis
    using xs g by (intro exI [of _ marker] exI [of _ "drop 2 xs"])
      (auto simp: key_from_bytes_def Let_def)
qed

text \<open>The same of the Windows branch.\<close>

lemma save_to_file_win32_contents:
  assumes "win32_files os fv" and "save_to_file_win32 os key path w = Some (Inr (), w')"
  shows "fv_cont fv w' = (fv_cont fv w)(path \<mapsto>
    [kKeyFileVersion, of_nat (key_size_bytes key)] @ take (key_size_bytes key) (sk_bytes key))"
proof -
  let ?n = "key_size_bytes key"
  from assms(2) obtain h w1 w2 w3 w4 w5 where o: "w32_create_wr os path w = (Some h, w1)"
    "w32_is_reparse_point os h w1 = (False, w2)" "w32_write_all os h [kKeyFileVersion] w2 = (True, w3)"
    "w32_write_all os h [of_nat ?n] w3 = (True, w4)"
    "w32_write_all os h (take ?n (sk_bytes key)) w4 = (True, w5)" "w' = w32_CloseHandle os h w5"
    by (auto simp: save_to_file_win32_def Let_def split: prod.splits option.splits if_splits)
  have 2: "fv_cont fv w2 = (fv_cont fv w)(path \<mapsto> [])" "fv_wr fv w2 h = Some path"
    using w32_create_wrD [OF assms(1) o(1)] w32_is_reparse_pointD [OF assms(1) o(2)] by simp_all
  have 3: "fv_cont fv w3 = (fv_cont fv w)(path \<mapsto> [kKeyFileVersion])" "fv_wr fv w3 h = Some path"
    using w32_write_allD [OF assms(1) o(3) 2(2), of "[]"] 2(1) by simp_all
  have 4: "fv_cont fv w4 = (fv_cont fv w)(path \<mapsto> [kKeyFileVersion, of_nat ?n])" "fv_wr fv w4 h = Some path"
    using w32_write_allD [OF assms(1) o(4) 3(2), of "[kKeyFileVersion]"] 3(1) by simp_all
  from w32_write_allD(2) [OF assms(1) o(5) 4(2), of "[kKeyFileVersion, of_nat ?n]"] 4(1)
  show ?thesis using w32_closeD [OF assms(1)] by (simp add: o(6))
qed

lemma load_from_file_win32_contents:
  assumes "win32_files os fv" and "load_from_file_win32 os path w = Some (Inr key, w')"
  shows "\<exists>marker rest. fv_cont fv w path = Some (kKeyFileVersion # marker # rest) \<and>
    is_valid_size_marker marker \<and> unat marker \<le> length rest \<and>
    key = key_from_bytes (take (unat marker) rest) (key_size_cast marker)"
proof -
  from assms(2) obtain h w1 hd w2 where o: "w32_create_rd os path w = (Some h, w1)"
    "w32_ReadFile os h 2 w1 = (True, hd, w2)" "length hd = 2"
    by (auto simp: load_from_file_win32_def Let_def split: prod.splits option.splits if_splits)
  then obtain v marker where hd: "hd = [v, marker]"
    by (auto simp: numeral_2_eq_2 length_Suc_conv)
  from assms(2) o hd obtain got w3 where g: "v = kKeyFileVersion" "is_valid_size_marker marker"
    "w32_ReadFile os h (ucast marker) w2 = (True, got, w3)" "length got = unat marker"
    "key = SecretKey\<lparr>sk_size := key_size_cast marker, sk_bytes := got @ drop (length got) (sk_bytes SecretKey)\<rparr>"
    by (auto simp: load_from_file_win32_def Let_def split: prod.splits if_splits)
  obtain xs where xs: "fv_cont fv w path = Some xs" "fv_rd fv w1 h = Some xs"
    using w32_create_rdD [OF assms(1) o(1)] by auto
  note l = w32_readD [OF assms(1) o(2) xs(2)]
  have 2: "fv_rd fv w2 h = Some (drop 2 xs)" "[v, marker] = take 2 xs"
    using l hd by (simp_all add: numeral_2_eq_2)
  have "xs = v # marker # drop 2 xs"
    using 2(2) by (metis append_Cons append_Nil append_take_drop_id)
  moreover have "got = take (unat marker) (drop 2 xs)" "unat marker \<le> length (drop 2 xs)"
    using w32_readD [OF assms(1) g(3) 2(1)] g(4) by (metis, metis length_take min.bounded_iff order_refl)
  moreover have "key_size_value (key_size_cast marker) = unat marker"
    using g(2) by (auto simp: is_valid_size_marker_def key_size_cast_def)
  ultimately show ?thesis
    using xs g by (intro exI [of _ marker] exI [of _ "drop 2 xs"])
      (auto simp: key_from_bytes_def Let_def)
qed

text \<open>Both branches.\<close>

lemma save_to_file_contents:
  assumes "files_documented os fv" and "save_to_file os key path w = Some (Inr (), w')"
  shows "fv_cont fv w' = (fv_cont fv w)(path \<mapsto>
    [kKeyFileVersion, of_nat (key_size_bytes key)] @ take (key_size_bytes key) (sk_bytes key))"
  using assms(2) files_documentedD(2,3) [OF assms(1)] save_to_file_win32_contents [of os fv key path w w']
    save_to_file_posix_contents [of os fv key path w w']
  by (cases "sys_target os") (simp_all add: save_to_file_def)

lemma load_from_file_contents:
  assumes "files_documented os fv" and "load_from_file os path w = Some (Inr key, w')"
  shows "\<exists>marker rest. fv_cont fv w path = Some (kKeyFileVersion # marker # rest) \<and>
    is_valid_size_marker marker \<and> unat marker \<le> length rest \<and>
    key = key_from_bytes (take (unat marker) rest) (key_size_cast marker)"
  using assms(2) files_documentedD(2,3) [OF assms(1)] load_from_file_win32_contents [of os fv path w key w']
    load_from_file_posix_contents [of os fv path w key w']
  by (cases "sys_target os") (simp_all add: load_from_file_def)

section \<open>The loaded key\<close>

lemma size_marker_roundtrip:
  "is_valid_size_marker (of_nat (key_size_value sz))" "key_size_cast (of_nat (key_size_value sz)) = sz"
  "unat (of_nat (key_size_value sz) :: byte) = key_size_value sz"
  by (cases sz; simp add: is_valid_size_marker_def key_size_cast_def)+

text \<open>The software cipher of a key reads only as many bytes as its size says.\<close>

lemma expand_key_cong:
  assumes "\<And>i. i < 4 * Nk \<Longrightarrow> key_bytes k1 ! i = key_bytes k2 ! i"
  shows "expand_key Nk Nr k1 = expand_key Nk Nr k2"
proof -
  have "fold (\<lambda>i s. s[i := [key_bytes k1 ! (4 * i), key_bytes k1 ! (4 * i + 1), key_bytes k1 ! (4 * i + 2),
      key_bytes k1 ! (4 * i + 3)]]) [0..<Nk] s =
    fold (\<lambda>i s. s[i := [key_bytes k2 ! (4 * i), key_bytes k2 ! (4 * i + 1), key_bytes k2 ! (4 * i + 2),
      key_bytes k2 ! (4 * i + 3)]]) [0..<Nk] s" for s
    using assms by (intro fold_cong) auto
  then show ?thesis
    by (simp add: expand_key_def Let_def)
qed

lemma soft_block_from_bytes:
  assumes "key_wf key" and "key_size_bytes key \<le> length bs"
    and "take (key_size_bytes key) bs = take (key_size_bytes key) (sk_bytes key)"
  shows "soft_block (key_from_bytes bs (sk_size key)) = soft_block key"
proof -
  let ?k = "key_from_bytes bs (sk_size key)"
  have nth: "key_bytes ?k ! i = key_bytes key ! i" if "i < key_size_bytes key" for i
  proof -
    have "take (key_size_bytes key) bs ! i = take (key_size_bytes key) (sk_bytes key) ! i"
      by (simp only: assms(3))
    then have "bs ! i = sk_bytes key ! i"
      using that by simp
    then show ?thesis
      using that assms(2)
      by (simp add: key_bytes_def key_from_bytes_def Let_def key_size_bytes_def nth_append)
  qed
  have sz: "sk_size ?k = sk_size key"
    by (simp add: key_from_bytes_def Let_def)
  show ?thesis
  proof (cases "sk_size key")
    case Aes128
    then have "expand_key 4 10 ?k = expand_key 4 10 key"
      by (intro expand_key_cong nth) (simp add: key_size_bytes_def)
    with Aes128 sz show ?thesis
      by (simp add: fun_eq_iff soft_block_def aes128_encrypt_block_soft_def aes_encrypt_block_soft_def
          aes_encrypt_block_soft_run_def)
  next
    case Aes256
    then have "expand_key 8 14 ?k = expand_key 8 14 key"
      by (intro expand_key_cong nth) (simp add: key_size_bytes_def)
    with Aes256 sz show ?thesis
      by (simp add: fun_eq_iff soft_block_def aes256_encrypt_block_soft_def aes_encrypt_block_soft_def
          aes_encrypt_block_soft_run_def)
  qed
qed

lemma encrypt_block_from_bytes:
  assumes "platform_documented pf" and "key_wf key" and "length block = 16"
    and "bs = take (key_size_bytes key) (sk_bytes key)"
  shows "encrypt_block pf (key_from_bytes bs (sk_size key)) block = encrypt_block pf key block"
proof -
  have len: "key_size_value (sk_size key) \<le> length bs"
    using assms(2,4) key_size_value_le [of "sk_size key"]
    by (simp add: key_wf_def key_size_bytes_def)
  have "soft_block (key_from_bytes bs (sk_size key)) = soft_block key"
    using assms(2,4) len by (intro soft_block_from_bytes) (simp_all add: key_size_bytes_def)
  then show ?thesis
    using assms(1-3) key_wf_from_bytes [OF len] by (simp add: encrypt_block_fn block_fn_documented)
qed

lemma load_from_file_returns:
  "\<exists>r w'. load_from_file os path w = Some (r, w') \<and>
     ((\<exists>k. r = Inr k) \<or> (\<exists>m. r = Inl (IoError m) \<or> r = Inl (FormatError m)))"
proof (cases "sys_target os = OsWindows")
  case True
  then show ?thesis
    by (auto simp: load_from_file_def load_from_file_win32_def Let_def split: prod.split option.split)
next
  case False
  then have "load_from_file os = load_from_file_posix os"
    by (cases "sys_target os") (simp_all add: load_from_file_def)
  then show ?thesis
    by (auto simp: load_from_file_posix_def Let_def split: prod.split)
qed

lemma save_to_file_posix_returns:
  assumes "posix_files os fv" and "write_progress os" and "sys_target os \<noteq> OsWindows"
  shows "\<exists>r w'. save_to_file_posix os key path w = Some (r, w') \<and> (r = Inr () \<or> (\<exists>m. r = Inl (IoError m)))"
proof -
  let ?h = "[kKeyFileVersion, of_nat (key_size_bytes key)]"
  let ?k = "take (key_size_bytes key) (sk_bytes key)"
  obtain fd w1 where o: "sys_open_wr os path (6 * 64) w = (fd, w1)" by fastforce
  obtain n w2 where h: "sys_write os fd ?h w1 = (n, w2)" by fastforce
  show ?thesis
  proof (cases "fd < 0 \<or> n \<noteq> 2")
    case True
    with o h show ?thesis
      by (auto simp: save_to_file_posix_def Let_def)
  next
    case False
    have c: "fv_cont fv w1 path = Some []" "fv_wr fv w1 fd = Some path"
      using open_wrD [OF assms(1) o] False by auto
    have "fv_wr fv w2 fd = Some path" "\<exists>xs. fv_cont fv w2 path = Some xs"
      using writeD [OF assms(1) h _ c(2,1)] False by auto
    then obtain ok w3 where "write_loop os fd ?k 0 w2 = Some (ok, w3)"
      using write_loop_returns [OF assms(2,3,1), of w2 fd path _ 0 ?k] by auto
    with o h False show ?thesis
      by (auto simp: save_to_file_posix_def Let_def)
  qed
qed

lemma save_to_file_returns:
  assumes "files_documented os fv" and "write_progress os"
  shows "\<exists>r w'. save_to_file os key path w = Some (r, w') \<and> (r = Inr () \<or> (\<exists>m. r = Inl (IoError m)))"
proof (cases "sys_target os = OsWindows")
  case True
  then show ?thesis
    by (auto simp: save_to_file_def save_to_file_win32_def Let_def split: prod.split option.split)
next
  case False
  then have "save_to_file os = save_to_file_posix os"
    by (cases "sys_target os") (simp_all add: save_to_file_def)
  with False show ?thesis
    using save_to_file_posix_returns [OF files_documentedD(3) [OF assms(1) False] assms(2) False] by simp
qed

section \<open>Properties\<close>



end
