(* ===== verification/Sha256.thy ===== *)
theory Sha256
  imports Byte_Codec Ct_Util
begin

text \<open>
  SHA-256 and HMAC-SHA256 of \<^verbatim>\<open>src/sha256.cpp\<close>, with the functions of FIPS 180-4 and FIPS
  198-1 they are to compute. The hash state \<^verbatim>\<open>h0\<close> to \<^verbatim>\<open>h7\<close>, which the lambda
  \<^verbatim>\<open>process_block\<close> captures by reference, is an 8-tuple that the model threads. Local
  arrays that the source leaves uninitialised are arguments (\<open>junk\<close>), and the lemmas show
  that their contents have no effect.
\<close>

section \<open>Definitions\<close>

definition kSha256K :: "u32 list" where
  "kSha256K =
     [0x428a2f98, 0x71374491, 0xb5c0fbcf, 0xe9b5dba5, 0x3956c25b, 0x59f111f1, 0x923f82a4, 0xab1c5ed5] @
     [0xd807aa98, 0x12835b01, 0x243185be, 0x550c7dc3, 0x72be5d74, 0x80deb1fe, 0x9bdc06a7, 0xc19bf174] @
     [0xe49b69c1, 0xefbe4786, 0x0fc19dc6, 0x240ca1cc, 0x2de92c6f, 0x4a7484aa, 0x5cb0a9dc, 0x76f988da] @
     [0x983e5152, 0xa831c66d, 0xb00327c8, 0xbf597fc7, 0xc6e00bf3, 0xd5a79147, 0x06ca6351, 0x14292967] @
     [0x27b70a85, 0x2e1b2138, 0x4d2c6dfc, 0x53380d13, 0x650a7354, 0x766a0abb, 0x81c2c92e, 0x92722c85] @
     [0xa2bfe8a1, 0xa81a664b, 0xc24b8b70, 0xc76c51a3, 0xd192e819, 0xd6990624, 0xf40e3585, 0x106aa070] @
     [0x19a4c116, 0x1e376c08, 0x2748774c, 0x34b0bcb5, 0x391c0cb3, 0x4ed8aa4a, 0x5b9cca4f, 0x682e6ff3] @
     [0x748f82ee, 0x78a5636f, 0x84c87814, 0x8cc70208, 0x90befffa, 0xa4506ceb, 0xbef9a3f7, 0xc67178f2]"

definition ror32 :: "u32 \<Rightarrow> nat \<Rightarrow> u32" where
  "ror32 x n = drop_bit n x OR push_bit (32 - n) x"

definition ch :: "u32 \<Rightarrow> u32 \<Rightarrow> u32 \<Rightarrow> u32" where
  "ch x y z = (x AND y) XOR (NOT x AND z)"

definition maj :: "u32 \<Rightarrow> u32 \<Rightarrow> u32 \<Rightarrow> u32" where
  "maj x y z = (x AND y) XOR (x AND z) XOR (y AND z)"

definition sigma0 :: "u32 \<Rightarrow> u32" where
  "sigma0 x = ror32 x 2 XOR ror32 x 13 XOR ror32 x 22"

definition sigma1 :: "u32 \<Rightarrow> u32" where
  "sigma1 x = ror32 x 6 XOR ror32 x 11 XOR ror32 x 25"

definition gamma0 :: "u32 \<Rightarrow> u32" where
  "gamma0 x = ror32 x 7 XOR ror32 x 18 XOR drop_bit 3 x"

definition gamma1 :: "u32 \<Rightarrow> u32" where
  "gamma1 x = ror32 x 17 XOR ror32 x 19 XOR drop_bit 10 x"

definition u32_to_be :: "u32 \<Rightarrow> bytes" where
  "u32_to_be x = [ucast (drop_bit 24 x), ucast (drop_bit 16 x), ucast (drop_bit 8 x), ucast x]"

definition u64_to_be :: "u64 \<Rightarrow> bytes" where
  "u64_to_be x = [ucast (drop_bit 56 x), ucast (drop_bit 48 x), ucast (drop_bit 40 x),
     ucast (drop_bit 32 x), ucast (drop_bit 24 x), ucast (drop_bit 16 x), ucast (drop_bit 8 x), ucast x]"

definition be_to_u32 :: "bytes \<Rightarrow> u32" where
  "be_to_u32 p = push_bit 24 (ucast (p ! 0)) OR push_bit 16 (ucast (p ! 1)) OR
     push_bit 8 (ucast (p ! 2)) OR ucast (p ! 3)"

type_synonym sha_state = "u32 \<times> u32 \<times> u32 \<times> u32 \<times> u32 \<times> u32 \<times> u32 \<times> u32"

text \<open>The schedule loops and the round loop of the lambda \<^verbatim>\<open>process_block\<close>.\<close>

definition sha_schedule :: "bytes \<Rightarrow> u32 list" where
  "sha_schedule b =
     (let w = replicate 64 0;
          w = fold (\<lambda>i w. w[i := be_to_u32 (drop (i * 4) b)]) [0..<16] w
      in fold (\<lambda>i w. w[i := gamma1 (w ! (i - 2)) + w ! (i - 7) + gamma0 (w ! (i - 15)) + w ! (i - 16)])
           [16..<64] w)"

fun sha_round :: "u32 list \<Rightarrow> nat \<Rightarrow> sha_state \<Rightarrow> sha_state" where
  "sha_round w i (a, b, c, d, e, f, g, h) =
     (let t1 = h + sigma1 e + ch e f g + kSha256K ! i + w ! i;
          t2 = sigma0 a + maj a b c
      in (t1 + t2, a, b, c, d + t1, e, f, g))"

fun add_state :: "sha_state \<Rightarrow> sha_state \<Rightarrow> sha_state" where
  "add_state (h0, h1, h2, h3, h4, h5, h6, h7) (a, b, c, d, e, f, g, h) =
     (h0 + a, h1 + b, h2 + c, h3 + d, h4 + e, h5 + f, h6 + g, h7 + h)"

definition process_block :: "bytes \<Rightarrow> sha_state \<Rightarrow> sha_state" where
  "process_block b hs = (let w = sha_schedule b in add_state hs (fold (sha_round w) [0..<64] hs))"

definition sha256_init :: sha_state where
  "sha256_init = (0x6a09e667, 0xbb67ae85, 0x3c6ef372, 0xa54ff53a, 0x510e527f, 0x9b05688c,
     0x1f83d9ab, 0x5be0cd19)"

text \<open>One byte of the message loop: the hash state, the 64-byte buffer and \<^verbatim>\<open>block_len\<close>.\<close>

fun sha_absorb :: "byte \<Rightarrow> sha_state \<times> bytes \<times> nat \<Rightarrow> sha_state \<times> bytes \<times> nat" where
  "sha_absorb x (hs, block, block_len) =
     (let block = block[block_len := x];
          block_len = block_len + 1
      in if block_len = 64 then (process_block block hs, block, 0) else (hs, block, block_len))"

text \<open>\<^verbatim>\<open>memset(&block[from], 0, count)\<close>, and copying bytes into an array at an offset.\<close>

definition zero_fill :: "nat \<Rightarrow> nat \<Rightarrow> bytes \<Rightarrow> bytes" where
  "zero_fill from count block = take from block @ replicate count 0 @ drop (from + count) block"

definition put_bytes :: "nat \<Rightarrow> bytes \<Rightarrow> bytes \<Rightarrow> bytes" where
  "put_bytes at src dst = take at dst @ src @ drop (at + length src) dst"

definition sha256_with :: "bytes \<Rightarrow> bytes \<Rightarrow> bytes" where
  "sha256_with junk data =
     (let ml = of_nat (length data) * 8 :: u64;
          (hs, block, block_len) = fold sha_absorb data (sha256_init, junk, 0);
          block = block[block_len := 0x80];
          block_len = block_len + 1;
          (hs, block, block_len) =
            (if block_len > 56 then
               let block = zero_fill block_len (64 - block_len) block
               in (process_block block hs, block, 0)
             else (hs, block, block_len));
          block = zero_fill block_len (56 - block_len) block;
          block = put_bytes 56 (u64_to_be ml) block;
          (h0, h1, h2, h3, h4, h5, h6, h7) = process_block block hs
      in u32_to_be h0 @ u32_to_be h1 @ u32_to_be h2 @ u32_to_be h3 @
         u32_to_be h4 @ u32_to_be h5 @ u32_to_be h6 @ u32_to_be h7)"

definition sha256 :: "bytes \<Rightarrow> bytes" where
  "sha256 data = sha256_with (replicate 64 0) data"

definition hmac_block_size :: nat where
  "hmac_block_size = 64"

definition ipad_byte :: byte where
  "ipad_byte = 0x36"

definition opad_byte :: byte where
  "opad_byte = 0x5c"

definition kInlineCap :: nat where
  "kInlineCap = 256"

definition hmac_sha256_with :: "bytes \<Rightarrow> bytes \<Rightarrow> bytes \<Rightarrow> bytes" where
  "hmac_sha256_with junk key data =
     (let key = (if length key > hmac_block_size then sha256 key else key);
          ipad = replicate hmac_block_size ipad_byte;
          opad = replicate hmac_block_size opad_byte;
          ipad = fold (\<lambda>i p. p[i := p ! i XOR key ! i]) [0..<length key] ipad;
          opad = fold (\<lambda>i p. p[i := p ! i XOR key ! i]) [0..<length key] opad;
          inner_data = (if length data \<le> kInlineCap then junk
                        else replicate (hmac_block_size + length data) 0);
          inner_data = put_bytes 0 ipad inner_data;
          inner_data = (if length data > 0 then put_bytes hmac_block_size data inner_data else inner_data);
          inner = sha256 (take (hmac_block_size + length data) inner_data);
          outer_buf = put_bytes hmac_block_size inner (put_bytes 0 opad (replicate (hmac_block_size + 32) 0))
      in sha256 outer_buf)"

definition hmac_sha256 :: "bytes \<Rightarrow> bytes \<Rightarrow> bytes" where
  "hmac_sha256 key data = hmac_sha256_with (replicate (hmac_block_size + kInlineCap) 0) key data"

section \<open>FIPS 180-4\<close>

text \<open>The message schedule of the standard as a recursive function of its index.\<close>

function fips_W :: "bytes \<Rightarrow> nat \<Rightarrow> u32" where
  "fips_W b t =
     (if t < 16 then be_decode (take 4 (drop (4 * t) b))
      else gamma1 (fips_W b (t - 2)) + fips_W b (t - 7) + gamma0 (fips_W b (t - 15)) + fips_W b (t - 16))"
  by pat_completeness auto
termination
  by (relation "measure (\<lambda>(b, t). t)") auto

declare fips_W.simps [simp del]

definition fips_compress :: "bytes \<Rightarrow> sha_state \<Rightarrow> sha_state" where
  "fips_compress b hs = add_state hs (fold (sha_round (map (fips_W b) [0..<64])) [0..<64] hs)"

text \<open>Padding to a multiple of 64 bytes, and the message blocks.\<close>

definition sha_pad :: "bytes \<Rightarrow> bytes" where
  "sha_pad m = m @ [0x80] @ replicate ((119 - length m mod 64) mod 64) 0 @
     be_encode 8 (of_nat (8 * length m) :: u64)"

function chunks64 :: "bytes \<Rightarrow> bytes list" where
  "chunks64 bs = (if bs = [] then [] else take 64 bs # chunks64 (drop 64 bs))"
  by pat_completeness auto
termination
  by (relation "measure length") auto

declare chunks64.simps [simp del]

fun state_bytes :: "sha_state \<Rightarrow> bytes" where
  "state_bytes (h0, h1, h2, h3, h4, h5, h6, h7) =
     concat (map (be_encode 4) [h0, h1, h2, h3, h4, h5, h6, h7])"

definition sha256_spec :: "bytes \<Rightarrow> bytes" where
  "sha256_spec m = state_bytes (fold fips_compress (chunks64 (sha_pad m)) sha256_init)"

lemma length_state_bytes [simp]: "length (state_bytes hs) = 32"
  by (cases hs rule: state_bytes.cases) simp

section \<open>The block function\<close>

lemma be_to_u32_decode: "4 \<le> length p \<Longrightarrow> be_to_u32 p = be_decode (take 4 p)"
proof -
  assume "4 \<le> length p"
  then have "length (take 4 p) = 4" by simp
  then obtain a b c d where p: "take 4 p = [a, b, c, d]"
    using list_of_4 by blast
  have "p ! i = take 4 p ! i" if "i < 4" for i
    using that by simp
  then show ?thesis
    unfolding be_to_u32_def p by (simp add: p be_decode_def push_bit_or ac_simps)
qed

lemma u32_to_be_encode: "u32_to_be x = be_encode 4 x"
  by (simp add: u32_to_be_def be_encode_def le_encode_numeral drop_bit_drop_bit)

lemma u64_to_be_encode: "u64_to_be x = be_encode 8 x"
  by (simp add: u64_to_be_def be_encode_def le_encode_numeral drop_bit_drop_bit)

text \<open>The two schedule loops extend the prefix of the array that is final.\<close>

lemma sha_load_loop:
  assumes "length b = 64" and "k \<le> 16"
  shows "length (fold (\<lambda>i w. w[i := be_to_u32 (drop (i * 4) b)]) [0..<k] (replicate 64 0)) = 64 \<and>
    (\<forall>j < k. fold (\<lambda>i w. w[i := be_to_u32 (drop (i * 4) b)]) [0..<k] (replicate 64 0) ! j = fips_W b j)"
  using assms(2)
proof (induction k)
  case (Suc k)
  moreover have "be_to_u32 (drop (k * 4) b) = fips_W b k"
    using Suc.prems assms by (simp add: be_to_u32_decode fips_W.simps mult.commute)
  ultimately show ?case
    by (auto simp: less_Suc_eq)
qed simp

lemma sha_extend_loop:
  assumes "length w = 64" and "\<forall>j < 16. w ! j = fips_W b j" and "16 \<le> m" "m \<le> 64"
  defines "f \<equiv> \<lambda>i w. w[i := gamma1 (w ! (i - 2)) + w ! (i - 7) + gamma0 (w ! (i - 15)) + w ! (i - 16)]"
  shows "length (fold f [16..<m] w) = 64 \<and> (\<forall>j < m. fold f [16..<m] w ! j = fips_W b j)"
  using assms(3,4)
proof (induction m rule: dec_induct)
  case base
  then show ?case using assms(1,2) by simp
next
  case (step i)
  let ?w = "fold f [16..<i] w"
  have IH: "length ?w = 64" "\<And>j. j < i \<Longrightarrow> ?w ! j = fips_W b j"
    using step by auto
  have "fips_W b i = gamma1 (fips_W b (i - 2)) + fips_W b (i - 7) + gamma0 (fips_W b (i - 15)) +
      fips_W b (i - 16)"
    using step by (subst fips_W.simps) simp
  then have "f i ?w ! i = fips_W b i"
    using IH step by (simp add: f_def)
  moreover have "f i ?w ! j = ?w ! j" if "j < i" for j
    using that by (simp add: f_def)
  moreover have "fold f [16..<Suc i] w = f i ?w" "length (f i ?w) = length ?w"
    using step by (simp_all add: f_def)
  ultimately show ?case
    using IH by (auto simp: less_Suc_eq)
qed

lemma sha_schedule_W:
  assumes "length b = 64"
  shows "sha_schedule b = map (fips_W b) [0..<64]"
proof -
  note l = sha_load_loop [OF assms order_refl]
  have "16 \<le> (64 :: nat)" "(64 :: nat) \<le> 64" by simp_all
  note e = sha_extend_loop [OF conjunct1 [OF l] conjunct2 [OF l] this]
  have len: "length (sha_schedule b) = 64" and nth: "\<forall>j < 64. sha_schedule b ! j = fips_W b j"
    unfolding sha_schedule_def Let_def using e by (rule conjunct1, rule conjunct2)
  show ?thesis
    by (rule nth_equalityI) (use len nth in \<open>simp_all del: upt_rec_numeral\<close>)
qed

lemma process_block_compress: "length b = 64 \<Longrightarrow> process_block b = fips_compress b"
  by (rule ext) (simp only: process_block_def fips_compress_def Let_def sha_schedule_W)

section \<open>The message loop\<close>

lemma chunks64_one: "length b = 64 \<Longrightarrow> chunks64 b = [b]"
  by (subst chunks64.simps, subst chunks64.simps) auto

lemma chunks64_append:
  "length xs = 64 * k \<Longrightarrow> chunks64 (xs @ ys) = chunks64 xs @ chunks64 ys"
proof (induction k arbitrary: xs)
  case 0
  then show ?case by (simp add: chunks64.simps [of "[]"])
next
  case (Suc k)
  then have "xs \<noteq> []" "length (drop 64 xs) = 64 * k" "64 \<le> length xs" by auto
  with Suc.IH [of "drop 64 xs"] show ?case
    by (subst (1 2) chunks64.simps) simp
qed

lemma chunks64_length: "length xs = 64 * k \<Longrightarrow> c \<in> set (chunks64 xs) \<Longrightarrow> length c = 64"
proof (induction k arbitrary: xs)
  case 0
  then show ?case by (simp add: chunks64.simps [of "[]"])
next
  case (Suc k)
  then have "xs \<noteq> []" "length (drop 64 xs) = 64 * k" "64 \<le> length xs" by auto
  with Suc.IH [of "drop 64 xs"] Suc.prems(2) show ?case
    by (subst (asm) chunks64.simps) auto
qed

lemma fold_process_block:
  "length xs = 64 * k \<Longrightarrow> fold process_block (chunks64 xs) hs = fold fips_compress (chunks64 xs) hs"
  by (rule fold_cong) (auto simp: process_block_compress chunks64_length)

text \<open>
  After \<open>n\<close> bytes the full blocks are processed and the buffer starts with the \<open>n mod 64\<close>
  bytes that remain.
\<close>

definition full_part :: "bytes \<Rightarrow> bytes" where
  "full_part data = take (64 * (length data div 64)) data"

definition rest_part :: "bytes \<Rightarrow> bytes" where
  "rest_part data = drop (64 * (length data div 64)) data"

lemma parts: "full_part data @ rest_part data = data"
  by (simp add: full_part_def rest_part_def)

lemma length_parts:
  "length (full_part data) = 64 * (length data div 64)" "length (rest_part data) = length data mod 64"
  by (simp_all add: full_part_def rest_part_def min_absorb2 minus_mult_div_eq_mod)

lemma parts_snoc:
  "length data mod 64 = 63 \<Longrightarrow> full_part (data @ [x]) = full_part data @ (rest_part data @ [x]) \<and>
     rest_part (data @ [x]) = []"
  "length data mod 64 \<noteq> 63 \<Longrightarrow> full_part (data @ [x]) = full_part data \<and>
     rest_part (data @ [x]) = rest_part data @ [x]"
proof -
  assume m: "length data mod 64 = 63"
  have "length data = 64 * (length data div 64) + 63"
    using mult_div_mod_eq [of 64 "length data"] m by simp
  then have l: "length (data @ [x]) = 64 * (length data div 64 + 1)" by simp
  then have "64 * (length (data @ [x]) div 64) = length (data @ [x])"
    unfolding l by simp
  then show "full_part (data @ [x]) = full_part data @ (rest_part data @ [x]) \<and>
     rest_part (data @ [x]) = []"
    using parts [of data] by (simp add: full_part_def rest_part_def)
next
  assume m: "length data mod 64 \<noteq> 63"
  then have d: "length (data @ [x]) div 64 = length data div 64"
    by (simp add: div_Suc mod_Suc)
  show "full_part (data @ [x]) = full_part data \<and> rest_part (data @ [x]) = rest_part data @ [x]"
    unfolding full_part_def rest_part_def d by simp
qed

lemma absorb_parts:
  assumes "length junk = 64"
  shows "\<exists>block. fold sha_absorb data (hs, junk, 0) =
      (fold process_block (chunks64 (full_part data)) hs, block, length data mod 64) \<and>
    length block = 64 \<and> take (length data mod 64) block = rest_part data"
proof (induction data rule: rev_induct)
  case Nil
  then show ?case
    using assms by (simp add: full_part_def rest_part_def chunks64.simps [of "[]"])
next
  case (snoc x data)
  let ?m = "length data mod 64"
  from snoc obtain block where b: "fold sha_absorb data (hs, junk, 0) =
      (fold process_block (chunks64 (full_part data)) hs, block, ?m)"
    "length block = 64" "take ?m block = rest_part data" by blast
  have m: "?m < 64" by simp
  have t: "take (Suc ?m) (block[?m := x]) = rest_part data @ [x]"
    using b m by (simp add: take_Suc_conv_app_nth)
  show ?case
  proof (cases "?m = 63")
    case True
    have "block[?m := x] = rest_part data @ [x]"
      using t True b(2) by simp
    moreover have "length (rest_part data @ [x]) = 64"
      using True by (simp add: length_parts)
    moreover have "length (data @ [x]) mod 64 = 0"
      using True by (simp add: mod_Suc)
    ultimately show ?thesis
      using True b parts_snoc(1) [OF True, of x]
        chunks64_append [OF length_parts(1), of data "rest_part data @ [x]"]
      by (simp add: Let_def chunks64_one)
  next
    case False
    then have "length (data @ [x]) mod 64 = Suc ?m"
      using m by (simp add: mod_Suc)
    with False b t parts_snoc(2) [OF False, of x] show ?thesis
      by (simp add: Let_def)
  qed
qed

lemma be_encode_bits_length:
  "u64_to_be (of_nat (length data) * 8) = be_encode 8 (of_nat (8 * length data) :: u64)"
  by (simp add: u64_to_be_encode mult.commute)

text \<open>The last one or two blocks are the rest of the message with its padding.\<close>

definition sha_tail :: "bytes \<Rightarrow> bytes" where
  "sha_tail data = rest_part data @ [0x80] @ replicate ((119 - length data mod 64) mod 64) 0 @
     be_encode 8 (of_nat (8 * length data) :: u64)"

lemma sha_pad_tail: "sha_pad data = full_part data @ sha_tail data"
  unfolding sha_pad_def sha_tail_def by (subst parts [of data, symmetric]) simp

lemma length_block:
  "length b = 64 \<Longrightarrow> length l = 8 \<Longrightarrow> put_bytes 56 l (zero_fill 0 56 b) = replicate 56 0 @ l"
  by (simp add: zero_fill_def put_bytes_def)

text \<open>
  The last blocks, from the buffer \<open>block\<close> that holds the rest of the message: one when the
  length still fits, two otherwise.
\<close>

lemma padded_rest:
  assumes "length block = 64" and "m < 64" and "take m block = rest_part data"
  shows "take (Suc m) (block[m := 0x80]) = rest_part data @ [0x80]"
  using assms by (simp add: take_Suc_conv_app_nth)

lemma sha_tail_one:
  assumes "length block = 64" and "take m block = rest_part data" and "m = length data mod 64" and "m < 56"
  shows "put_bytes 56 (be_encode 8 (of_nat (8 * length data) :: u64))
      (zero_fill (Suc m) (56 - Suc m) (block[m := 0x80])) = sha_tail data \<and> length (sha_tail data) = 64"
proof -
  have lr: "length (rest_part data) = m" using length_parts assms(3) by simp
  have z: "(119 - m) mod 64 = 55 - m"
    using assms(4) mod_add_self2 [of "55 - m" 64] by simp
  have "zero_fill (Suc m) (56 - Suc m) (block[m := 0x80]) =
      rest_part data @ [0x80] @ replicate (55 - m) 0 @ drop 56 (block[m := 0x80])"
    using assms(4) unfolding zero_fill_def padded_rest [OF assms(1) less_trans [OF assms(4)] assms(2), simplified]
    by simp
  moreover have "56 - m = Suc (55 - m)" using assms(4) by simp
  ultimately show ?thesis
    using assms(1,4) by (simp add: put_bytes_def sha_tail_def assms(3) [symmetric] z lr)
qed

lemma sha_tail_two:
  fixes data :: bytes and block :: bytes
  assumes "length block = 64" and "take m block = rest_part data" and "m = length data mod 64" and "\<not> m < 56"
  defines "b1 \<equiv> zero_fill (Suc m) (63 - m) (block[m := 0x80])"
  defines "b2 \<equiv> put_bytes 56 (be_encode 8 (of_nat (8 * length data) :: u64)) (zero_fill 0 56 b1)"
  shows "chunks64 (sha_tail data) = [b1, b2]"
proof -
  have m: "m < 64" using assms(3) by simp
  have lr: "length (rest_part data) = m" using length_parts assms(3) by simp
  have z: "(119 - m) mod 64 = (63 - m) + 56" using assms(4) m by simp
  have b1: "b1 = rest_part data @ [0x80] @ replicate (63 - m) 0"
    using assms(1) m unfolding b1_def zero_fill_def padded_rest [OF assms(1) m assms(2)] by simp
  have l1: "length b1 = 64 * 1" using m by (simp add: b1 lr)
  have b2: "b2 = replicate 56 0 @ be_encode 8 (of_nat (8 * length data) :: u64)"
    unfolding b2_def using l1 by (intro length_block) simp_all
  have l2: "length b1 = 64" "length b2 = 64" using l1 by (simp_all add: b2)
  have "sha_tail data = b1 @ b2"
    by (simp only: b2) (simp only: b1 sha_tail_def assms(3) [symmetric] z replicate_add append_assoc)
  moreover have "chunks64 (b1 @ b2) = [b1, b2]"
    unfolding chunks64_append [OF l1] by (simp only: chunks64_one l2 append.simps)
  ultimately show ?thesis by simp
qed

lemma sha256_with_tail:
  assumes "length junk = 64"
  shows "sha256_with junk data =
    state_bytes (fold process_block (chunks64 (full_part data) @ chunks64 (sha_tail data)) sha256_init)"
proof -
  let ?m = "length data mod 64" and ?hs = "fold process_block (chunks64 (full_part data)) sha256_init"
  obtain block where b: "fold sha_absorb data (sha256_init, junk, 0) = (?hs, block, ?m)"
    "length block = 64" "take ?m block = rest_part data"
    using absorb_parts [OF assms] by blast
  have out: "(case hs of (h0, h1, h2, h3, h4, h5, h6, h7) \<Rightarrow>
      u32_to_be h0 @ u32_to_be h1 @ u32_to_be h2 @ u32_to_be h3 @
      u32_to_be h4 @ u32_to_be h5 @ u32_to_be h6 @ u32_to_be h7) = state_bytes hs" for hs
    by (cases hs rule: state_bytes.cases) (simp add: u32_to_be_encode)
  show ?thesis
  proof (cases "?m < 56")
    case True
    then show ?thesis
      using sha_tail_one [OF b(2,3) refl True]
      by (simp add: sha256_with_def Let_def b(1) out be_encode_bits_length chunks64_one)
  next
    case False
    then show ?thesis
      using sha_tail_two [OF b(2,3) refl False]
      by (simp add: sha256_with_def Let_def b(1) out be_encode_bits_length)
  qed
qed

lemma sha_tail_length: "\<exists>k. length (sha_tail data) = 64 * k"
proof (cases "length data mod 64 < 56")
  case True
  then have "(119 - length data mod 64) mod 64 = 55 - length data mod 64"
    using mod_add_self2 [of "55 - length data mod 64" 64] by simp
  with True have "length (sha_tail data) = 64 * 1"
    by (simp add: sha_tail_def length_parts)
  then show ?thesis by blast
next
  case False
  then have "length (sha_tail data) = 64 * 2"
    using mod_less_divisor [of 64 "length data"] by (simp add: sha_tail_def length_parts)
  then show ?thesis by blast
qed

lemma sha256_with_spec: "length junk = 64 \<Longrightarrow> sha256_with junk data = sha256_spec data"
proof -
  assume "length junk = 64"
  moreover obtain k where k: "length (sha_tail data) = 64 * k"
    using sha_tail_length by blast
  ultimately show ?thesis
    by (simp add: sha256_with_tail sha256_spec_def sha_pad_tail chunks64_append [OF length_parts(1)]
        fold_process_block [OF k] fold_process_block [OF length_parts(1)])
qed

lemma sha256_eq_spec: "sha256 data = sha256_spec data"
  by (simp add: sha256_def sha256_with_spec)

lemma length_sha256 [simp]: "length (sha256 data) = 32"
  by (simp add: sha256_eq_spec sha256_spec_def)

section \<open>HMAC\<close>

text \<open>FIPS 198-1 over a hash function with 64-byte blocks.\<close>

definition hmac_spec :: "(bytes \<Rightarrow> bytes) \<Rightarrow> bytes \<Rightarrow> bytes \<Rightarrow> bytes" where
  "hmac_spec H key text =
     (let k = (if length key > 64 then H key else key);
          k0 = k @ replicate (64 - length k) 0
      in H (xor_bytes k0 (replicate 64 0x5c) @ H (xor_bytes k0 (replicate 64 0x36) @ text)))"

lemma pad_loop:
  assumes "length key \<le> 64"
  shows "fold (\<lambda>i p. p[i := p ! i XOR key ! i]) [0..<length key] (replicate 64 c) =
    xor_bytes (key @ replicate (64 - length key) 0) (replicate 64 c)"
proof -
  let ?f = "\<lambda>i p. p[i := p ! i XOR key ! i]"
  have "length (fold ?f [0..<k] (replicate 64 c)) = 64 \<and>
      (\<forall>j < 64. fold ?f [0..<k] (replicate 64 c) ! j = (if j < k then c XOR key ! j else c))"
    if "k \<le> length key" for k
    using that by (induction k) (use assms in \<open>auto simp: nth_list_update less_Suc_eq\<close>)
  from this [OF order_refl] show ?thesis
    using assms by (intro nth_equalityI) (auto simp: nth_append xor.commute)
qed

lemma put_bytes_0: "put_bytes 0 src dst = src @ drop (length src) dst"
  by (simp add: put_bytes_def)

lemma hmac_sha256_with_spec:
  assumes "length junk = hmac_block_size + kInlineCap"
  shows "hmac_sha256_with junk key data = hmac_spec sha256 key data"
proof -
  define k where "k = (if length key > 64 then sha256 key else key)"
  define buf where "buf = (if length data \<le> 256 then junk else replicate (64 + length data) 0)"
  let ?k0 = "k @ replicate (64 - length k) 0"
  let ?ip = "xor_bytes ?k0 (replicate 64 0x36)" and ?op = "xor_bytes ?k0 (replicate 64 0x5c)"
  have kl: "length k \<le> 64" by (simp add: k_def)
  have len: "length ?ip = 64" "length ?op = 64"
    using kl by auto
  have buf: "64 + length data \<le> length buf"
    using assms by (simp add: hmac_block_size_def kInlineCap_def buf_def)
  have inner: "take (64 + length data)
      (if 0 < length data then put_bytes 64 data (put_bytes 0 ?ip buf) else put_bytes 0 ?ip buf) =
      ?ip @ data"
    using buf len(1) by (auto simp: put_bytes_def)
  have outer: "put_bytes 64 s (put_bytes 0 ?op (replicate (64 + 32) 0)) = ?op @ s" if "length s = 32" for s
    using that len(2) by (simp add: put_bytes_def)
  have "hmac_sha256_with junk key data = sha256 (put_bytes 64 (sha256 (take (64 + length data)
      (if 0 < length data then put_bytes 64 data (put_bytes 0 ?ip buf) else put_bytes 0 ?ip buf)))
      (put_bytes 0 ?op (replicate (64 + 32) 0)))"
    unfolding hmac_sha256_with_def Let_def hmac_block_size_def kInlineCap_def ipad_byte_def
      opad_byte_def k_def [symmetric] buf_def [symmetric] pad_loop [OF kl] ..
  also have "\<dots> = hmac_spec sha256 key data"
    unfolding inner outer [OF length_sha256] by (simp only: hmac_spec_def Let_def k_def)
  finally show ?thesis .
qed

lemma hmac_sha256_eq_spec: "hmac_sha256 key data = hmac_spec sha256 key data"
  by (simp add: hmac_sha256_def hmac_sha256_with_spec)

lemma length_hmac_sha256 [simp]: "length (hmac_sha256 key data) = 32"
  by (simp add: hmac_sha256_eq_spec hmac_spec_def Let_def)

section \<open>Properties\<close>



text \<open>
  C17. \<^verbatim>\<open>hmac_sha256\<close> computes the HMAC of FIPS 198-1 over SHA-256, for every key length (keys
  over 64 bytes are hashed first) and every message length, with the inline buffer up to
  256 bytes and with the heap buffer beyond it, and independently of what the uninitialised
  inline buffer holds.
\<close>

theorem hmac_sha256_implements_fips198:
  assumes "length junk = 320"
  shows "hmac_sha256_with junk key data = hmac_spec sha256_spec key data \<and>
    hmac_sha256 key data = hmac_sha256_with junk key data"
proof -
  have "sha256 = sha256_spec" by (simp add: fun_eq_iff sha256_eq_spec)
  then show ?thesis
    using assms hmac_sha256_with_spec [of junk key data] hmac_sha256_eq_spec [of key data]
    by (simp add: hmac_block_size_def kInlineCap_def)
qed

theorem hmac_sha256_implements_fips198_witness:
  "hmac_sha256_with (replicate 320 1) [1] (replicate 300 2) = hmac_spec sha256_spec [1] (replicate 300 2) \<and>
   hmac_sha256 [1] (replicate 300 2) = hmac_sha256_with (replicate 320 1) [1] (replicate 300 2)"
  by (rule hmac_sha256_implements_fips198) simp

end
