(* ===== verification/Pbkdf2.thy ===== *)
theory Pbkdf2
  imports Sha256
begin

text \<open>
  PBKDF2-HMAC-SHA256 of \<^verbatim>\<open>src/sha256.cpp\<close>. The iteration loop counts a \<^verbatim>\<open>uint32_t\<close> up to and
  including \<^verbatim>\<open>iterations\<close>; whether it ends depends on that bound, so it is a partial
  function whose value \<open>None\<close> is a call that does not return. The locale \<open>prf_contract\<close> is what
  PBKDF2 relies on of its pseudorandom function.
\<close>

section \<open>Definitions\<close>

partial_function (option) pbkdf2_loop :: "bytes \<Rightarrow> u32 \<Rightarrow> u32 \<Rightarrow> bytes \<Rightarrow> bytes \<Rightarrow> bytes option" where
  "pbkdf2_loop pass iterations i u t_block =
     (if i \<le> iterations then
        let u = hmac_sha256 pass u;
            t_block = fold (\<lambda>j t. t[j := t ! j XOR u ! j]) [0..<32] t_block
        in pbkdf2_loop pass iterations (i + 1) u t_block
      else Some t_block)"

definition pbkdf2_block :: "bytes \<Rightarrow> bytes \<Rightarrow> u32 \<Rightarrow> u32 \<Rightarrow> bytes option" where
  "pbkdf2_block pass salt iterations block_idx =
     (let u_input_buf = salt @ [ucast (drop_bit 24 block_idx), ucast (drop_bit 16 block_idx),
            ucast (drop_bit 8 block_idx), ucast block_idx];
          u = hmac_sha256 pass u_input_buf
      in pbkdf2_loop pass iterations 2 u u)"

text \<open>The loop over \<^verbatim>\<open>block_idx\<close> runs for 1 and 2 and copies each block to its half.\<close>

definition pbkdf2_hmac_sha256 :: "bytes \<Rightarrow> bytes \<Rightarrow> u32 \<Rightarrow> bytes option" where
  "pbkdf2_hmac_sha256 pass salt iterations =
     (let result = replicate 64 0
      in case pbkdf2_block pass salt iterations 1 of
           None \<Rightarrow> None
         | Some t_block \<Rightarrow>
             (let result = put_bytes 0 t_block result
              in case pbkdf2_block pass salt iterations 2 of
                   None \<Rightarrow> None
                 | Some t_block \<Rightarrow> Some (put_bytes 32 t_block result)))"

section \<open>RFC 8018\<close>

text \<open>
  The contract of the pseudorandom function: its output has a fixed length. The block
  \<open>T = U_1 xor ... xor U_c\<close> with \<open>U_1 = PRF(P, S || INT(i))\<close> and \<open>U_(j+1) = PRF(P, U_j)\<close>.
\<close>

primrec pb_U :: "(bytes \<Rightarrow> bytes \<Rightarrow> bytes) \<Rightarrow> bytes \<Rightarrow> bytes \<Rightarrow> nat \<Rightarrow> bytes" where
  "pb_U prf P x 0 = prf P x"
| "pb_U prf P x (Suc j) = prf P (pb_U prf P x j)"

primrec pb_T :: "(bytes \<Rightarrow> bytes \<Rightarrow> bytes) \<Rightarrow> bytes \<Rightarrow> bytes \<Rightarrow> nat \<Rightarrow> bytes" where
  "pb_T prf P x 0 = pb_U prf P x 0"
| "pb_T prf P x (Suc j) = xor_bytes (pb_T prf P x j) (pb_U prf P x (Suc j))"

text \<open>\<open>T\<close> for an iteration count \<open>c\<close>; a count below 1 gives \<open>U_1\<close>.\<close>

definition pbkdf2_F :: "(bytes \<Rightarrow> bytes \<Rightarrow> bytes) \<Rightarrow> bytes \<Rightarrow> bytes \<Rightarrow> nat \<Rightarrow> u32 \<Rightarrow> bytes" where
  "pbkdf2_F prf P S c i = pb_T prf P (S @ be_encode 4 i) (c - 1)"

locale prf_contract =
  fixes F :: "bytes \<Rightarrow> bytes \<Rightarrow> bytes"
    and hlen :: nat
  assumes prf_length: "length (F k m) = hlen"
begin

lemma length_U: "length (pb_U F P x j) = hlen"
  by (cases j) (simp_all add: prf_length)

lemma length_T: "length (pb_T F P x j) = hlen"
  by (induction j) (simp_all add: length_U prf_length)

lemma length_F: "length (pbkdf2_F F P S c i) = hlen"
  by (simp add: pbkdf2_F_def length_T)

end

interpretation hmac: prf_contract hmac_sha256 32
  by unfold_locales simp

section \<open>The loop\<close>

lemma xor_into_loop:
  assumes "length t = 32" and "length u = 32"
  shows "fold (\<lambda>j t. t[j := t ! j XOR u ! j]) [0..<32] t = xor_bytes t u"
proof -
  let ?f = "\<lambda>j t. t[j := t ! j XOR u ! j]"
  have "length (fold ?f [0..<k] t) = 32 \<and>
      (\<forall>j < 32. fold ?f [0..<k] t ! j = (if j < k then t ! j XOR u ! j else t ! j))" if "k \<le> 32" for k
    using that by (induction k) (use assms in \<open>auto simp: nth_list_update less_Suc_eq\<close>)
  from this [OF order_refl] show ?thesis
    using assms by (intro nth_equalityI) auto
qed

lemma unat_max: "unat (- 1 :: u32) = 2 ^ 32 - 1"
  by (simp add: unsigned_minus_1_eq_mask mask_eq_exp_minus_1)

lemma not_max_less: "(x :: u32) \<noteq> - 1 \<Longrightarrow> unat x < 2 ^ 32 - 1"
  using unsigned_less [of x, where 'a = nat] unat_max by (auto simp: word_unat_eq_iff)

lemma pbkdf2_loop_T:
  assumes "iterations \<noteq> - 1" and "j + 2 = unat i" and "unat i \<le> unat iterations + 1"
  shows "pbkdf2_loop pass iterations i (pb_U hmac_sha256 pass x j) (pb_T hmac_sha256 pass x j) =
    Some (pb_T hmac_sha256 pass x (unat iterations - 1))"
  using assms(2,3)
proof (induction "unat iterations + 1 - unat i" arbitrary: i j)
  case 0
  then have "\<not> i \<le> iterations" "j = unat iterations - 1"
    by (simp_all add: word_le_nat_alt)
  then show ?case
    by (subst pbkdf2_loop.simps) simp
next
  case (Suc n)
  then have i: "i \<le> iterations" "unat i \<le> unat iterations"
    by (simp_all add: word_le_nat_alt)
  have "unat iterations < 2 ^ 32 - 1"
    by (rule not_max_less [OF assms(1)])
  then have "unat (i + 1) = unat i + 1"
    using i by (simp add: unat_word_ariths)
  then have IH: "pbkdf2_loop pass iterations (i + 1) (pb_U hmac_sha256 pass x (Suc j))
      (pb_T hmac_sha256 pass x (Suc j)) = Some (pb_T hmac_sha256 pass x (unat iterations - 1))"
    using Suc i by (intro Suc.hyps(1)) simp_all
  show ?case
    using i IH hmac.length_T hmac.length_U
    by (subst pbkdf2_loop.simps) (simp add: Let_def xor_into_loop)
qed

lemma pbkdf2_block_F:
  assumes "iterations \<noteq> - 1" and "iterations \<noteq> 0"
  shows "pbkdf2_block pass salt iterations idx =
    Some (pbkdf2_F hmac_sha256 pass salt (unat iterations) idx)"
proof -
  have "unat iterations \<noteq> 0"
    using assms(2) by (simp add: unat_eq_0)
  then have "unat (2 :: u32) \<le> unat iterations + 1" by simp
  moreover have "[ucast (drop_bit 24 idx), ucast (drop_bit 16 idx), ucast (drop_bit 8 idx), ucast idx] =
      be_encode 4 idx"
    by (simp add: be_encode_def le_encode_numeral drop_bit_drop_bit)
  ultimately show ?thesis
    using pbkdf2_loop_T [OF assms(1), of 0 2 pass "salt @ be_encode 4 idx"]
    by (simp add: pbkdf2_block_def Let_def pbkdf2_F_def)
qed

lemma pbkdf2_hmac_sha256_F:
  assumes "iterations \<noteq> - 1" and "iterations \<noteq> 0"
  shows "pbkdf2_hmac_sha256 pass salt iterations =
    Some (pbkdf2_F hmac_sha256 pass salt (unat iterations) 1 @
          pbkdf2_F hmac_sha256 pass salt (unat iterations) 2)"
  using assms hmac.length_F [of pass salt "unat iterations" 1] hmac.length_F [of pass salt "unat iterations" 2]
  by (simp add: pbkdf2_hmac_sha256_def pbkdf2_block_F put_bytes_def)

text \<open>With the largest bound the condition \<^verbatim>\<open>i <= iterations\<close> is always true.\<close>

lemma pbkdf2_loop_max: "pbkdf2_loop pass (- 1) i u t = None"
proof (rule ccontr)
  assume "pbkdf2_loop pass (- 1) i u t \<noteq> None"
  then obtain y where y: "pbkdf2_loop pass (- 1) i u t = Some y" by auto
  let ?P = "\<lambda>pass iterations i u t (y :: bytes). iterations \<noteq> (- 1 :: u32)"
  have "?P pass (- 1) i u t y"
  proof (rule pbkdf2_loop.raw_induct [where P = ?P, OF _ y], goal_cases)
    case (1 f pass iterations i u t y)
    show ?case
    proof
      assume m: "iterations = - 1"
      then have "i \<le> iterations"
        using word_order.extremum [of i] by simp
      with 1(2) have "f pass iterations (i + 1) (hmac_sha256 pass u)
          (fold (\<lambda>j t. t[j := t ! j XOR hmac_sha256 pass u ! j]) [0..<32] t) = Some y"
        by (simp only: if_True Let_def)
      from 1(1) [OF this] m show False by simp
    qed
  qed
  then show False by simp
qed

lemma pbkdf2_hmac_sha256_max: "pbkdf2_hmac_sha256 pass salt 0xFFFFFFFF = None"
proof -
  have "(0xFFFFFFFF :: u32) = - 1"
    by (simp add: word_unat_eq_iff unat_max)
  then show ?thesis
    by (simp only: pbkdf2_hmac_sha256_def pbkdf2_block_def pbkdf2_loop_max Let_def option.case)
qed

section \<open>Properties\<close>

text \<open>
  C18. For every iteration count from 1 to \<open>2 ^ 32 - 2\<close>, \<^verbatim>\<open>pbkdf2_hmac_sha256\<close> returns, and its
  64 bytes are the first two blocks \<open>T_1 || T_2\<close> of PBKDF2 (RFC 8018) with HMAC-SHA256 as the
  pseudorandom function.
\<close>

theorem pbkdf2_implements_rfc8018:
  assumes "0 < unat iterations" and "unat iterations < 2 ^ 32 - 1"
  shows "pbkdf2_hmac_sha256 pass salt iterations =
      Some (pbkdf2_F hmac_sha256 pass salt (unat iterations) 1 @
            pbkdf2_F hmac_sha256 pass salt (unat iterations) 2) \<and>
    length (pbkdf2_F hmac_sha256 pass salt (unat iterations) 1) = 32 \<and>
    length (pbkdf2_F hmac_sha256 pass salt (unat iterations) 2) = 32"
proof -
  have "iterations \<noteq> - 1" "iterations \<noteq> 0"
    using assms unat_max by auto
  then show ?thesis
    by (simp add: pbkdf2_hmac_sha256_F hmac.length_F)
qed

theorem pbkdf2_implements_rfc8018_witness:
  "pbkdf2_hmac_sha256 [1, 2] [3] 1000 =
     Some (pbkdf2_F hmac_sha256 [1, 2] [3] 1000 1 @ pbkdf2_F hmac_sha256 [1, 2] [3] 1000 2)"
  using pbkdf2_implements_rfc8018 [of 1000 "[1, 2]" "[3]"] by simp

text \<open>
  C28. With the iteration count \<^verbatim>\<open>UINT32_MAX\<close> the call never returns: the loop variable is a
  \<^verbatim>\<open>uint32_t\<close>, its increment wraps to 0, and the condition \<^verbatim>\<open>i <= iterations\<close> never becomes
  false.
\<close>

theorem pbkdf2_diverges_at_uint32_max:
  "pbkdf2_hmac_sha256 pass salt 0xFFFFFFFF = None"
  by (rule pbkdf2_hmac_sha256_max)

end
