(* ===== verification/Key_Storage.thy ===== *)
theory Key_Storage
  imports Key_File Pbkdf2
begin

text \<open>
  The passphrase-protected key file of \<^verbatim>\<open>src/key_storage.cpp\<close>:
  \<^verbatim>\<open>SecretKey::save_to_file_encrypted\<close> and \<^verbatim>\<open>SecretKey::load_from_file_encrypted\<close> over PBKDF2,
  AES-256 in counter mode and HMAC-SHA256. A passphrase is its byte string.
\<close>

section \<open>Definitions\<close>

text \<open>\<^verbatim>\<open>{'A', 'E', 'S', 'W'}\<close> as bytes.\<close>

definition kWrappedKeyFileMagic :: bytes where
  "kWrappedKeyFileMagic = [0x41, 0x45, 0x53, 0x57]"

definition kWrappedKeyFileVersion :: byte where
  "kWrappedKeyFileVersion = 2"

definition kSaltSize :: nat where
  "kSaltSize = 16"

definition kNonceSize :: nat where
  "kNonceSize = 12"

definition kTagSize :: nat where
  "kTagSize = 32"

definition kWrappedKeyOffset :: nat where
  "kWrappedKeyOffset = 4 + 1 + 1 + kSaltSize + 4 + kNonceSize"

definition wrapped_is_valid_size_marker :: "byte \<Rightarrow> bool" where
  "wrapped_is_valid_size_marker marker \<longleftrightarrow>
     marker = of_nat (key_size_value Aes128) \<or> marker = of_nat (key_size_value Aes256)"

definition kMinPbkdf2Iterations :: u32 where
  "kMinPbkdf2Iterations = 1000"

definition kMaxPbkdf2Iterations :: u32 where
  "kMaxPbkdf2Iterations = 50000000"

text \<open>A computation that may not return, as an effect.\<close>

definition io_option :: "'a option \<Rightarrow> ('w, 'a) io" where
  "io_option m = (\<lambda>w. case m of None \<Rightarrow> None | Some x \<Rightarrow> Some (Inr x, w))"

text \<open>The authenticated part of the file: everything before the tag.\<close>

definition wrapped_part :: "nat \<Rightarrow> bytes \<Rightarrow> u32 \<Rightarrow> bytes \<Rightarrow> bytes \<Rightarrow> bytes" where
  "wrapped_part key_len salt iterations nonce ciphertext =
     kWrappedKeyFileMagic @ [kWrappedKeyFileVersion] @ [of_nat key_len] @ salt @
     [ucast iterations, ucast (drop_bit 8 iterations), ucast (drop_bit 16 iterations),
      ucast (drop_bit 24 iterations)] @ nonce @ ciphertext"

text \<open>The two write loops: the tag is written only if the first part was.\<close>

definition write_wrapped_posix :: "'w system \<Rightarrow> string \<Rightarrow> bytes \<Rightarrow> bytes \<Rightarrow> ('w, unit) io" where
  "write_wrapped_posix os path plaintext_part tag w =
     (case sys_open_wr os path (6 * 64) w of (fd, w) \<Rightarrow>
        if fd < 0 then Some (Inl (IoError (''failed to create encrypted key file: '' @ path)), w)
        else
          (case write_loop os fd plaintext_part 0 w of
             None \<Rightarrow> None
           | Some (ok, w) \<Rightarrow>
               (case (if ok then write_loop os fd tag 0 w else Some (False, w)) of
                  None \<Rightarrow> None
                | Some (ok, w) \<Rightarrow>
                    let w = sys_close os fd w
                    in if \<not> ok then
                         Some (Inl (IoError (''failed to write encrypted key file: '' @ path)), w)
                       else Some (Inr (), w))))"

definition write_wrapped_win32 :: "'w system \<Rightarrow> string \<Rightarrow> bytes \<Rightarrow> bytes \<Rightarrow> ('w, unit) io" where
  "write_wrapped_win32 os path plaintext_part tag w =
     (case w32_create_wr os path w of
        (None, w) \<Rightarrow> Some (Inl (IoError (''failed to create encrypted key file: '' @ path)), w)
      | (Some h, w) \<Rightarrow>
          (case w32_is_reparse_point os h w of (reparse, w) \<Rightarrow>
             if reparse then
               Some (Inl (IoError (''refusing to write encrypted key file through a symlink/reparse point: '' @
                 path)), w32_CloseHandle os h w)
             else
               (case w32_write_all os h plaintext_part w of (ok1, w) \<Rightarrow>
                (case (if ok1 then w32_write_all os h tag w else (False, w)) of (ok, w) \<Rightarrow>
                   let w = w32_CloseHandle os h w
                   in if \<not> ok then
                        Some (Inl (IoError (''failed to write encrypted key file: '' @ path)), w)
                      else Some (Inr (), w)))))"

definition write_wrapped_file :: "'w system \<Rightarrow> string \<Rightarrow> bytes \<Rightarrow> bytes \<Rightarrow> ('w, unit) io" where
  "write_wrapped_file os =
     (case sys_target os of OsWindows \<Rightarrow> write_wrapped_win32 os | _ \<Rightarrow> write_wrapped_posix os)"

definition save_to_file_encrypted ::
  "'w system \<Rightarrow> platform \<Rightarrow> secret_key \<Rightarrow> string \<Rightarrow> bytes \<Rightarrow> u32 \<Rightarrow> ('w, unit) io" where
  "save_to_file_encrypted os pf key path passphrase iterations =
     (let key_len = key_size_bytes key
      in if iterations < kMinPbkdf2Iterations then
           io_throw (LimitError (''PBKDF2 iteration count must be at least '' @
             to_string (unat kMinPbkdf2Iterations)))
         else
           io_bind (fill_random os kSaltSize) (\<lambda>salt.
           io_bind (io_option (pbkdf2_hmac_sha256 passphrase salt iterations)) (\<lambda>derived.
           let wrap_key = SecretKey\<lparr>sk_bytes := take kKeySizeBytes derived\<rparr>
           in io_bind (fill_random os kNonceSize) (\<lambda>nonce.
              let plaintext_key = take key_len (key_bytes key)
              in io_bind (ctr_encrypt os pf wrap_key plaintext_key) (\<lambda>wrapped_container.
                 let plaintext_key = secure_wipe plaintext_key (length plaintext_key)
                 in if length (ct_ciphertext wrapped_container) \<noteq> key_len then
                      io_throw (IoError ''internal: wrapped key ciphertext size mismatch'')
                    else
                      let plaintext_part = wrapped_part key_len salt iterations
                            (ct_nonce wrapped_container) (ct_ciphertext wrapped_container)
                      in if length plaintext_part \<noteq> kWrappedKeyOffset + key_len then
                           io_throw (IoError ''internal: wrapped key file layout error'')
                         else
                           let mac_key_array = take kKeySizeBytes (drop kKeySizeBytes derived);
                               tag = hmac_sha256 mac_key_array plaintext_part;
                               mac_key_array = secure_wipe mac_key_array (length mac_key_array);
                               derived = secure_wipe derived (length derived)
                           in write_wrapped_file os path plaintext_part tag)))))"

text \<open>The default argument of the header.\<close>

definition kDefaultPbkdf2Iterations :: u32 where
  "kDefaultPbkdf2Iterations = 600000"

definition save_to_file_encrypted_default ::
  "'w system \<Rightarrow> platform \<Rightarrow> secret_key \<Rightarrow> string \<Rightarrow> bytes \<Rightarrow> ('w, unit) io" where
  "save_to_file_encrypted_default os pf key path passphrase =
     save_to_file_encrypted os pf key path passphrase kDefaultPbkdf2Iterations"

text \<open>\<^verbatim>\<open>load_from_file_encrypted\<close> after the file has been read.\<close>

definition unwrap_key :: "platform \<Rightarrow> bytes \<Rightarrow> bytes \<Rightarrow> secret_key res option" where
  "unwrap_key pf passphrase file_data =
     (if length file_data < 6 then
        Some (Inl (FormatError ''encrypted key file is too short to contain a header''))
      else if take 4 file_data \<noteq> kWrappedKeyFileMagic then
        Some (Inl (FormatError ''encrypted key file has wrong magic''))
      else if file_data ! 4 \<noteq> kWrappedKeyFileVersion then
        Some (Inl (FormatError (''encrypted key file has unsupported version: '' @
          to_string (unat (file_data ! 4)))))
      else
        let size_marker = file_data ! 5
        in if \<not> wrapped_is_valid_size_marker size_marker then
             Some (Inl (FormatError (''encrypted key file has an invalid key size marker: '' @
               to_string (unat size_marker))))
           else
             let key_len = unat size_marker;
                 expected_file_size = kWrappedKeyOffset + key_len + kTagSize
             in if length file_data \<noteq> expected_file_size then
                  Some (Inl (FormatError (''encrypted key file has wrong size: expected '' @
                    to_string expected_file_size @ '', got '' @ to_string (length file_data))))
                else
                  let offset = 6;
                      salt = take kSaltSize (drop offset file_data);
                      offset = offset + kSaltSize;
                      b0 = ucast (file_data ! offset) :: u32;
                      b1 = ucast (file_data ! (offset + 1));
                      b2 = ucast (file_data ! (offset + 2));
                      b3 = ucast (file_data ! (offset + 3));
                      offset = offset + 4;
                      iterations = b0 OR push_bit 8 b1 OR push_bit 16 b2 OR push_bit 24 b3;
                      nonce = take kNonceSize (drop offset file_data);
                      offset = offset + kNonceSize;
                      wrapped_ciphertext = take key_len (drop offset file_data);
                      offset = offset + key_len;
                      stored_tag = take kTagSize (drop offset file_data);
                      offset = offset + kTagSize
                  in if offset \<noteq> expected_file_size then
                       Some (Inl (FormatError ''encrypted key file layout error''))
                     else if iterations < kMinPbkdf2Iterations \<or> iterations > kMaxPbkdf2Iterations then
                       Some (Inl (FormatError (''encrypted key file has an invalid iteration count: '' @
                         to_string (unat iterations))))
                     else
                       (case pbkdf2_hmac_sha256 passphrase salt iterations of
                          None \<Rightarrow> None
                        | Some derived \<Rightarrow>
                            let mac_key_array = take kKeySizeBytes (drop kKeySizeBytes derived);
                                computed_tag = hmac_sha256 mac_key_array
                                  (take (kWrappedKeyOffset + key_len) file_data)
                            in if \<not> constant_time_equal computed_tag stored_tag kTagSize then
                                 Some (Inl (AuthenticationError (''encrypted key file '' @
                                   ''authentication failed: wrong passphrase or corrupted file'')))
                               else
                                 let wrap_key = SecretKey\<lparr>sk_bytes := take kKeySizeBytes derived\<rparr>;
                                     wrapped_container =
                                       \<lparr>ct_nonce = nonce, ct_ciphertext = wrapped_ciphertext\<rparr>
                                 in Some (res_bind (ctr_decrypt pf wrap_key wrapped_container)
                                      (\<lambda>decrypted_bytes.
                                        if length decrypted_bytes \<noteq> key_len then
                                          Inl (FormatError
                                            ''encrypted key file: decrypted key has wrong size'')
                                        else
                                          let result = SecretKey\<lparr>sk_size := key_size_cast size_marker\<rparr>
                                          in Inr (result\<lparr>sk_bytes :=
                                               decrypted_bytes @ drop key_len (sk_bytes result)\<rparr>)))))"

definition load_from_file_encrypted ::
  "'w system \<Rightarrow> platform \<Rightarrow> string \<Rightarrow> bytes \<Rightarrow> ('w, secret_key) io" where
  "load_from_file_encrypted os pf path passphrase =
     io_bind (read_file os path) (\<lambda>file_data w.
       case unwrap_key pf passphrase file_data of
         None \<Rightarrow> None
       | Some r \<Rightarrow> Some (r, w))"

section \<open>The file layout\<close>

lemmas layout_defs = kWrappedKeyFileMagic_def kWrappedKeyFileVersion_def kSaltSize_def kNonceSize_def
  kTagSize_def kWrappedKeyOffset_def kKeySizeBytes_def

lemma iterations_le_encode:
  "[ucast it, ucast (drop_bit 8 it), ucast (drop_bit 16 it), ucast (drop_bit 24 it)] = le_encode 4 (it :: u32)"
  by (simp add: le_encode_numeral drop_bit_drop_bit)

lemma iterations_le_decode:
  "ucast a OR push_bit 8 (ucast b) OR push_bit 16 (ucast c) OR push_bit 24 (ucast d) =
     (le_decode [a, b, c, d] :: u32)"
  by (simp add: push_bit_or or.assoc)

lemma length_wrapped_part:
  "length salt = 16 \<Longrightarrow> length nonce = 12 \<Longrightarrow> length (wrapped_part n salt it nonce ct) = 38 + length ct"
  by (simp add: wrapped_part_def layout_defs)

text \<open>The state of a load whose file has been recognised: iteration bounds, key derivation, tag, decryption.\<close>

definition unwrap_fields ::
  "platform \<Rightarrow> bytes \<Rightarrow> key_size \<Rightarrow> bytes \<Rightarrow> u32 \<Rightarrow> bytes \<Rightarrow> bytes \<Rightarrow> bytes \<Rightarrow> secret_key res option" where
  "unwrap_fields pf passphrase sz salt it nonce ct tag =
     (if it < 1000 \<or> 50000000 < it then
        Some (Inl (FormatError (''encrypted key file has an invalid iteration count: '' @ to_string (unat it))))
      else case pbkdf2_hmac_sha256 passphrase salt it of
        None \<Rightarrow> None
      | Some derived \<Rightarrow>
          if hmac_sha256 (take 32 (drop 32 derived)) (wrapped_part (key_size_value sz) salt it nonce ct) \<noteq> tag then
            Some (Inl (AuthenticationError (''encrypted key file '' @
              ''authentication failed: wrong passphrase or corrupted file'')))
          else Some (res_bind (ctr_decrypt pf (key_from_bytes (take 32 derived) Aes256)
                 \<lparr>ct_nonce = nonce, ct_ciphertext = ct\<rparr>)
               (\<lambda>bs. if length bs \<noteq> key_size_value sz then
                       Inl (FormatError ''encrypted key file: decrypted key has wrong size'')
                     else Inr (key_from_bytes bs sz))))"


text \<open>The fields of a file of the documented layout, as the loader reads them.\<close>

lemma wrapped_fields:
  fixes sz :: key_size and it :: u32
  assumes "length salt = 16" and "length nonce = 12" and "length ct = key_size_value sz" and "length tag = 32"
  defines "f \<equiv> wrapped_part (key_size_value sz) salt it nonce ct @ tag"
  shows "length f = 38 + key_size_value sz + 32" "take 4 f = kWrappedKeyFileMagic" "f ! 4 = 2"
    "f ! 5 = of_nat (key_size_value sz)" "take 16 (drop 6 f) = salt"
    "ucast (f ! 22) OR push_bit 8 (ucast (f ! 23)) OR push_bit 16 (ucast (f ! 24)) OR
       push_bit 24 (ucast (f ! 25)) = it"
    "take 12 (drop 26 f) = nonce" "take (key_size_value sz) (drop 38 f) = ct"
    "take 32 (drop (38 + key_size_value sz) f) = tag"
    "take (38 + key_size_value sz) f = wrapped_part (key_size_value sz) salt it nonce ct"
proof -
  have len: "length (wrapped_part (key_size_value sz) salt it nonce ct) = 38 + key_size_value sz"
    using assms by (simp add: length_wrapped_part)
  have f: "f = (kWrappedKeyFileMagic @ [2, of_nat (key_size_value sz)]) @ salt @ le_encode 4 it @ nonce @ ct @ tag"
    by (simp add: f_def wrapped_part_def iterations_le_encode kWrappedKeyFileVersion_def)
  show "length f = 38 + key_size_value sz + 32" "take (38 + key_size_value sz) f =
      wrapped_part (key_size_value sz) salt it nonce ct"
    "take 32 (drop (38 + key_size_value sz) f) = tag"
    using len assms(4) by (simp_all add: f_def)
  show "take 4 f = kWrappedKeyFileMagic" "f ! 4 = 2" "f ! 5 = of_nat (key_size_value sz)"
    "take 16 (drop 6 f) = salt" "take 12 (drop 26 f) = nonce" "take (key_size_value sz) (drop 38 f) = ct"
    using assms(1-3) by (simp_all add: f kWrappedKeyFileMagic_def)
  have "f ! (22 + i) = le_encode 4 it ! i" if "i < 4" for i
    using that assms(1) by (simp add: f kWrappedKeyFileMagic_def nth_append)
  from this [of 0] this [of 1] this [of 2] this [of 3]
  have "f ! 22 = ucast it" "f ! 23 = ucast (drop_bit 8 it)" "f ! 24 = ucast (drop_bit 16 it)"
    "f ! 25 = ucast (drop_bit 24 it)"
    by (simp_all add: nth_le_encode)
  then have "ucast (f ! 22) OR push_bit 8 (ucast (f ! 23)) OR push_bit 16 (ucast (f ! 24)) OR
      push_bit 24 (ucast (f ! 25)) = (le_decode (le_encode 4 it) :: u32)"
    by (simp only: iterations_le_decode iterations_le_encode)
  then show "ucast (f ! 22) OR push_bit 8 (ucast (f ! 23)) OR push_bit 16 (ucast (f ! 24)) OR
      push_bit 24 (ucast (f ! 25)) = it"
    by (simp add: le_decode_encode take_bit_word_eq_self)
qed

lemma wrap_key_from_bytes:
  "SecretKey\<lparr>sk_bytes := take kKeySizeBytes d\<rparr> = key_from_bytes (take 32 d) Aes256"
  by (simp add: key_from_bytes_def Let_def SecretKey_def lock_memory_def kKeySizeBytes_def)

lemma result_key_from_bytes:
  "(if length bs \<noteq> key_size_value sz then x else
      Inr (SecretKey\<lparr>sk_size := sz,
        sk_bytes := bs @ drop (key_size_value sz) (sk_bytes (SecretKey\<lparr>sk_size := sz\<rparr>))\<rparr>)) =
   (if length bs \<noteq> key_size_value sz then x else Inr (key_from_bytes bs sz))"
  by (simp add: key_from_bytes_def Let_def)

lemma wrapped_size_marker: "wrapped_is_valid_size_marker (of_nat (key_size_value sz))"
  by (cases sz) (simp_all add: wrapped_is_valid_size_marker_def)

lemma valid_marker_size:
  assumes "wrapped_is_valid_size_marker m"
  obtains sz where "m = of_nat (key_size_value sz)"
  using assms unfolding wrapped_is_valid_size_marker_def by blast

lemma unwrap_key_fields:
  assumes "length salt = 16" and "length nonce = 12" and "length ct = key_size_value sz" and "length tag = 32"
  shows "unwrap_key pf passphrase (wrapped_part (key_size_value sz) salt it nonce ct @ tag) =
    unwrap_fields pf passphrase sz salt it nonce ct tag"
proof -
  define f where "f = wrapped_part (key_size_value sz) salt it nonce ct @ tag"
  note F = wrapped_fields [OF assms, of it, folded f_def]
  have "constant_time_equal (hmac_sha256 k m) tag 32 \<longleftrightarrow> hmac_sha256 k m = tag" for k m
    using assms(4) by (intro constant_time_equal_iff) simp_all
  note E = this
  have L: "\<not> 38 + key_size_value sz + 32 < 6" "unat (f ! 5) = key_size_value sz" "key_size_cast (f ! 5) = sz"
    "wrapped_is_valid_size_marker (f ! 5)"
    using F(4) by (simp_all add: size_marker_roundtrip wrapped_size_marker)
  have A: "6 + 16 = (22 :: nat)" "22 + 1 = (23 :: nat)" "22 + 2 = (24 :: nat)" "22 + 3 = (25 :: nat)"
    "22 + 4 = (26 :: nat)" "26 + 12 = (38 :: nat)" "4 + 1 + 1 + 16 + 4 + 12 = (38 :: nat)"
    by simp_all
  show ?thesis
    unfolding f_def [symmetric] unwrap_key_def unwrap_fields_def
    by (simp only: Let_def layout_defs(2-) A L F(1-3) F(5-) E if_False if_True simp_thms
        wrap_key_from_bytes [unfolded kKeySizeBytes_def] kMinPbkdf2Iterations_def kMaxPbkdf2Iterations_def
        result_key_from_bytes)
qed

text \<open>A file the loader does not refuse as malformed has the documented layout.\<close>

lemma unwrap_key_layout:
  assumes "\<nexists>m. unwrap_key pf passphrase f = Some (Inl (FormatError m))"
  obtains sz salt it nonce ct tag where
    "f = wrapped_part (key_size_value sz) salt it nonce ct @ tag" "length salt = 16" "length nonce = 12"
    "length ct = key_size_value sz" "length tag = 32"
proof -
  have "\<not> length f < 6 \<and> take 4 f = kWrappedKeyFileMagic \<and> f ! 4 = kWrappedKeyFileVersion \<and>
      wrapped_is_valid_size_marker (f ! 5) \<and> length f = kWrappedKeyOffset + unat (f ! 5) + kTagSize"
    using assms unfolding unwrap_key_def Let_def by (auto split: if_split_asm)
  then have F: "take 4 f = kWrappedKeyFileMagic" "f ! 4 = 2" "wrapped_is_valid_size_marker (f ! 5)"
    "length f = 38 + unat (f ! 5) + 32" by (simp_all add: layout_defs)
  then obtain sz where sz: "f ! 5 = of_nat (key_size_value sz)"
    by (elim valid_marker_size)
  have len: "length f = 38 + key_size_value sz + 32"
    using F(4) by (simp add: sz size_marker_roundtrip)
  define salt it nonce ct tag where "salt = take 16 (drop 6 f)"
    and "it = (le_decode (take 4 (drop 22 f)) :: u32)" and "nonce = take 12 (drop 26 f)"
    and "ct = take (key_size_value sz) (drop 38 f)" and "tag = drop (38 + key_size_value sz) f"
  have it: "le_encode 4 it = take 4 (drop 22 f)"
    using len by (simp add: it_def le_encode_decode)
  have "take 6 f = kWrappedKeyFileMagic @ [2, of_nat (key_size_value sz)]"
    using F(1,2) sz len by (simp add: take_Suc_conv_app_nth numeral_eq_Suc kWrappedKeyFileMagic_def)
  moreover have "f = take 6 f @ take 16 (drop 6 f) @ take 4 (drop 22 f) @ take 12 (drop 26 f) @
      take (key_size_value sz) (drop 38 f) @ drop (38 + key_size_value sz) f"
    using append_take_drop_id [of 6 f] append_take_drop_id [of 16 "drop 6 f"] append_take_drop_id [of 4 "drop 22 f"]
      append_take_drop_id [of 12 "drop 26 f"] append_take_drop_id [of "key_size_value sz" "drop 38 f"]
    by (simp add: add.commute)
  ultimately have "f = wrapped_part (key_size_value sz) salt it nonce ct @ tag"
    unfolding wrapped_part_def iterations_le_encode it salt_def nonce_def ct_def tag_def
    by (simp add: layout_defs)
  then show ?thesis
    by (rule that) (use len in \<open>simp_all add: salt_def nonce_def ct_def tag_def\<close>)
qed

section \<open>Writing the file\<close>

lemma write_wrapped_posix_contents:
  assumes "posix_files os fv" and "write_wrapped_posix os path part tag w = Some (Inr (), w')"
  shows "fv_cont fv w' = (fv_cont fv w)(path \<mapsto> part @ tag)"
proof -
  obtain fd w1 where o: "sys_open_wr os path (6 * 64) w = (fd, w1)" by fastforce
  with assms(2) have fd: "0 \<le> fd"
    by (auto simp: write_wrapped_posix_def split: if_splits)
  from o fd assms(2) obtain w2 w3 where l: "write_loop os fd part 0 w1 = Some (True, w2)"
    "write_loop os fd tag 0 w2 = Some (True, w3)" "w' = sys_close os fd w3"
    by (auto simp: write_wrapped_posix_def Let_def split: if_splits option.splits prod.splits)
  note od = open_wrD [OF assms(1) o fd]
  from write_loop_appends [OF l(1) assms(1), of path "[]"] od
  have "fv_cont fv w2 = (fv_cont fv w)(path \<mapsto> part)" "fv_wr fv w2 fd = Some path" by simp_all
  with write_loop_appends [OF l(2) assms(1), of path part] closeD [OF assms(1)] show ?thesis
    by (simp add: l(3))
qed

lemma write_wrapped_posix_returns:
  assumes "posix_files os fv" and "write_progress os" and "sys_target os \<noteq> OsWindows"
  shows "\<exists>r w'. write_wrapped_posix os path part tag w = Some (r, w') \<and> (r = Inr () \<or> (\<exists>m. r = Inl (IoError m)))"
proof -
  obtain fd w1 where o: "sys_open_wr os path (6 * 64) w = (fd, w1)" by fastforce
  show ?thesis
  proof (cases "fd < 0")
    case True
    with o show ?thesis by (simp add: write_wrapped_posix_def)
  next
    case False
    have od: "fv_cont fv w1 path = Some []" "fv_wr fv w1 fd = Some path"
      using open_wrD [OF assms(1) o] False by simp_all
    obtain ok w2 where l1: "write_loop os fd part 0 w1 = Some (ok, w2)"
      using write_loop_returns [OF assms(2,3,1) od(2,1), of 0 part] by auto
    have "\<exists>ok' w3. write_loop os fd tag 0 w2 = Some (ok', w3)" if "ok"
      using write_loop_appends [OF l1 assms(1) od(2,1)] that
      by (intro write_loop_returns [OF assms(2,3,1), of _ _ path "[] @ part"]) simp_all
    with o False l1 show ?thesis
      by (cases ok) (auto simp: write_wrapped_posix_def Let_def)
  qed
qed

lemma write_wrapped_win32_contents:
  assumes "win32_files os fv" and "write_wrapped_win32 os path part tag w = Some (Inr (), w')"
  shows "fv_cont fv w' = (fv_cont fv w)(path \<mapsto> part @ tag)"
proof -
  from assms(2) obtain h w1 w2 w3 w4 where o: "w32_create_wr os path w = (Some h, w1)"
    "w32_is_reparse_point os h w1 = (False, w2)" "w32_write_all os h part w2 = (True, w3)"
    "w32_write_all os h tag w3 = (True, w4)" "w' = w32_CloseHandle os h w4"
    by (auto simp: write_wrapped_win32_def Let_def split: prod.splits option.splits if_splits)
  have 2: "fv_cont fv w2 = (fv_cont fv w)(path \<mapsto> [])" "fv_wr fv w2 h = Some path"
    using w32_create_wrD [OF assms(1) o(1)] w32_is_reparse_pointD [OF assms(1) o(2)] by simp_all
  have "fv_cont fv w3 = (fv_cont fv w)(path \<mapsto> part)" "fv_wr fv w3 h = Some path"
    using w32_write_allD [OF assms(1) o(3) 2(2), of "[]"] 2(1) by simp_all
  with w32_write_allD(2) [OF assms(1) o(4), of path part] w32_closeD [OF assms(1)] show ?thesis
    by (simp add: o(5))
qed

lemma write_wrapped_cases:
  "sys_target os = OsWindows \<Longrightarrow> write_wrapped_file os = write_wrapped_win32 os"
  "sys_target os \<noteq> OsWindows \<Longrightarrow> write_wrapped_file os = write_wrapped_posix os"
  by (cases "sys_target os"; simp add: write_wrapped_file_def)+

lemma write_wrapped_contents:
  assumes "files_documented os fv" and "write_wrapped_file os path part tag w = Some (Inr (), w')"
  shows "fv_cont fv w' = (fv_cont fv w)(path \<mapsto> part @ tag)"
  using assms(2) files_documentedD(2,3) [OF assms(1)] write_wrapped_cases [of os]
    write_wrapped_win32_contents [of os fv path part tag w w'] write_wrapped_posix_contents [of os fv path part tag w w']
  by (cases "sys_target os = OsWindows") simp_all

lemma write_wrapped_returns:
  assumes "files_documented os fv" and "write_progress os"
  shows "\<exists>r w'. write_wrapped_file os path part tag w = Some (r, w') \<and> (r = Inr () \<or> (\<exists>m. r = Inl (IoError m)))"
proof (cases "sys_target os = OsWindows")
  case True
  then show ?thesis
    by (auto simp: write_wrapped_cases write_wrapped_win32_def Let_def split: prod.split option.split)
next
  case False
  with write_wrapped_posix_returns [OF files_documentedD(3) [OF assms(1) False] assms(2) False] show ?thesis
    by (simp add: write_wrapped_cases)
qed

section \<open>Saving\<close>

text \<open>The two derived subkeys.\<close>

definition wrap_subkey :: "bytes \<Rightarrow> bytes \<Rightarrow> u32 \<Rightarrow> secret_key" where
  "wrap_subkey passphrase salt it = key_from_bytes (pbkdf2_F hmac_sha256 passphrase salt (unat it) 1) Aes256"

definition mac_subkey :: "bytes \<Rightarrow> bytes \<Rightarrow> u32 \<Rightarrow> bytes" where
  "mac_subkey passphrase salt it = pbkdf2_F hmac_sha256 passphrase salt (unat it) 2"

lemma key_wf_wrap_subkey: "key_wf (wrap_subkey passphrase salt it)"
  by (simp add: wrap_subkey_def key_wf_from_bytes hmac.length_F)

lemma derived_subkeys:
  assumes "1000 \<le> it" and "it \<noteq> - 1"
  obtains d where "pbkdf2_hmac_sha256 passphrase salt it = Some d"
    "key_from_bytes (take 32 d) Aes256 = wrap_subkey passphrase salt it"
    "take 32 (drop 32 d) = mac_subkey passphrase salt it"
proof -
  have "it \<noteq> 0"
    using assms(1) by (auto simp: word_le_nat_alt)
  show ?thesis
    by (rule that, rule pbkdf2_hmac_sha256_F [OF assms(2) \<open>it \<noteq> 0\<close>])
      (simp_all add: wrap_subkey_def mac_subkey_def hmac.length_F)
qed

text \<open>The contents of the file a save writes for a salt and a nonce.\<close>

definition wrapped_file :: "platform \<Rightarrow> secret_key \<Rightarrow> bytes \<Rightarrow> bytes \<Rightarrow> u32 \<Rightarrow> bytes \<Rightarrow> bytes \<times> bytes" where
  "wrapped_file pf key passphrase salt it nonce =
     (let part = wrapped_part (key_size_bytes key) salt it nonce
            (xor_bytes (take (key_size_bytes key) (sk_bytes key))
              (ctr.stream pf (wrap_subkey passphrase salt it) nonce 0 ((key_size_bytes key + 15) div 16)))
      in (part, hmac_sha256 (mac_subkey passphrase salt it) part))"

lemma io_bind_option [simp]:
  "io_bind (io_option (Some x)) f = f x" "io_bind (io_option None) f w = None"
  by (simp_all add: io_bind_def io_option_def fun_eq_iff)

lemma save_encrypted_spec:
  assumes "random_documented os" and "key_wf key" and "1000 \<le> it" and "it \<noteq> - 1"
  shows "save_to_file_encrypted os pf key path passphrase it w =
    io_bind (fill_random os 16) (\<lambda>salt. io_bind (fill_random os 12) (\<lambda>unused.
      io_bind (fill_random os 12) (\<lambda>nonce.
        case wrapped_file pf key passphrase salt it nonce of (part, tag) \<Rightarrow>
          write_wrapped_file os path part tag))) w"
proof -
  let ?n = "key_size_bytes key" and ?k = "take (key_size_bytes key) (sk_bytes key)"
  have len: "length ?k = ?n" "?n \<le> 32"
    using assms(2) key_size_value_le [of "sk_size key"]
    by (simp_all add: key_wf_def key_size_bytes_def kKeySizeBytes_def)
  have enc: "io_bind (ctr_encrypt os pf k ?k) f w = io_bind (fill_random os 12) (\<lambda>nonce. f
      \<lparr>ct_nonce = nonce, ct_ciphertext = xor_bytes ?k (ctr.stream pf k nonce 0 ((?n + 15) div 16))\<rparr>) w"
    for k f w
    using ctr_encrypt_result [OF assms(1), of ?k pf k w] len
    by (auto simp: io_bind_def split: option.split sum.split)
  have x: "length (xor_bytes ?k (ctr.stream pf k nonce 0 ((?n + 15) div 16))) = ?n" if "length nonce = 12" for nonce k
    using ctr.stream_covers [OF that, of ?n] len by simp
  have lim: "\<not> it < kMinPbkdf2Iterations"
    using assms(3) by (simp add: kMinPbkdf2Iterations_def)
  show ?thesis
    unfolding save_to_file_encrypted_def Let_def key_bytes_def kSaltSize_def kNonceSize_def
  proof (simp only: lim if_False, rule io_bind_cong, goal_cases)
    case (1 salt w1)
    have ls: "length salt = 16"
      by (rule fill_random_length [OF assms(1) 1]) simp
    obtain d where d: "pbkdf2_hmac_sha256 passphrase salt it = Some d"
      "SecretKey\<lparr>sk_bytes := take kKeySizeBytes d\<rparr> = wrap_subkey passphrase salt it"
      "take kKeySizeBytes (drop kKeySizeBytes d) = mac_subkey passphrase salt it"
      using derived_subkeys [OF assms(3,4), of passphrase salt]
      by (metis wrap_key_from_bytes kKeySizeBytes_def)
    show ?case
      unfolding d io_bind_option
    proof (rule io_bind_cong, unfold enc, rule io_bind_cong, goal_cases)
      case (1 unused w2 nonce w3)
      have ln: "length nonce = 12"
        by (rule fill_random_length [OF assms(1) 1(2)]) simp
      have "length (wrapped_part ?n salt it nonce (xor_bytes ?k (ctr.stream pf
          (wrap_subkey passphrase salt it) nonce 0 ((?n + 15) div 16)))) = kWrappedKeyOffset + ?n"
        by (simp only: length_wrapped_part [OF ls ln] x [OF ln]) (simp add: layout_defs)
      then show ?case
        by (simp only: container.simps x [OF ln] simp_thms if_False wrapped_file_def Let_def prod.case)
    qed
  qed
qed

section \<open>Loading what was saved\<close>

lemma ctr_decrypt_stream:
  assumes "length nonce = 12" and "length p \<le> 2 ^ 36"
    and "pf2 = pf1 \<or> platform_documented pf1 \<and> platform_documented pf2 \<and> key_wf k"
  shows "ctr_decrypt pf2 k \<lparr>ct_nonce = nonce,
    ct_ciphertext = xor_bytes p (ctr.stream pf1 k nonce 0 ((length p + 15) div 16))\<rparr> = Inr p"
proof -
  let ?c = "xor_bytes p (ctr.stream pf1 k nonce 0 ((length p + 15) div 16))"
  have "apply_keystream pf1 k nonce ?c = Inr p"
    by (rule apply_keystream_involution [OF assms(1) apply_keystream_stream [OF assms(1)]])
  moreover have "apply_keystream pf2 k nonce ?c = apply_keystream pf1 k nonce ?c"
    using assms(3) by (intro apply_keystream_cong [OF assms(1)]) (auto simp: block_fn_documented)
  moreover have "length ?c = length p"
    using ctr.stream_covers [OF assms(1), of "length p" pf1 k 0] by simp
  moreover have "validate_block_count (length p) = Inr ()"
    by (subst validate_block_count_iff) (use assms(2) in simp_all)
  ultimately show ?thesis
    by (simp only: ctr_decrypt_def container.simps res_bind_simps)
qed

lemma unwrap_wrapped_file:
  assumes "key_wf key" and "length salt = 16" and "length nonce = 12" and "1000 \<le> it"
    and "pf2 = pf1 \<or> platform_documented pf1 \<and> platform_documented pf2"
    and "wrapped_file pf1 key passphrase salt it nonce = (part, tag)"
  shows "unwrap_key pf2 passphrase (part @ tag) =
    (if 50000000 < it then Some (Inl (FormatError
       (''encrypted key file has an invalid iteration count: '' @ to_string (unat it))))
     else Some (Inr (key_from_bytes (take (key_size_bytes key) (sk_bytes key)) (sk_size key))))"
proof -
  let ?n = "key_size_value (sk_size key)" and ?wk = "wrap_subkey passphrase salt it"
  let ?k = "take (key_size_value (sk_size key)) (sk_bytes key)"
  let ?c = "xor_bytes ?k (ctr.stream pf1 ?wk nonce 0 ((?n + 15) div 16))"
  have len: "length ?k = ?n" "?n \<le> 2 ^ 36"
    using assms(1) key_size_value_le [of "sk_size key"] by (simp_all add: key_wf_def kKeySizeBytes_def)
  have lc: "length ?c = ?n"
    using ctr.stream_covers [OF assms(3), of ?n pf1 ?wk 0] len by simp
  have p: "part = wrapped_part ?n salt it nonce ?c" "tag = hmac_sha256 (mac_subkey passphrase salt it) part"
    using assms(6) unfolding wrapped_file_def Let_def key_size_bytes_def prod.inject by blast+
  have dec: "ctr_decrypt pf2 ?wk \<lparr>ct_nonce = nonce, ct_ciphertext = ?c\<rparr> = Inr ?k"
    using ctr_decrypt_stream [OF assms(3), of ?k pf2 pf1 ?wk] len assms(5) key_wf_wrap_subkey by simp
  have "unwrap_key pf2 passphrase (part @ tag) =
      unwrap_fields pf2 passphrase (sk_size key) salt it nonce ?c tag"
    unfolding p(1) by (intro unwrap_key_fields assms(2,3) lc) (simp add: p(2))
  also have "\<dots> = (if 50000000 < it then Some (Inl (FormatError
       (''encrypted key file has an invalid iteration count: '' @ to_string (unat it))))
     else Some (Inr (key_from_bytes ?k (sk_size key))))"
  proof (cases "50000000 < it")
    case True
    then show ?thesis by (simp add: unwrap_fields_def)
  next
    case False
    then have "it \<noteq> - 1" by (auto simp: word_less_nat_alt unat_max)
    then obtain d where d: "pbkdf2_hmac_sha256 passphrase salt it = Some d"
      "key_from_bytes (take 32 d) Aes256 = ?wk" "take 32 (drop 32 d) = mac_subkey passphrase salt it"
      by (rule derived_subkeys [OF assms(4)])
    have "\<not> (it < 1000 \<or> 50000000 < it)" using assms(4) False by simp
    then show ?thesis
      unfolding unwrap_fields_def using False
      by (simp only: d option.case p(1) [symmetric] p(2) [symmetric] dec res_bind_simps len simp_thms if_False)
  qed
  finally show ?thesis by (simp only: key_size_bytes_def)
qed

text \<open>A save that succeeds has drawn a salt and a nonce and written their file.\<close>

lemma save_encrypted_InrE:
  assumes "random_documented os" and "key_wf key" and "files_documented os fv"
    and "save_to_file_encrypted os pf key path passphrase it w = Some (Inr (), w')"
  obtains salt nonce part tag where "1000 \<le> it" "it \<noteq> - 1" "length salt = 16" "length nonce = 12"
    "wrapped_file pf key passphrase salt it nonce = (part, tag)" "fv_cont fv w' path = Some (part @ tag)"
proof -
  have lo: "1000 \<le> it"
  proof (rule ccontr)
    assume "\<not> 1000 \<le> it"
    then show False
      using assms(4) by (simp add: save_to_file_encrypted_def Let_def kMinPbkdf2Iterations_def not_le)
  qed
  have hi: "it \<noteq> - 1"
  proof
    assume "it = - 1"
    then have "it = 0xFFFFFFFF" by (simp add: word_unat_eq_iff unat_max)
    with assms(4) lo show False
      by (auto simp: save_to_file_encrypted_def Let_def kMinPbkdf2Iterations_def pbkdf2_hmac_sha256_max
          io_option_def elim!: io_bind_InrE)
  qed
  obtain salt w1 unused w2 nonce w3 where r: "fill_random os 16 w = Some (Inr salt, w1)"
    "fill_random os 12 w1 = Some (Inr unused, w2)" "fill_random os 12 w2 = Some (Inr nonce, w3)"
    "(case wrapped_file pf key passphrase salt it nonce of (part, tag) \<Rightarrow> write_wrapped_file os path part tag) w3 =
      Some (Inr (), w')"
    using assms(4) unfolding save_encrypted_spec [OF assms(1,2) lo hi] by (elim io_bind_InrE)
  obtain part tag where pt: "wrapped_file pf key passphrase salt it nonce = (part, tag)" by fastforce
  show ?thesis
    using that [OF lo hi _ _ pt] fill_random_length [OF assms(1)] r
      write_wrapped_contents [OF assms(3), of path part tag w3 w'] by (simp add: pt)
qed

lemma load_encrypted_cases:
  assumes "files_documented os fv" and "fv_cont fv w path = Some f"
  shows "(\<exists>m w'. load_from_file_encrypted os pf path passphrase w = Some (Inl (IoError m), w')) \<or>
    (\<exists>w'. load_from_file_encrypted os pf path passphrase w =
       map_option (\<lambda>r. (r, w')) (unwrap_key pf passphrase f))"
proof -
  obtain r w' where r: "read_file os path w = Some (r, w')" "(\<exists>data. r = Inr data) \<or> (\<exists>m. r = Inl (IoError m))"
    using read_file_returns [of os path w] by blast
  have "data = f" if "r = Inr data" for data
    using read_file_contents [OF assms(1), of path w data w'] r(1) that assms(2) by simp
  with r show ?thesis
    by (auto simp: load_from_file_encrypted_def map_option_case split: option.split)
qed

text \<open>Every accepted file, and what it was accepted for.\<close>

lemma unwrap_key_InrD:
  assumes "unwrap_key pf passphrase f = Some (Inr key)"
  obtains sz salt it nonce ct where "length salt = 16" "length nonce = 12" "length ct = key_size_value sz"
    "1000 \<le> it" "it \<le> 50000000"
    "f = wrapped_part (key_size_value sz) salt it nonce ct @
       hmac_sha256 (mac_subkey passphrase salt it) (wrapped_part (key_size_value sz) salt it nonce ct)"
    "\<exists>bs. ctr_decrypt pf (wrap_subkey passphrase salt it) \<lparr>ct_nonce = nonce, ct_ciphertext = ct\<rparr> = Inr bs \<and>
       length bs = key_size_value sz \<and> key = key_from_bytes bs sz"
proof -
  obtain sz salt it nonce ct tag where f: "f = wrapped_part (key_size_value sz) salt it nonce ct @ tag"
    and l: "length salt = 16" "length nonce = 12" "length ct = key_size_value sz" "length tag = 32"
    by (rule unwrap_key_layout [of pf passphrase f]) (use assms in simp)
  have u: "unwrap_fields pf passphrase sz salt it nonce ct tag = Some (Inr key)"
    using assms unwrap_key_fields [OF l] by (simp add: f)
  then have it: "1000 \<le> it" "it \<le> 50000000"
    by (auto simp: unwrap_fields_def split: if_splits)
  then have "it \<noteq> - 1" by (auto simp: word_le_nat_alt unat_max)
  then obtain d where d: "pbkdf2_hmac_sha256 passphrase salt it = Some d"
    "key_from_bytes (take 32 d) Aes256 = wrap_subkey passphrase salt it"
    "take 32 (drop 32 d) = mac_subkey passphrase salt it"
    by (rule derived_subkeys [OF it(1)])
  have nb: "\<not> (it < 1000 \<or> 50000000 < it)" using it by (simp add: not_less)
  have t: "tag = hmac_sha256 (mac_subkey passphrase salt it) (wrapped_part (key_size_value sz) salt it nonce ct)"
    "\<exists>bs. ctr_decrypt pf (wrap_subkey passphrase salt it) \<lparr>ct_nonce = nonce, ct_ciphertext = ct\<rparr> = Inr bs \<and>
       length bs = key_size_value sz \<and> key = key_from_bytes bs sz"
    using u unfolding unwrap_fields_def d option.case if_not_P [OF nb]
    by (auto simp: res_bind_Inr_iff split: if_splits)
  show ?thesis
    by (rule that [OF l(1-3) it f [unfolded t(1)] t(2)])
qed

lemma unwrap_key_returns: "\<exists>r. unwrap_key pf passphrase f = Some r"
proof (cases "\<exists>m. unwrap_key pf passphrase f = Some (Inl (FormatError m))")
  case False
  then obtain sz salt it nonce ct tag where f: "f = wrapped_part (key_size_value sz) salt it nonce ct @ tag"
    and l: "length salt = 16" "length nonce = 12" "length ct = key_size_value sz" "length tag = 32"
    by (rule unwrap_key_layout)
  show ?thesis
  proof (cases "it < 1000 \<or> 50000000 < it")
    case True
    then show ?thesis unfolding f unwrap_key_fields [OF l] by (simp add: unwrap_fields_def)
  next
    case False
    then have "1000 \<le> it" "it \<noteq> - 1" by (auto simp: word_le_nat_alt word_less_nat_alt unat_max)
    then obtain d where "pbkdf2_hmac_sha256 passphrase salt it = Some d"
      by (rule derived_subkeys)
    then show ?thesis unfolding f unwrap_key_fields [OF l] by (simp add: unwrap_fields_def)
  qed
qed blast

text \<open>The default count lies within the bounds of both functions.\<close>

lemma default_iterations_accepted:
  "kMinPbkdf2Iterations \<le> kDefaultPbkdf2Iterations \<and> kDefaultPbkdf2Iterations \<le> kMaxPbkdf2Iterations"
  by (simp add: kMinPbkdf2Iterations_def kDefaultPbkdf2Iterations_def kMaxPbkdf2Iterations_def)

lemma to_string_1000: "to_string 1000 = ''1000''"
  by (simp add: to_string.simps [of 1000] to_string.simps [of 100] to_string.simps [of 10]
      to_string.simps [of "Suc 0"] char_of_def bit_0)

section \<open>A run on the in-memory file system\<close>

lemma mem_write_loop:
  assumes "mw_fds w fd = Some (path, off)" and "mw_files w path = Some xs"
  shows "\<exists>w' ys. write_loop mem_posix fd data written w = Some (True, w') \<and> mw_fds w' = mw_fds w \<and>
    mw_files w' path = Some ys"
  using assms
proof (induction "length data - written" arbitrary: written w xs rule: less_induct)
  case less
  show ?case
  proof (cases "written < length data")
    case True
    have "\<exists>w' ys. write_loop mem_posix fd data (written + min 5 (length data - written))
        (w\<lparr>mw_files := (mw_files w)(path \<mapsto> xs @ take 5 (drop written data))\<rparr>) = Some (True, w') \<and>
        mw_fds w' = mw_fds w \<and> mw_files w' path = Some ys"
      using True less.prems
      less.hyps [of "written + min 5 (length data - written)"
        "w\<lparr>mw_files := (mw_files w)(path \<mapsto> xs @ take 5 (drop written data))\<rparr>"] by simp
    moreover have "sys_write mem_posix fd (drop written data) w = (int (min 5 (length data - written)),
        w\<lparr>mw_files := (mw_files w)(path \<mapsto> xs @ take 5 (drop written data))\<rparr>)"
      using less.prems by (simp add: mem_posix_def)
    ultimately show ?thesis
      using True by (subst write_loop.simps) (simp del: of_nat_min)
  next
    case False
    with less.prems show ?thesis by (subst write_loop.simps) auto
  qed
qed

lemma mem_write_wrapped: "\<exists>w'. write_wrapped_file mem_posix path part tag w = Some (Inr (), w')" if "0 \<le> mw_next w"
proof -
  let ?w = "w\<lparr>mw_files := (mw_files w)(path \<mapsto> []), mw_fds := (mw_fds w)(mw_next w \<mapsto> (path, 0)),
    mw_next := mw_next w + 1\<rparr>"
  have o: "sys_open_wr mem_posix path 384 w = (mw_next w, ?w)"
    by (simp add: mem_posix_def)
  obtain w1 ys where 1: "write_loop mem_posix (mw_next w) part 0 ?w = Some (True, w1)"
    "mw_fds w1 = mw_fds ?w" "mw_files w1 path = Some ys"
    using mem_write_loop [of ?w "mw_next w" path 0 "[]" part 0] by auto
  obtain w2 where 2: "write_loop mem_posix (mw_next w) tag 0 w1 = Some (True, w2)"
    using mem_write_loop [of w1 "mw_next w" path 0 ys tag 0] 1 by auto
  have "write_wrapped_file mem_posix = write_wrapped_posix mem_posix"
    by (rule write_wrapped_cases) (simp add: mem_posix_def)
  with that show ?thesis by (simp add: write_wrapped_posix_def o 1(1) 2)
qed

lemmas mem_fill_simps = fill_random_def fill_random_linux_def fill_random_loop.simps mem_posix_def mem_start_def upt_rec_numeral
  upt_conv_Cons numeral_2_eq_2 [symmetric]

lemma mem_fill_salt_nonces:
  "fill_random mem_posix 16 mem_start =
     Some (Inr [0, 1, 2, 3, 4, 5, 6, 1, 2, 3, 4, 5, 6, 7, 3, 4], mem_start\<lparr>mw_calls := 4\<rparr>)"
  "fill_random mem_posix 12 (mem_start\<lparr>mw_calls := 4\<rparr>) =
     Some (Inr [4, 5, 6, 7, 8, 9, 10, 6, 7, 8, 9, 10], mem_start\<lparr>mw_calls := 7\<rparr>)"
  "fill_random mem_posix 12 (mem_start\<lparr>mw_calls := 7\<rparr>) =
     Some (Inr [7, 8, 9, 10, 11, 12, 13, 9, 10, 11, 12, 13], mem_start\<lparr>mw_calls := 10\<rparr>)"
  by (simp_all add: mem_fill_simps)

lemma mem_save_encrypted:
  assumes "key_wf key" and "1000 \<le> it" and "it \<noteq> - 1"
  shows "\<exists>w'. save_to_file_encrypted mem_posix pf key path passphrase it mem_start = Some (Inr (), w')"
proof -
  have "0 \<le> mw_next (mem_start\<lparr>mw_calls := 10\<rparr>)" by (simp add: mem_start_def)
  then show ?thesis
    unfolding save_encrypted_spec [OF mem_random_documented(1) assms]
    using mem_write_wrapped by (simp add: mem_fill_salt_nonces split: prod.split)
qed

section \<open>Properties\<close>

text \<open>
  C4. Round trip of the passphrase-protected key file, with saving and loading possibly on
  different documented platforms: when a save with at most 50,000,000 iterations has
  succeeded, the load with the same passphrase returns; it yields an error of the file
  system or a key of the same size with the same logical bytes, which encrypts every block
  as the original does. It never yields a format or authentication error and never another key.
\<close>

theorem encrypted_key_roundtrip:
  assumes "files_documented os fv" and "random_documented os" and "key_wf key"
    and "platform_documented pf1" and "platform_documented pf2" and "it \<le> 50000000"
    and "save_to_file_encrypted os pf1 key path passphrase it w = Some (Inr (), w1)"
  shows "\<exists>r w2. load_from_file_encrypted os pf2 path passphrase w1 = Some (r, w2) \<and>
    ((\<exists>m. r = Inl (IoError m)) \<or>
     (\<exists>key'. r = Inr key' \<and> key_wf key' \<and> sk_size key' = sk_size key \<and> sk_gcm_invocations key' = 0 \<and>
        take (key_size_bytes key) (sk_bytes key') = take (key_size_bytes key) (sk_bytes key) \<and>
        (\<forall>block. length block = 16 \<longrightarrow> encrypt_block pf2 key' block = encrypt_block pf2 key block)))"
proof -
  let ?k = "take (key_size_bytes key) (sk_bytes key)"
  let ?key = "key_from_bytes ?k (sk_size key)"
  obtain salt nonce part tag where s: "1000 \<le> it" "length salt = 16" "length nonce = 12"
    "wrapped_file pf1 key passphrase salt it nonce = (part, tag)" "fv_cont fv w1 path = Some (part @ tag)"
    by (rule save_encrypted_InrE [OF assms(2,3,1,7)])
  have u: "unwrap_key pf2 passphrase (part @ tag) = Some (Inr ?key)"
    using unwrap_wrapped_file [OF assms(3) s(2,3,1) _ s(4), of pf2] assms(4-6) by (simp add: not_less)
  have len: "length ?k = key_size_value (sk_size key)"
    using assms(3) key_size_value_le [of "sk_size key"] by (simp add: key_wf_def key_size_bytes_def)
  have "key_wf ?key" "sk_size ?key = sk_size key" "sk_gcm_invocations ?key = 0"
    "take (key_size_bytes key) (sk_bytes ?key) = ?k"
    using key_wf_from_bytes [of "sk_size key" ?k] len
    by (simp_all add: key_from_bytes_sel key_size_bytes_def)
  note key' = this
  have blocks: "\<forall>block. length block = 16 \<longrightarrow> encrypt_block pf2 ?key block = encrypt_block pf2 key block"
    using encrypt_block_from_bytes [OF assms(5,3) _ refl] by blast
  consider (io) m w2 where "load_from_file_encrypted os pf2 path passphrase w1 = Some (Inl (IoError m), w2)"
    | (ok) w2 where "load_from_file_encrypted os pf2 path passphrase w1 = Some (Inr ?key, w2)"
    using load_encrypted_cases [OF assms(1) s(5), of pf2 passphrase] unfolding u option.map by blast
  then show ?thesis
  proof cases
    case io
    then show ?thesis by blast
  next
    case ok
    then show ?thesis
      using key' blocks by (intro exI [of _ "Inr ?key"] exI [of _ w2] conjI disjI2 exI [of _ ?key]) simp_all
  qed
qed

theorem encrypted_key_roundtrip_witness:
  "let pf1 = x86_platform (push_bit 25 1) None; pf2 = x86_platform 0 None; key = SecretKey\<lparr>sk_size := Aes128\<rparr> in
   \<exists>w1 r w2. save_to_file_encrypted mem_posix pf1 key ''k'' [112, 119] 1000 mem_start = Some (Inr (), w1) \<and>
    load_from_file_encrypted mem_posix pf2 ''k'' [112, 119] w1 = Some (r, w2) \<and>
    ((\<exists>m. r = Inl (IoError m)) \<or> (\<exists>key'. r = Inr key' \<and> sk_size key' = Aes128))"
proof -
  let ?pf1 = "x86_platform (push_bit 25 1) None" and ?pf2 = "x86_platform 0 None"
  let ?K = "SecretKey\<lparr>sk_size := Aes128\<rparr>"
  have k: "key_wf ?K" by (simp add: key_wf_def SecretKey_def lock_memory_def)
  have "(1000 :: u32) \<noteq> - 1" by (simp add: word_unat_eq_iff unat_max)
  with mem_save_encrypted [OF k, of 1000 ?pf1 "''k''" "[112, 119]"]
  obtain w1 where s: "save_to_file_encrypted mem_posix ?pf1 ?K ''k'' [112, 119] 1000 mem_start = Some (Inr (), w1)"
    by auto
  show ?thesis
    unfolding Let_def using s encrypted_key_roundtrip [OF mem_files_documented mem_random_documented(1) k
      x86_platform_documented x86_platform_documented _ s, of 0 None] by fastforce
qed

text \<open>
  C5. A load of an encrypted key file always returns, whatever the file holds, and a key is
  released only from an authentic file: the file has the documented layout, its iteration
  count is between 1,000 and 50,000,000, and its tag is the HMAC-SHA256 of everything
  before it under the subkey derived from the passphrase. The key is then the counter-mode
  decryption of the wrapped bytes under the other subkey.
\<close>

theorem encrypted_key_load_authentic:
  assumes "files_documented os fv"
  shows "(\<exists>r w'. load_from_file_encrypted os pf path passphrase w = Some (r, w')) \<and>
    (\<forall>key w'. load_from_file_encrypted os pf path passphrase w = Some (Inr key, w') \<longrightarrow>
      (\<exists>sz salt it nonce ct part bs. fv_cont fv w path = Some (part @ hmac_sha256 (mac_subkey passphrase salt it) part) \<and>
        part = wrapped_part (key_size_value sz) salt it nonce ct \<and> length salt = 16 \<and> length nonce = 12 \<and>
        length ct = key_size_value sz \<and> 1000 \<le> it \<and> it \<le> 50000000 \<and>
        ctr_decrypt pf (wrap_subkey passphrase salt it) \<lparr>ct_nonce = nonce, ct_ciphertext = ct\<rparr> = Inr bs \<and>
        key = key_from_bytes bs sz))"
proof (intro conjI allI impI)
  obtain r w' where "read_file os path w = Some (r, w')"
    using read_file_returns [of os path w] by blast
  then show "\<exists>r w'. load_from_file_encrypted os pf path passphrase w = Some (r, w')"
    using unwrap_key_returns [of pf passphrase]
    by (cases r) (auto simp: load_from_file_encrypted_def split: option.split)
next
  fix key w'
  assume "load_from_file_encrypted os pf path passphrase w = Some (Inr key, w')"
  then obtain f w1 where f: "read_file os path w = Some (Inr f, w1)" "unwrap_key pf passphrase f = Some (Inr key)"
    by (auto simp: load_from_file_encrypted_def elim!: io_bind_InrE split: option.splits)
  have c: "fv_cont fv w path = Some f"
    by (rule read_file_contents [OF assms f(1)])
  from f(2) show "\<exists>sz salt it nonce ct part bs.
        fv_cont fv w path = Some (part @ hmac_sha256 (mac_subkey passphrase salt it) part) \<and>
        part = wrapped_part (key_size_value sz) salt it nonce ct \<and> length salt = 16 \<and> length nonce = 12 \<and>
        length ct = key_size_value sz \<and> 1000 \<le> it \<and> it \<le> 50000000 \<and>
        ctr_decrypt pf (wrap_subkey passphrase salt it) \<lparr>ct_nonce = nonce, ct_ciphertext = ct\<rparr> = Inr bs \<and>
        key = key_from_bytes bs sz"
    by (rule unwrap_key_InrD) (use c in blast)
qed

theorem encrypted_key_load_authentic_witness:
  "\<exists>r w'. load_from_file_encrypted mem_posix (x86_platform 0 None) ''k'' [112, 119]
     (mem_start\<lparr>mw_files := [''k'' \<mapsto> [0x41, 0x45, 0x53]]\<rparr>) = Some (r, w')"
  using encrypted_key_load_authentic [OF mem_files_documented] by blast

text \<open>
  The verdict on a well-formed encrypted key file with an admissible iteration count
  depends on the tag alone: the right tag releases the decrypted key, and any other tag
  (a wrong passphrase, a changed header or ciphertext) is an \<^verbatim>\<open>AuthenticationError\<close>.
\<close>

theorem encrypted_key_tag_verdict:
  assumes "length salt = 16" and "length nonce = 12" and "length ct = key_size_value sz" and "length tag = 32"
    and "1000 \<le> it" and "it \<le> 50000000"
  shows "unwrap_key pf passphrase (wrapped_part (key_size_value sz) salt it nonce ct @ tag) =
    (if tag = hmac_sha256 (mac_subkey passphrase salt it) (wrapped_part (key_size_value sz) salt it nonce ct) then
       Some (Inr (key_from_bytes (xor_bytes ct
         (ctr.stream pf (wrap_subkey passphrase salt it) nonce 0 ((key_size_value sz + 15) div 16))) sz))
     else Some (Inl (AuthenticationError
       ''encrypted key file authentication failed: wrong passphrase or corrupted file'')))"
proof -
  have "it \<noteq> - 1" using assms(6) by (auto simp: word_le_nat_alt unat_max)
  then obtain d where d: "pbkdf2_hmac_sha256 passphrase salt it = Some d"
    "key_from_bytes (take 32 d) Aes256 = wrap_subkey passphrase salt it"
    "take 32 (drop 32 d) = mac_subkey passphrase salt it"
    by (rule derived_subkeys [OF assms(5)])
  let ?s = "ctr.stream pf (wrap_subkey passphrase salt it) nonce 0 ((key_size_value sz + 15) div 16)"
  have nb: "\<not> (it < 1000 \<or> 50000000 < it)"
    using assms(5,6) by (simp add: not_less)
  have n: "key_size_value sz \<le> 2 ^ 36"
    by (cases sz) simp_all
  have x: "length (xor_bytes ct ?s) = key_size_value sz"
    using ctr.stream_covers [OF assms(2), of "key_size_value sz" pf "wrap_subkey passphrase salt it" 0] assms(3) by simp
  have "validate_block_count (key_size_value sz) = Inr ()"
    by (subst validate_block_count_iff) (use n in simp_all)
  then have "ctr_decrypt pf (wrap_subkey passphrase salt it) \<lparr>ct_nonce = nonce, ct_ciphertext = ct\<rparr> =
      Inr (xor_bytes ct ?s)"
    by (simp only: ctr_decrypt_def container.simps assms(3) res_bind_simps apply_keystream_stream [OF assms(2)])
  then show ?thesis
    unfolding unwrap_key_fields [OF assms(1-4)] unwrap_fields_def d option.case if_not_P [OF nb]
    by (simp add: x del: length_xor_bytes)
qed

theorem encrypted_key_tag_verdict_witness:
  "unwrap_key (x86_platform 0 None) [112, 119]
     (wrapped_part 16 (replicate 16 1) 1000 (replicate 12 2) (replicate 16 3) @
       hmac_sha256 (mac_subkey [112, 119] (replicate 16 1) 1000)
         (wrapped_part 16 (replicate 16 1) 1000 (replicate 12 2) (replicate 16 3))) \<noteq>
     Some (Inl (AuthenticationError
       ''encrypted key file authentication failed: wrong passphrase or corrupted file''))"
  using encrypted_key_tag_verdict [where salt = "replicate 16 1" and nonce = "replicate 12 2" and ct = "replicate 16 3"
      and sz = Aes128 and it = 1000 and pf = "x86_platform 0 None" and passphrase = "[112, 119]"
      and tag = "hmac_sha256 (mac_subkey [112, 119] (replicate 16 1) 1000)
         (wrapped_part 16 (replicate 16 1) 1000 (replicate 12 2) (replicate 16 3))"]
  by simp

text \<open>
  C27. The bounds on the iteration count of a save. Below 1,000 it throws \<^verbatim>\<open>LimitError\<close> and
  touches nothing. Above 50,000,000 the save is accepted, but the loader refuses the file
  it wrote with a \<^verbatim>\<open>FormatError\<close> (unless reading it fails); and with \<^verbatim>\<open>UINT32_MAX\<close> the save
  does not return once it has drawn its salt.
\<close>

theorem encrypted_key_iteration_bounds:
  assumes "files_documented os fv" and "random_documented os" and "key_wf key"
    and "pf2 = pf1 \<or> platform_documented pf1 \<and> platform_documented pf2"
  shows "(it < 1000 \<longrightarrow> save_to_file_encrypted os pf1 key path passphrase it w =
       Some (Inl (LimitError ''PBKDF2 iteration count must be at least 1000''), w)) \<and>
    (50000000 < it \<longrightarrow> save_to_file_encrypted os pf1 key path passphrase it w = Some (Inr (), w1) \<longrightarrow>
       (\<exists>m w2. load_from_file_encrypted os pf2 path passphrase w1 = Some (Inl (FormatError m), w2) \<or>
              load_from_file_encrypted os pf2 path passphrase w1 = Some (Inl (IoError m), w2))) \<and>
    (fill_random os 16 w = Some (Inr salt, w1) \<longrightarrow>
       save_to_file_encrypted os pf1 key path passphrase 0xFFFFFFFF w = None)"
proof (intro conjI impI)
  assume "it < 1000"
  then show "save_to_file_encrypted os pf1 key path passphrase it w =
      Some (Inl (LimitError ''PBKDF2 iteration count must be at least 1000''), w)"
    by (simp add: save_to_file_encrypted_def Let_def kMinPbkdf2Iterations_def to_string_1000)
next
  assume big: "50000000 < it" and s: "save_to_file_encrypted os pf1 key path passphrase it w = Some (Inr (), w1)"
  obtain salt nonce part tag where e: "1000 \<le> it" "length salt = 16" "length nonce = 12"
    "wrapped_file pf1 key passphrase salt it nonce = (part, tag)" "fv_cont fv w1 path = Some (part @ tag)"
    by (rule save_encrypted_InrE [OF assms(2,3,1) s])
  show "\<exists>m w2. load_from_file_encrypted os pf2 path passphrase w1 = Some (Inl (FormatError m), w2) \<or>
      load_from_file_encrypted os pf2 path passphrase w1 = Some (Inl (IoError m), w2)"
    using load_encrypted_cases [OF assms(1) e(5), of pf2 passphrase] big
    unfolding unwrap_wrapped_file [OF assms(3) e(2,3,1) assms(4) e(4)] by (simp only: if_True option.map) blast
next
  assume "fill_random os 16 w = Some (Inr salt, w1)"
  moreover have "\<not> (0xFFFFFFFF :: u32) < 1000" by simp
  ultimately show "save_to_file_encrypted os pf1 key path passphrase 0xFFFFFFFF w = None"
    by (simp add: save_to_file_encrypted_def Let_def kMinPbkdf2Iterations_def kSaltSize_def pbkdf2_hmac_sha256_max)
qed

theorem encrypted_key_iteration_bounds_witness:
  "let pf = x86_platform 0 None in
   \<exists>w1 m w2. save_to_file_encrypted mem_posix pf SecretKey ''k'' [112, 119] 60000000 mem_start = Some (Inr (), w1) \<and>
    (load_from_file_encrypted mem_posix pf ''k'' [112, 119] w1 = Some (Inl (FormatError m), w2) \<or>
     load_from_file_encrypted mem_posix pf ''k'' [112, 119] w1 = Some (Inl (IoError m), w2)) \<and>
    save_to_file_encrypted mem_posix pf SecretKey ''k'' [112, 119] 0xFFFFFFFF mem_start = None"
proof -
  let ?pf = "x86_platform 0 None"
  have "(60000000 :: u32) \<noteq> - 1" by (simp add: word_unat_eq_iff unat_max)
  with mem_save_encrypted [OF key_wf_SecretKey, of 60000000 ?pf "''k''" "[112, 119]"]
  obtain w1 where s: "save_to_file_encrypted mem_posix ?pf SecretKey ''k'' [112, 119] 60000000 mem_start = Some (Inr (), w1)"
    by auto
  note b = encrypted_key_iteration_bounds [OF mem_files_documented mem_random_documented(1) key_wf_SecretKey,
      of ?pf ?pf _ "''k''" "[112, 119]" mem_start]
  show ?thesis
    unfolding Let_def using s b [of 60000000 w1] b [THEN conjunct2, THEN conjunct2] mem_fill_salt_nonces(1) by auto
qed

end
