(* ===== verification/Capi.thy ===== *)
theory Capi
  imports Gcm_Mode Key_Storage
begin

text \<open>
  The C interface of \<^verbatim>\<open>src/capi.cpp\<close> and \<^verbatim>\<open>include/aeslib/capi.h\<close>. The state holds the two
  kinds of heap objects the interface hands out (key handles and output buffers), the
  thread's last error message and the world of the system calls. A pointer is an address
  or \<open>None\<close> for a null pointer; the caller's output parameters are passed as flags
  saying that the pointer is not null, and what a call stores through them is part of
  its result. Allocation does not fail here; \<open>Capi_Memory\<close> is about its failure.
\<close>

section \<open>Definitions\<close>

datatype aeslib_status =
    AESLIB_OK
  | AESLIB_ERR_INVALID_ARGUMENT
  | AESLIB_ERR_IO
  | AESLIB_ERR_FORMAT
  | AESLIB_ERR_LIMIT
  | AESLIB_ERR_AUTHENTICATION
  | AESLIB_ERR_UNKNOWN

fun status_code :: "aeslib_status \<Rightarrow> nat" where
  "status_code AESLIB_OK = 0"
| "status_code AESLIB_ERR_INVALID_ARGUMENT = 1"
| "status_code AESLIB_ERR_IO = 2"
| "status_code AESLIB_ERR_FORMAT = 3"
| "status_code AESLIB_ERR_LIMIT = 4"
| "status_code AESLIB_ERR_AUTHENTICATION = 5"
| "status_code AESLIB_ERR_UNKNOWN = 6"

datatype aeslib_backend = AESLIB_BACKEND_SOFTWARE | AESLIB_BACKEND_HARDWARE

text \<open>
  A buffer is its allocated size and the bytes stored in it. \<open>cs_freed\<close> holds what the
  storage of a deleted key object contains when it is given back to the allocator.
\<close>

record 'w capi_state =
  cs_keys :: "nat \<Rightarrow> secret_key option"
  cs_bufs :: "nat \<Rightarrow> (nat \<times> bytes) option"
  cs_freed :: "nat \<Rightarrow> bytes option"
  cs_next :: nat
  cs_last_error :: string
  cs_world :: 'w

text \<open>
  A call returns, does not return, or has undefined behaviour (a handle or a buffer that
  is not live, or an exception that leaves the function).
\<close>

datatype 'r c_call = Ret 'r | NoReturn | Undef

text \<open>The object operations: \<^verbatim>\<open>new aeslib_key\<close>, \<^verbatim>\<open>delete key\<close>, \<^verbatim>\<open>new uint8_t[n]\<close>, \<^verbatim>\<open>delete[] buffer\<close>.\<close>

definition new_key :: "secret_key \<Rightarrow> 'w capi_state \<Rightarrow> nat \<times> 'w capi_state" where
  "new_key k st = (cs_next st,
     st\<lparr>cs_keys := (cs_keys st)(cs_next st \<mapsto> k), cs_next := cs_next st + 1\<rparr>)"

definition delete_key :: "nat \<Rightarrow> 'w capi_state \<Rightarrow> 'w capi_state" where
  "delete_key a st = st\<lparr>cs_keys := (cs_keys st)(a := None),
     cs_freed := (cs_freed st)(a := map_option (\<lambda>k. sk_bytes (wipe k)) (cs_keys st a))\<rparr>"

definition new_buf :: "nat \<times> bytes \<Rightarrow> 'w capi_state \<Rightarrow> nat \<times> 'w capi_state" where
  "new_buf b st = (cs_next st,
     st\<lparr>cs_bufs := (cs_bufs st)(cs_next st \<mapsto> b), cs_next := cs_next st + 1\<rparr>)"

definition delete_buf :: "nat \<Rightarrow> 'w capi_state \<Rightarrow> 'w capi_state" where
  "delete_buf a st = st\<lparr>cs_bufs := (cs_bufs st)(a := None)\<rparr>"

definition set_last_error :: "string \<Rightarrow> 'w capi_state \<Rightarrow> 'w capi_state" where
  "set_last_error message st = st\<lparr>cs_last_error := message\<rparr>"

definition translate_exception :: "aes_error \<Rightarrow> 'w capi_state \<Rightarrow> aeslib_status \<times> 'w capi_state" where
  "translate_exception e st =
     (case e of
        AuthenticationError m \<Rightarrow> (AESLIB_ERR_AUTHENTICATION, set_last_error m st)
      | LimitError m \<Rightarrow> (AESLIB_ERR_LIMIT, set_last_error m st)
      | FormatError m \<Rightarrow> (AESLIB_ERR_FORMAT, set_last_error m st)
      | IoError m \<Rightarrow> (AESLIB_ERR_IO, set_last_error m st)
      | LogicError m \<Rightarrow> (AESLIB_ERR_UNKNOWN, set_last_error m st)
      | StdException m \<Rightarrow> (AESLIB_ERR_UNKNOWN, set_last_error m st))"

text \<open>The address and the length stored through the output parameters.\<close>

definition allocate_output :: "bytes \<Rightarrow> 'w capi_state \<Rightarrow> (nat \<times> nat) \<times> 'w capi_state" where
  "allocate_output bs st =
     (case new_buf (if bs = [] then 1 else length bs, bs) st of (a, st) \<Rightarrow> ((a, length bs), st))"

text \<open>\<open>data\<close> is the caller's memory from the pointer on.\<close>

definition to_bytes :: "bytes option \<Rightarrow> nat \<Rightarrow> bytes" where
  "to_bytes data len = (case data of None \<Rightarrow> [] | Some mem \<Rightarrow> take len mem)"

text \<open>
  The \<^verbatim>\<open>try\<close> / \<^verbatim>\<open>catch (...)\<close> frame of the wrappers: an exception becomes a status and no
  output is stored.
\<close>

definition c_try :: "('a res \<times> 'w) option \<Rightarrow> ('a \<Rightarrow> 'w capi_state \<Rightarrow> 'o \<times> 'w capi_state) \<Rightarrow>
    'w capi_state \<Rightarrow> (aeslib_status \<times> 'o option \<times> 'w capi_state) c_call" where
  "c_try m k st =
     (case m of
        None \<Rightarrow> NoReturn
      | Some (Inl e, w) \<Rightarrow>
          (case translate_exception e (st\<lparr>cs_world := w\<rparr>) of (s, st) \<Rightarrow> Ret (s, None, st))
      | Some (Inr x, w) \<Rightarrow>
          (case k x (st\<lparr>cs_world := w\<rparr>) of (out, st) \<Rightarrow> Ret (AESLIB_OK, Some out, st)))"

definition invalid_argument :: "string \<Rightarrow> 'w capi_state \<Rightarrow>
    (aeslib_status \<times> 'o option \<times> 'w capi_state) c_call" where
  "invalid_argument message st = Ret (AESLIB_ERR_INVALID_ARGUMENT, None, set_last_error message st)"

text \<open>\<^verbatim>\<open>key->key\<close> for a handle that is not null.\<close>

definition deref_key :: "nat option \<Rightarrow> 'w capi_state \<Rightarrow> (nat \<Rightarrow> secret_key \<Rightarrow> 'r c_call) \<Rightarrow> 'r c_call" where
  "deref_key key st f =
     (case key of
        None \<Rightarrow> Undef
      | Some a \<Rightarrow> (case cs_keys st a of None \<Rightarrow> Undef | Some k \<Rightarrow> f a k))"

definition aeslib_last_error_message :: "'w capi_state \<Rightarrow> string" where
  "aeslib_last_error_message st = cs_last_error st"

definition aeslib_active_backend :: "platform \<Rightarrow> aeslib_backend c_call" where
  "aeslib_active_backend pf =
     (case active_backend pf of
        Inl e \<Rightarrow> Undef
      | Inr b \<Rightarrow> Ret (if b = Hardware then AESLIB_BACKEND_HARDWARE else AESLIB_BACKEND_SOFTWARE))"

definition aeslib_key_generate :: "'w system \<Rightarrow> int \<Rightarrow> bool \<Rightarrow> 'w capi_state \<Rightarrow>
    (aeslib_status \<times> nat option \<times> 'w capi_state) c_call" where
  "aeslib_key_generate os key_size_bits out_key st =
     (if \<not> out_key then invalid_argument ''out_key must not be null'' st
      else if key_size_bits \<noteq> 128 \<and> key_size_bits \<noteq> 256 then
        invalid_argument ''key_size_bits must be 128 or 256'' st
      else
        let size = (if key_size_bits = 128 then Aes128 else Aes256)
        in c_try (generate os size (cs_world st)) (\<lambda>key. new_key (fst (move_construct key))) st)"

definition aeslib_key_free :: "nat option \<Rightarrow> 'w capi_state \<Rightarrow> 'w capi_state c_call" where
  "aeslib_key_free key st =
     (case key of
        None \<Rightarrow> Ret st
      | Some a \<Rightarrow> deref_key key st (\<lambda>_ _. Ret (delete_key a st)))"

definition aeslib_key_save_to_file :: "'w system \<Rightarrow> nat option \<Rightarrow> string option \<Rightarrow> 'w capi_state \<Rightarrow>
    (aeslib_status \<times> unit option \<times> 'w capi_state) c_call" where
  "aeslib_key_save_to_file os key path st =
     (case path of
        None \<Rightarrow> invalid_argument ''key and path must not be null'' st
      | Some p \<Rightarrow>
          if key = None then invalid_argument ''key and path must not be null'' st
          else deref_key key st (\<lambda>_ k. c_try (save_to_file os k p (cs_world st)) (\<lambda>u st. (u, st)) st))"

definition aeslib_key_load_from_file :: "'w system \<Rightarrow> string option \<Rightarrow> bool \<Rightarrow> 'w capi_state \<Rightarrow>
    (aeslib_status \<times> nat option \<times> 'w capi_state) c_call" where
  "aeslib_key_load_from_file os path out_key st =
     (case path of
        None \<Rightarrow> invalid_argument ''path and out_key must not be null'' st
      | Some p \<Rightarrow>
          if \<not> out_key then invalid_argument ''path and out_key must not be null'' st
          else c_try (load_from_file os p (cs_world st)) (\<lambda>key. new_key (fst (move_construct key))) st)"

text \<open>\<open>outs\<close>: every output pointer of the call is not null.\<close>

definition aeslib_ctr_encrypt :: "'w system \<Rightarrow> platform \<Rightarrow> nat option \<Rightarrow> bytes option \<Rightarrow> nat \<Rightarrow> bool \<Rightarrow>
    'w capi_state \<Rightarrow> (aeslib_status \<times> (bytes \<times> nat \<times> nat) option \<times> 'w capi_state) c_call" where
  "aeslib_ctr_encrypt os pf key plaintext plaintext_len outs st =
     (if key = None \<or> plaintext = None \<and> plaintext_len \<noteq> 0 \<or> \<not> outs then
        invalid_argument ''invalid argument to aeslib_ctr_encrypt'' st
      else deref_key key st (\<lambda>_ k.
        c_try (ctr_encrypt os pf k (to_bytes plaintext plaintext_len) (cs_world st)) (\<lambda>c st.
          case allocate_output (ct_ciphertext c) st of (out, st) \<Rightarrow> ((ct_nonce c, out), st)) st))"

definition aeslib_ctr_decrypt :: "platform \<Rightarrow> nat option \<Rightarrow> bytes option \<Rightarrow> bytes option \<Rightarrow> nat \<Rightarrow> bool \<Rightarrow>
    'w capi_state \<Rightarrow> (aeslib_status \<times> (nat \<times> nat) option \<times> 'w capi_state) c_call" where
  "aeslib_ctr_decrypt pf key nonce ciphertext ciphertext_len outs st =
     (case nonce of
        None \<Rightarrow> invalid_argument ''invalid argument to aeslib_ctr_decrypt'' st
      | Some nmem \<Rightarrow>
          if key = None \<or> ciphertext = None \<and> ciphertext_len \<noteq> 0 \<or> \<not> outs then
            invalid_argument ''invalid argument to aeslib_ctr_decrypt'' st
          else deref_key key st (\<lambda>_ k.
            c_try (Some (ctr_decrypt pf k \<lparr>ct_nonce = take 12 nmem,
                ct_ciphertext = to_bytes ciphertext ciphertext_len\<rparr>, cs_world st)) allocate_output st))"

text \<open>A GCM encryption also advances the counter of the key object.\<close>

definition aeslib_gcm_encrypt :: "'w system \<Rightarrow> platform \<Rightarrow> nat option \<Rightarrow> bytes option \<Rightarrow> nat \<Rightarrow>
    bytes option \<Rightarrow> nat \<Rightarrow> bool \<Rightarrow> 'w capi_state \<Rightarrow>
    (aeslib_status \<times> (bytes \<times> bytes \<times> nat \<times> nat) option \<times> 'w capi_state) c_call" where
  "aeslib_gcm_encrypt os pf key plaintext plaintext_len aad aad_len outs st =
     (if key = None \<or> plaintext = None \<and> plaintext_len \<noteq> 0 \<or> aad = None \<and> aad_len \<noteq> 0 \<or> \<not> outs then
        invalid_argument ''invalid argument to aeslib_gcm_encrypt'' st
      else deref_key key st (\<lambda>a k.
        case gcm_encrypt os pf k (to_bytes plaintext plaintext_len) (to_bytes aad aad_len) (cs_world st) of
          None \<Rightarrow> NoReturn
        | Some (r, k', w) \<Rightarrow>
            c_try (Some (r, w)) (\<lambda>c st.
              case allocate_output (gc_ciphertext c) st of (out, st) \<Rightarrow> ((gc_nonce c, gc_tag c, out), st))
              (st\<lparr>cs_keys := (cs_keys st)(a \<mapsto> k')\<rparr>)))"

definition aeslib_gcm_decrypt :: "platform \<Rightarrow> nat option \<Rightarrow> bytes option \<Rightarrow> bytes option \<Rightarrow>
    bytes option \<Rightarrow> nat \<Rightarrow> bytes option \<Rightarrow> nat \<Rightarrow> bool \<Rightarrow> 'w capi_state \<Rightarrow>
    (aeslib_status \<times> (nat \<times> nat) option \<times> 'w capi_state) c_call" where
  "aeslib_gcm_decrypt pf key nonce tag ciphertext ciphertext_len aad aad_len outs st =
     (case (nonce, tag) of
        (Some nmem, Some tmem) \<Rightarrow>
          if key = None \<or> ciphertext = None \<and> ciphertext_len \<noteq> 0 \<or> aad = None \<and> aad_len \<noteq> 0 \<or> \<not> outs then
            invalid_argument ''invalid argument to aeslib_gcm_decrypt'' st
          else deref_key key st (\<lambda>_ k.
            c_try (Some (gcm_decrypt pf k \<lparr>gc_nonce = take 12 nmem, gc_tag = take 16 tmem,
                gc_ciphertext = to_bytes ciphertext ciphertext_len\<rparr> (to_bytes aad aad_len), cs_world st))
              allocate_output st)
      | _ \<Rightarrow> invalid_argument ''invalid argument to aeslib_gcm_decrypt'' st)"

definition aeslib_buffer_free :: "nat option \<Rightarrow> 'w capi_state \<Rightarrow> 'w capi_state c_call" where
  "aeslib_buffer_free buffer st =
     (case buffer of
        None \<Rightarrow> Ret st
      | Some a \<Rightarrow> (case cs_bufs st a of None \<Rightarrow> Undef | Some _ \<Rightarrow> Ret (delete_buf a st)))"

section \<open>Object stores\<close>

text \<open>
  What the wrappers rely on of each kind of heap object: a new object lives at an address
  that was free, and creating or deleting one leaves every other object as it is.
\<close>

locale object_store =
  fixes get :: "'s \<Rightarrow> nat \<Rightarrow> 'o option"
    and create :: "'o \<Rightarrow> 's \<Rightarrow> nat \<times> 's"
    and remove :: "nat \<Rightarrow> 's \<Rightarrow> 's"
    and ok :: "'s \<Rightarrow> bool"
  assumes create_free: "ok s \<Longrightarrow> create x s = (a, s') \<Longrightarrow> get s a = None"
    and create_get: "ok s \<Longrightarrow> create x s = (a, s') \<Longrightarrow> get s' b = (if b = a then Some x else get s b)"
    and create_ok: "ok s \<Longrightarrow> create x s = (a, s') \<Longrightarrow> ok s'"
    and remove_get: "get (remove a s) b = (if b = a then None else get s b)"
    and remove_ok: "ok s \<Longrightarrow> ok (remove a s)"
begin

text \<open>Two handles that are live at the same time differ, and deleting one keeps the other.\<close>

lemma created_distinct:
  "ok s \<Longrightarrow> create x s = (a, s') \<Longrightarrow> get s b = Some y \<Longrightarrow> a \<noteq> b"
  using create_free by fastforce

lemma live_after_create:
  "ok s \<Longrightarrow> create x s = (a, s') \<Longrightarrow> get s b = Some y \<Longrightarrow> get s' b = Some y"
  using created_distinct create_get by fastforce

lemma create_remove: "ok s \<Longrightarrow> create x s = (a, s') \<Longrightarrow> get (remove a s') = get s"
  using create_free [of s x a s'] create_get [of s x a s'] by (auto simp: fun_eq_iff remove_get)

end

definition heap_ok :: "'w capi_state \<Rightarrow> bool" where
  "heap_ok st \<longleftrightarrow> (\<forall>a \<ge> cs_next st. cs_keys st a = None \<and> cs_bufs st a = None)"

interpretation key_store: object_store cs_keys new_key delete_key heap_ok
  by unfold_locales (auto simp: heap_ok_def new_key_def delete_key_def)

interpretation buf_store: object_store cs_bufs new_buf delete_buf heap_ok
  by unfold_locales (auto simp: heap_ok_def new_buf_def delete_buf_def)

section \<open>The state invariant\<close>

definition capi_wf :: "'w capi_state \<Rightarrow> bool" where
  "capi_wf st \<longleftrightarrow> heap_ok st \<and>
     (\<forall>a k. cs_keys st a = Some k \<longrightarrow> key_wf k \<and> sk_locked k \<and> cs_bufs st a = None) \<and>
     (\<forall>a n bs. cs_bufs st a = Some (n, bs) \<longrightarrow> 0 < n \<and> length bs \<le> n) \<and>
     (\<forall>a bs. cs_freed st a = Some bs \<longrightarrow> bs = replicate kKeySizeBytes 0)"

lemma capi_wf_simps [simp]:
  "capi_wf (st\<lparr>cs_world := w\<rparr>) = capi_wf st"
  "capi_wf (set_last_error m st) = capi_wf st"
  by (simp_all add: capi_wf_def heap_ok_def set_last_error_def)

lemma capi_wf_new_key:
  "capi_wf st \<Longrightarrow> key_wf k \<Longrightarrow> sk_locked k \<Longrightarrow> new_key k st = (a, st') \<Longrightarrow> capi_wf st'"
  by (auto simp: capi_wf_def heap_ok_def new_key_def split: if_splits)

lemma capi_wf_allocate:
  "capi_wf st \<Longrightarrow> allocate_output bs st = (out, st') \<Longrightarrow> capi_wf st'"
  by (auto simp: capi_wf_def heap_ok_def allocate_output_def new_buf_def split: if_splits)

lemma capi_wf_update_key:
  "capi_wf st \<Longrightarrow> cs_keys st a = Some k \<Longrightarrow> key_wf k' \<Longrightarrow> sk_locked k' \<Longrightarrow>
   capi_wf (st\<lparr>cs_keys := (cs_keys st)(a \<mapsto> k')\<rparr>)"
  by (auto simp: capi_wf_def heap_ok_def)

lemma capi_wf_delete_key: "capi_wf st \<Longrightarrow> cs_keys st a = Some k \<Longrightarrow> capi_wf (delete_key a st)"
  by (auto simp: capi_wf_def heap_ok_def delete_key_def wipe_def unlock_memory_def key_wf_def map_replicate_const)

lemma capi_wf_delete_buf: "capi_wf st \<Longrightarrow> capi_wf (delete_buf a st)"
  by (auto simp: capi_wf_def heap_ok_def delete_buf_def)

lemma capi_wf_c_try:
  assumes "capi_wf st" and "c_try m k st = Ret (s, out, st')"
    and "\<And>x w o' st1. m = Some (Inr x, w) \<Longrightarrow> k x (st\<lparr>cs_world := w\<rparr>) = (o', st1) \<Longrightarrow> capi_wf st1"
  shows "capi_wf st'"
  using assms
  by (auto simp: c_try_def translate_exception_def split: option.splits sum.splits prod.splits aes_error.splits)

lemma capi_wf_invalid: "capi_wf st \<Longrightarrow> invalid_argument m st = Ret (s, out, st') \<Longrightarrow> capi_wf st'"
  by (auto simp: invalid_argument_def)

lemma deref_key_RetE:
  assumes "deref_key key st f = Ret r"
  obtains a k where "key = Some a" "cs_keys st a = Some k" "f a k = Ret r"
  using assms by (auto simp: deref_key_def split: option.splits)

lemma moved_key_wf: "key_wf k \<Longrightarrow> key_wf (fst (move_construct k)) \<and> sk_locked (fst (move_construct k))"
  by (simp add: move_construct_def key_wf_def lock_memory_def)

lemma capi_wf_new_moved:
  "capi_wf st \<Longrightarrow> key_wf k \<Longrightarrow> new_key (fst (move_construct k)) (st\<lparr>cs_world := w\<rparr>) = (a, st') \<Longrightarrow> capi_wf st'"
  using capi_wf_new_key [of "st\<lparr>cs_world := w\<rparr>" "fst (move_construct k)"] moved_key_wf by simp

lemma capi_wf_allocate_world:
  "capi_wf st \<Longrightarrow> allocate_output bs (st\<lparr>cs_world := w\<rparr>) = (out, st') \<Longrightarrow> capi_wf st'"
  using capi_wf_allocate [of "st\<lparr>cs_world := w\<rparr>"] by simp

lemma load_from_file_key_wf:
  assumes "files_documented os fv" and "load_from_file os path w = Some (Inr key, w')"
  shows "key_wf key"
proof -
  obtain marker rest where l: "is_valid_size_marker marker" "unat marker \<le> length rest"
    "key = key_from_bytes (take (unat marker) rest) (key_size_cast marker)"
    using load_from_file_contents [OF assms] by blast
  have "key_size_value (key_size_cast marker) = unat marker"
    using l(1) by (auto simp: is_valid_size_marker_def key_size_cast_def)
  with l show ?thesis by (simp add: key_wf_from_bytes)
qed

lemma key_from_bytes_fresh: "sk_locked (key_from_bytes bs sz) \<and> sk_gcm_invocations (key_from_bytes bs sz) = 0"
  by (simp add: key_from_bytes_def Let_def SecretKey_def lock_memory_def)

lemma load_from_file_fresh:
  assumes "files_documented os fv" and "load_from_file os path w = Some (Inr key, w')"
  shows "sk_locked key \<and> sk_gcm_invocations key = 0"
  using load_from_file_contents [OF assms] key_from_bytes_fresh by blast

lemma load_encrypted_key_wf:
  assumes "load_from_file_encrypted os pf path passphrase w = Some (Inr key, w')"
  shows "key_wf key \<and> sk_locked key \<and> sk_gcm_invocations key = 0"
proof -
  obtain f where "unwrap_key pf passphrase f = Some (Inr key)"
    using assms by (auto simp: load_from_file_encrypted_def elim!: io_bind_InrE split: option.splits)
  then obtain bs sz where "key = key_from_bytes bs sz" "length bs = key_size_value sz"
    by (rule unwrap_key_InrD) blast
  then show ?thesis
    using key_wf_from_bytes [of sz bs] key_from_bytes_fresh [of bs sz] by simp
qed

lemma gcm_encrypt_key_wf:
  "gcm_encrypt os pf k p aad w = Some (r, k', w') \<Longrightarrow> key_wf k' = key_wf k \<and> sk_locked k' = sk_locked k"
  by (drule gcm_encrypt_count) (auto simp: key_wf_def)

section \<open>Sequences of calls\<close>

text \<open>
  One call of the interface, with any arguments, on the same process. A call that has
  undefined behaviour or does not return is not a step.
\<close>

inductive capi_step :: "'w system \<Rightarrow> platform \<Rightarrow> 'w capi_state \<Rightarrow> 'w capi_state \<Rightarrow> bool" for os pf where
  step_key_generate: "aeslib_key_generate os bits out_key st = Ret (s, out, st') \<Longrightarrow> capi_step os pf st st'"
| step_key_free: "aeslib_key_free key st = Ret st' \<Longrightarrow> capi_step os pf st st'"
| step_key_save: "aeslib_key_save_to_file os key path st = Ret (s, done, st') \<Longrightarrow> capi_step os pf st st'"
| step_key_load: "aeslib_key_load_from_file os path out_key st = Ret (s, out, st') \<Longrightarrow> capi_step os pf st st'"
| step_ctr_encrypt: "aeslib_ctr_encrypt os pf key pt pt_len outs st = Ret (s, nout, st') \<Longrightarrow> capi_step os pf st st'"
| step_ctr_decrypt: "aeslib_ctr_decrypt pf key nonce ct ct_len outs st = Ret (s, bout, st') \<Longrightarrow>
    capi_step os pf st st'"
| step_gcm_encrypt: "aeslib_gcm_encrypt os pf key pt pt_len aad aad_len outs st = Ret (s, gout, st') \<Longrightarrow>
    capi_step os pf st st'"
| step_gcm_decrypt: "aeslib_gcm_decrypt pf key nonce tag ct ct_len aad aad_len outs st = Ret (s, bout, st') \<Longrightarrow>
    capi_step os pf st st'"
| step_buffer_free: "aeslib_buffer_free buffer st = Ret st' \<Longrightarrow> capi_step os pf st st'"

inductive capi_reach :: "'w system \<Rightarrow> platform \<Rightarrow> 'w capi_state \<Rightarrow> 'w capi_state \<Rightarrow> bool" for os pf st where
  reach_refl: "capi_reach os pf st st"
| reach_step: "capi_reach os pf st st1 \<Longrightarrow> capi_step os pf st1 st2 \<Longrightarrow> capi_reach os pf st st2"

definition capi_start :: "'w \<Rightarrow> 'w capi_state" where
  "capi_start w = \<lparr>cs_keys = (\<lambda>_. None), cs_bufs = (\<lambda>_. None), cs_freed = (\<lambda>_. None), cs_next = 0,
     cs_last_error = [], cs_world = w\<rparr>"

lemma capi_wf_start: "capi_wf (capi_start w)"
  by (simp add: capi_wf_def heap_ok_def capi_start_def)

text \<open>One preservation lemma per call that can change the heap.\<close>

lemma capi_wf_key_generate:
  assumes "random_documented os" and "capi_wf st" and "aeslib_key_generate os bits out_key st = Ret (s, out, st')"
  shows "capi_wf st'"
proof (cases "out_key \<and> (bits = 128 \<or> bits = 256)")
  case True
  then have "c_try (generate os (if bits = 128 then Aes128 else Aes256) (cs_world st))
      (\<lambda>key. new_key (fst (move_construct key))) st = Ret (s, out, st')"
    using assms(3) by (auto simp: aeslib_key_generate_def)
  then show ?thesis
  proof (rule capi_wf_c_try [OF assms(2)], goal_cases)
    case (1 key w a st1)
    then show ?case
      using key_wf_generate [OF assms(1)] capi_wf_new_moved [OF assms(2)] by blast
  qed
next
  case False
  with assms(2,3) show ?thesis
    by (auto simp: aeslib_key_generate_def dest: capi_wf_invalid split: if_splits)
qed

lemma capi_wf_key_load:
  assumes "files_documented os fv" and "capi_wf st" and "aeslib_key_load_from_file os path out_key st = Ret (s, out, st')"
  shows "capi_wf st'"
proof (cases "path = None \<or> \<not> out_key")
  case True
  with assms(2,3) show ?thesis
    by (auto simp: aeslib_key_load_from_file_def dest: capi_wf_invalid split: option.splits)
next
  case False
  then obtain p where "c_try (load_from_file os p (cs_world st)) (\<lambda>key. new_key (fst (move_construct key))) st =
      Ret (s, out, st')"
    using assms(3) by (auto simp: aeslib_key_load_from_file_def)
  then show ?thesis
  proof (rule capi_wf_c_try [OF assms(2)], goal_cases)
    case (1 key w a st1)
    then show ?case
      using load_from_file_key_wf [OF assms(1)] capi_wf_new_moved [OF assms(2)] by blast
  qed
qed

lemma capi_wf_gcm_encrypt:
  assumes "capi_wf st" and "aeslib_gcm_encrypt os pf key pt pt_len aad aad_len outs st = Ret (s, out, st')"
  shows "capi_wf st'"
proof (cases "key = None \<or> pt = None \<and> pt_len \<noteq> 0 \<or> aad = None \<and> aad_len \<noteq> 0 \<or> \<not> outs")
  case True
  with assms show ?thesis
    by (auto simp: aeslib_gcm_encrypt_def dest: capi_wf_invalid)
next
  case False
  with assms(2) obtain a k where a: "cs_keys st a = Some k"
    and r: "(case gcm_encrypt os pf k (to_bytes pt pt_len) (to_bytes aad aad_len) (cs_world st) of
          None \<Rightarrow> NoReturn
        | Some (r, k', w) \<Rightarrow>
            c_try (Some (r, w)) (\<lambda>c st.
              case allocate_output (gc_ciphertext c) st of (out, st) \<Rightarrow> ((gc_nonce c, gc_tag c, out), st))
              (st\<lparr>cs_keys := (cs_keys st)(a \<mapsto> k')\<rparr>)) = Ret (s, out, st')"
    by (auto simp: aeslib_gcm_encrypt_def elim!: deref_key_RetE)
  obtain r k' w where g: "gcm_encrypt os pf k (to_bytes pt pt_len) (to_bytes aad aad_len) (cs_world st) = Some (r, k', w)"
    using r by (auto split: option.splits)
  have "capi_wf (st\<lparr>cs_keys := (cs_keys st)(a \<mapsto> k')\<rparr>)"
    using gcm_encrypt_key_wf [OF g] a assms(1) by (intro capi_wf_update_key [OF _ a]) (auto simp: capi_wf_def)
  note wf = this
  from wf show ?thesis
    by (rule capi_wf_c_try)
      (use r g in \<open>auto split: prod.splits dest: capi_wf_allocate_world [OF wf]\<close>)
qed

lemma capi_wf_ctr_encrypt:
  assumes "capi_wf st" and "aeslib_ctr_encrypt os pf key pt pt_len outs st = Ret (s, out, st')"
  shows "capi_wf st'"
proof (cases "key = None \<or> pt = None \<and> pt_len \<noteq> 0 \<or> \<not> outs")
  case True
  with assms show ?thesis by (auto simp: aeslib_ctr_encrypt_def dest: capi_wf_invalid)
next
  case False
  with assms(2) obtain k where "c_try (ctr_encrypt os pf k (to_bytes pt pt_len) (cs_world st)) (\<lambda>c st.
      case allocate_output (ct_ciphertext c) st of (out, st) \<Rightarrow> ((ct_nonce c, out), st)) st = Ret (s, out, st')"
    by (auto simp: aeslib_ctr_encrypt_def elim!: deref_key_RetE)
  then show ?thesis
    by (rule capi_wf_c_try [OF assms(1)])
      (auto split: prod.splits dest: capi_wf_allocate_world [OF assms(1)])
qed

lemma capi_wf_ctr_decrypt:
  assumes "capi_wf st" and "aeslib_ctr_decrypt pf key nonce ct ct_len outs st = Ret (s, out, st')"
  shows "capi_wf st'"
  using assms capi_wf_c_try [OF assms(1) _ capi_wf_allocate_world [OF assms(1)]]
  by (auto simp: aeslib_ctr_decrypt_def dest: capi_wf_invalid split: option.splits if_splits
      elim!: deref_key_RetE)

lemma capi_wf_gcm_decrypt:
  assumes "capi_wf st" and "aeslib_gcm_decrypt pf key nonce tag ct ct_len aad aad_len outs st = Ret (s, out, st')"
  shows "capi_wf st'"
  using assms capi_wf_c_try [OF assms(1) _ capi_wf_allocate_world [OF assms(1)]]
  by (auto simp: aeslib_gcm_decrypt_def dest: capi_wf_invalid split: option.splits if_splits
      elim!: deref_key_RetE)

lemma capi_wf_key_save:
  assumes "capi_wf st" and "aeslib_key_save_to_file os key path st = Ret (s, out, st')"
  shows "capi_wf st'"
proof -
  have "capi_wf st1" if "c_try m (\<lambda>u st. (u, st)) st = Ret (s1, o1, st1)" for m :: "(unit res \<times> 'a) option" and s1 o1 st1
    by (rule capi_wf_c_try [OF assms(1) that]) (use assms(1) in auto)
  with assms show ?thesis
    by (auto simp: aeslib_key_save_to_file_def dest: capi_wf_invalid split: option.splits if_splits
        elim!: deref_key_RetE)
qed

lemma capi_wf_frees:
  assumes "capi_wf st"
  shows "aeslib_key_free key st = Ret st' \<Longrightarrow> capi_wf st'" "aeslib_buffer_free b st = Ret st' \<Longrightarrow> capi_wf st'"
  using assms
  by (auto simp: aeslib_key_free_def aeslib_buffer_free_def intro: capi_wf_delete_key capi_wf_delete_buf
      split: option.splits elim!: deref_key_RetE)

lemma capi_wf_step:
  assumes "files_documented os fv" and "random_documented os" and "capi_step os pf st st'" and "capi_wf st"
  shows "capi_wf st'"
  using assms(3)
  by (cases rule: capi_step.cases)
    (erule capi_wf_key_generate [OF assms(2,4)] capi_wf_key_load [OF assms(1,4)] capi_wf_frees [OF assms(4)]
      capi_wf_key_save [OF assms(4)] capi_wf_ctr_encrypt [OF assms(4)] capi_wf_ctr_decrypt [OF assms(4)]
      capi_wf_gcm_encrypt [OF assms(4)] capi_wf_gcm_decrypt [OF assms(4)])+

lemma capi_wf_reach:
  assumes "files_documented os fv" and "random_documented os" and "capi_reach os pf st st'" and "capi_wf st"
  shows "capi_wf st'"
  using assms(3) by induction (use assms(4) capi_wf_step [OF assms(1,2)] in blast)+

section \<open>What a call returns\<close>

lemma c_try_not_Undef: "c_try m k st \<noteq> Undef"
  by (simp add: c_try_def translate_exception_def split: option.split sum.split prod.split aes_error.split)

lemma gcm_case_not_Undef:
  "(case r of None \<Rightarrow> NoReturn | Some (r, k', w) \<Rightarrow> c_try (Some (r, w)) f (g k')) \<noteq> Undef"
  by (simp add: c_try_not_Undef split: option.split prod.split)

lemma invalid_not_Undef: "invalid_argument m st \<noteq> Undef"
  by (simp add: invalid_argument_def)

lemma deref_not_Undef:
  "(\<And>a. key = Some a \<Longrightarrow> cs_keys st a \<noteq> None) \<Longrightarrow> key \<noteq> None \<Longrightarrow> (\<And>a k. f a k \<noteq> Undef) \<Longrightarrow>
   deref_key key st f \<noteq> Undef"
  by (auto simp: deref_key_def split: option.split)

text \<open>The parts of the state a failing call leaves alone.\<close>

definition same_objects :: "'w capi_state \<Rightarrow> 'w capi_state \<Rightarrow> bool" where
  "same_objects st st' \<longleftrightarrow> cs_bufs st' = cs_bufs st \<and> cs_next st' = cs_next st \<and> cs_freed st' = cs_freed st \<and>
     dom (cs_keys st') = dom (cs_keys st)"

lemma invalid_outcome:
  "invalid_argument m st = Ret (s, out, st') \<Longrightarrow> s \<noteq> AESLIB_OK \<and> out = None \<and> same_objects st st'"
  by (auto simp: invalid_argument_def same_objects_def set_last_error_def)

lemma c_try_outcome:
  "c_try m k st = Ret (s, out, st') \<Longrightarrow> (s = AESLIB_OK \<longleftrightarrow> out \<noteq> None) \<and> (s \<noteq> AESLIB_OK \<longrightarrow> same_objects st st')"
  by (auto simp: c_try_def translate_exception_def same_objects_def set_last_error_def
      split: option.splits sum.splits prod.splits aes_error.splits)

lemma same_objects_update:
  "same_objects (st\<lparr>cs_keys := (cs_keys st)(a \<mapsto> k')\<rparr>) st' \<Longrightarrow> cs_keys st a = Some k \<Longrightarrow> same_objects st st'"
  by (auto simp: same_objects_def)

text \<open>The outcome of a wrapper: an output exactly on success, and no object created otherwise.\<close>

definition clean_outcome :: "'w capi_state \<Rightarrow> (aeslib_status \<times> 'o option \<times> 'w capi_state) c_call \<Rightarrow> bool" where
  "clean_outcome st r \<longleftrightarrow> (\<forall>s out st'. r = Ret (s, out, st') \<longrightarrow>
     (s = AESLIB_OK \<longleftrightarrow> out \<noteq> None) \<and> (s \<noteq> AESLIB_OK \<longrightarrow> same_objects st st'))"

lemma clean_invalid: "clean_outcome st (invalid_argument m st)"
  unfolding clean_outcome_def using invalid_outcome by blast

lemma clean_c_try: "clean_outcome st (c_try m k st)"
  unfolding clean_outcome_def using c_try_outcome by blast

lemma clean_deref: "(\<And>a k. cs_keys st a = Some k \<Longrightarrow> clean_outcome st (f a k)) \<Longrightarrow> clean_outcome st (deref_key key st f)"
  by (simp add: deref_key_def clean_outcome_def split: option.split)

lemma clean_gcm:
  assumes "cs_keys st a = Some k"
  shows "clean_outcome st (case r of None \<Rightarrow> NoReturn
    | Some (r, k', w) \<Rightarrow> c_try (Some (r, w)) f (st\<lparr>cs_keys := (cs_keys st)(a \<mapsto> k')\<rparr>))"
proof (cases r)
  case (Some p)
  obtain q k' w where p: "p = (q, k', w)" by (cases p)
  show ?thesis
    using clean_c_try [of "st\<lparr>cs_keys := (cs_keys st)(a \<mapsto> k')\<rparr>" "Some (q, w)" f] assms
    by (auto simp: Some p clean_outcome_def dest: same_objects_update)
qed (simp add: clean_outcome_def)

lemmas clean_intros = clean_invalid clean_c_try clean_deref clean_gcm

lemmas wrapper_defs = aeslib_key_generate_def aeslib_key_load_from_file_def aeslib_key_save_to_file_def
  aeslib_ctr_encrypt_def aeslib_ctr_decrypt_def aeslib_gcm_encrypt_def aeslib_gcm_decrypt_def

section \<open>Properties\<close>

text \<open>
  The invariant of the C interface: after any sequence of calls with any arguments, from
  a process that holds no object, every live handle refers to a key with its full storage
  that is still locked in memory, no address is at once a key and a buffer, every buffer
  is at least as large as its contents, the next address is free, and the storage of
  every deleted key was all zero when it was given back.
\<close>

theorem capi_reachable_invariant:
  assumes "files_documented os fv" and "random_documented os" and "capi_reach os pf (capi_start w) st"
  shows "(\<forall>a k. cs_keys st a = Some k \<longrightarrow> key_wf k \<and> sk_locked k \<and> cs_bufs st a = None) \<and>
    (\<forall>a n bs. cs_bufs st a = Some (n, bs) \<longrightarrow> 0 < n \<and> length bs \<le> n) \<and>
    cs_keys st (cs_next st) = None \<and> cs_bufs st (cs_next st) = None \<and>
    (\<forall>a bs. cs_freed st a = Some bs \<longrightarrow> bs = replicate 32 0)"
  using capi_wf_reach [OF assms capi_wf_start] by (auto simp: capi_wf_def heap_ok_def kKeySizeBytes_def)

text \<open>
  No C++ exception crosses the C boundary: whatever the arguments, a wrapper called with
  a null or a live handle returns a status or does not return; its behaviour is never
  undefined. The backend query needs no handle at all.
\<close>

theorem capi_no_exception_escapes:
  assumes "key = None \<or> (\<exists>a k. key = Some a \<and> cs_keys st a = Some k)"
  shows "aeslib_active_backend pf \<noteq> Undef \<and>
    aeslib_key_generate os bits out_key st \<noteq> Undef \<and>
    aeslib_key_load_from_file os path out_key st \<noteq> Undef \<and>
    aeslib_key_save_to_file os key path st \<noteq> Undef \<and>
    aeslib_ctr_encrypt os pf key pt pt_len outs st \<noteq> Undef \<and>
    aeslib_ctr_decrypt pf key nonce ct ct_len outs st \<noteq> Undef \<and>
    aeslib_gcm_encrypt os pf key pt pt_len aad aad_len outs st \<noteq> Undef \<and>
    aeslib_gcm_decrypt pf key nonce tag ct ct_len aad aad_len outs st \<noteq> Undef \<and>
    aeslib_key_free key st \<noteq> Undef"
proof -
  obtain b where b: "active_backend pf = Inr b" using active_backend_total by blast
  have d: "deref_key key st f \<noteq> Undef" if "key \<noteq> None" "\<And>a k. f a k \<noteq> Undef" for f :: "nat \<Rightarrow> secret_key \<Rightarrow> 'r c_call"
    using assms that by (intro deref_not_Undef) auto
  note i = invalid_not_Undef c_try_not_Undef
  have "aeslib_active_backend pf \<noteq> Undef" by (simp add: aeslib_active_backend_def b)
  moreover have "aeslib_key_generate os bits out_key st \<noteq> Undef"
    by (simp add: aeslib_key_generate_def i Let_def)
  moreover have "aeslib_key_load_from_file os path out_key st \<noteq> Undef"
    by (simp add: aeslib_key_load_from_file_def i split: option.split)
  moreover have "aeslib_key_save_to_file os key path st \<noteq> Undef"
    by (simp add: aeslib_key_save_to_file_def i d split: option.split)
  moreover have "aeslib_ctr_encrypt os pf key pt pt_len outs st \<noteq> Undef"
    by (simp add: aeslib_ctr_encrypt_def i d)
  moreover have "aeslib_ctr_decrypt pf key nonce ct ct_len outs st \<noteq> Undef"
    by (simp add: aeslib_ctr_decrypt_def i d split: option.split)
  moreover have "aeslib_gcm_encrypt os pf key pt pt_len aad aad_len outs st \<noteq> Undef"
    by (simp add: aeslib_gcm_encrypt_def i d gcm_case_not_Undef)
  moreover have "aeslib_gcm_decrypt pf key nonce tag ct ct_len aad aad_len outs st \<noteq> Undef"
    by (simp add: aeslib_gcm_decrypt_def i d split: option.split)
  moreover have "aeslib_key_free key st \<noteq> Undef"
    using assms by (auto simp: aeslib_key_free_def deref_key_def)
  ultimately show ?thesis by blast
qed

text \<open>
  Outputs only on success: each wrapper stores through its output parameters exactly when
  it returns \<^verbatim>\<open>AESLIB_OK\<close>, and with any other status it has created no key object and no
  buffer, so there is nothing for the caller to release.
\<close>

theorem capi_outputs_only_on_success:
  "clean_outcome st (aeslib_key_generate os bits out_key st) \<and>
   clean_outcome st (aeslib_key_load_from_file os path out_key st) \<and>
   clean_outcome st (aeslib_key_save_to_file os key path st) \<and>
   clean_outcome st (aeslib_ctr_encrypt os pf key pt pt_len outs st) \<and>
   clean_outcome st (aeslib_ctr_decrypt pf key nonce ct ct_len outs st) \<and>
   clean_outcome st (aeslib_gcm_encrypt os pf key pt pt_len aad aad_len outs st) \<and>
   clean_outcome st (aeslib_gcm_decrypt pf key nonce tag ct ct_len aad aad_len outs st)"
  by (intro conjI) (auto simp: wrapper_defs Let_def intro!: clean_intros split: option.split)

theorem capi_no_exception_escapes_witness:
  "aeslib_gcm_decrypt (x86_platform 0 None) (Some 0) (Some (replicate 12 0)) (Some (replicate 16 0)) None 0 None 0
     True (snd (new_key SecretKey (capi_start mem_start))) \<noteq> Undef"
  using capi_no_exception_escapes [of "Some 0" "snd (new_key SecretKey (capi_start mem_start))"]
  by (simp add: new_key_def capi_start_def)

text \<open>What \<^verbatim>\<open>allocate_output\<close> leaves in the store.\<close>

lemma allocate_outputD:
  assumes "heap_ok st" and "allocate_output bs st = ((b, len), st')"
  shows "heap_ok st' \<and> len = length bs \<and> (\<exists>n. cs_bufs st' b = Some (n, bs)) \<and> cs_keys st' = cs_keys st \<and>
    (\<forall>c x. cs_bufs st c = Some x \<longrightarrow> b \<noteq> c \<and> cs_bufs st' c = Some x)"
proof -
  have nb: "new_buf (if bs = [] then 1 else length bs, bs) st = (b, st')" and len: "len = length bs"
    using assms(2) by (auto simp: allocate_output_def split: prod.splits)
  show ?thesis
    using len buf_store.create_ok [OF assms(1) nb] buf_store.create_get [OF assms(1) nb, of b]
      buf_store.created_distinct [OF assms(1) nb] buf_store.live_after_create [OF assms(1) nb] nb
    by (auto simp: new_buf_def)
qed

text \<open>A GCM encryption that succeeds, and a decryption of what it has returned.\<close>

lemma gcm_encrypt_call_okE:
  assumes "aeslib_gcm_encrypt os pf (Some a) (Some mem) pt_len aad aad_len True st =
    Ret (AESLIB_OK, Some (nonce, tag, buf, len), st')"
  obtains k c k' w where "cs_keys st a = Some k" "\<not> (aad = None \<and> aad_len \<noteq> 0)"
    "gcm_encrypt os pf k (take pt_len mem) (to_bytes aad aad_len) (cs_world st) = Some (Inr c, k', w)"
    "allocate_output (gc_ciphertext c) (st\<lparr>cs_keys := (cs_keys st)(a \<mapsto> k'), cs_world := w\<rparr>) = ((buf, len), st')"
    "nonce = gc_nonce c" "tag = gc_tag c"
  using assms
  by (auto simp: aeslib_gcm_encrypt_def invalid_argument_def c_try_def to_bytes_def [of "Some mem"] translate_exception_def
      elim!: deref_key_RetE split: if_splits option.splits sum.splits prod.splits aes_error.splits)

lemma gcm_decrypt_call:
  assumes "cs_keys st a = Some k" and "\<not> (aad = None \<and> aad_len \<noteq> 0)" and "length (gc_nonce c) = 12"
    and "length (gc_tag c) = 16" and "len = length (gc_ciphertext c)"
    and "gcm_decrypt pf k c (to_bytes aad aad_len) = Inr p" and "allocate_output p st = (out, st')"
    and "nonce = gc_nonce c" and "tag = gc_tag c"
  shows "aeslib_gcm_decrypt pf (Some a) (Some nonce) (Some tag) (Some (gc_ciphertext c)) len aad aad_len True st =
    Ret (AESLIB_OK, Some out, st')"
proof -
  have "\<lparr>gc_nonce = take 12 nonce, gc_tag = take 16 tag, gc_ciphertext = to_bytes (Some (gc_ciphertext c)) len\<rparr> = c"
    using assms by (cases c) (simp add: to_bytes_def)
  then show ?thesis
    using assms by (auto simp: aeslib_gcm_decrypt_def deref_key_def c_try_def)
qed

text \<open>
  C37. AES-GCM through the C interface: when an encryption returns \<^verbatim>\<open>AESLIB_OK\<close>, its output
  buffer holds a ciphertext of the plaintext's length, and a decryption on the same
  handle of what the caller received (nonce, tag, buffer and the same additional data),
  on the same or any documented platform, returns \<^verbatim>\<open>AESLIB_OK\<close> and a second buffer, which
  holds the plaintext; the ciphertext buffer is untouched.
\<close>

theorem capi_gcm_roundtrip:
  assumes "random_documented os" and "capi_wf st" and "pt_len \<le> length mem"
    and "pf2 = pf1 \<or> platform_documented pf1 \<and> platform_documented pf2"
    and "aeslib_gcm_encrypt os pf1 (Some a) (Some mem) pt_len aad aad_len True st =
      Ret (AESLIB_OK, Some (nonce, tag, buf, len), st')"
  shows "\<exists>n ct b2 st'' n2. cs_bufs st' buf = Some (n, ct) \<and> len = pt_len \<and> length ct = pt_len \<and>
    length nonce = 12 \<and> length tag = 16 \<and>
    aeslib_gcm_decrypt pf2 (Some a) (Some nonce) (Some tag) (Some ct) len aad aad_len True st' =
      Ret (AESLIB_OK, Some (b2, pt_len), st'') \<and>
    cs_bufs st'' b2 = Some (n2, take pt_len mem) \<and> b2 \<noteq> buf \<and> cs_bufs st'' buf = Some (n, ct)"
proof -
  obtain k c k' w where k: "cs_keys st a = Some k" and na: "\<not> (aad = None \<and> aad_len \<noteq> 0)"
    and g: "gcm_encrypt os pf1 k (take pt_len mem) (to_bytes aad aad_len) (cs_world st) = Some (Inr c, k', w)"
    and o: "allocate_output (gc_ciphertext c) (st\<lparr>cs_keys := (cs_keys st)(a \<mapsto> k'), cs_world := w\<rparr>) = ((buf, len), st')"
    and nt: "nonce = gc_nonce c" "tag = gc_tag c"
    using gcm_encrypt_call_okE [OF assms(5)] by blast
  let ?st = "st\<lparr>cs_keys := (cs_keys st)(a \<mapsto> k'), cs_world := w\<rparr>"
  have rt: "gcm_decrypt pf2 k' c (to_bytes aad aad_len) = Inr (take pt_len mem)" "length (gc_nonce c) = 12"
    "length (gc_tag c) = 16" "length (gc_ciphertext c) = pt_len"
    using gcm_encrypt_decrypt [OF assms(1) g, of pf2] assms(2-4) k by (auto simp: capi_wf_def)
  have ok: "heap_ok ?st"
    using assms(2) k by (auto simp: capi_wf_def heap_ok_def)
  obtain n where a1: "heap_ok st'" "len = pt_len" "cs_bufs st' buf = Some (n, gc_ciphertext c)" "cs_keys st' a = Some k'"
    using allocate_outputD [OF ok o] rt(4) by auto
  obtain b2 st'' where o2: "allocate_output (take pt_len mem) st' = ((b2, pt_len), st'')"
    using assms(3) by (cases "allocate_output (take pt_len mem) st'") (auto simp: allocate_output_def split: prod.splits)
  have "aeslib_gcm_decrypt pf2 (Some a) (Some nonce) (Some tag) (Some (gc_ciphertext c)) len aad aad_len True st' =
      Ret (AESLIB_OK, Some (b2, pt_len), st'')"
    using rt na a1(2) o2 nt by (intro gcm_decrypt_call [OF a1(4)]) auto
  with allocate_outputD [OF a1(1) o2] a1 rt nt show ?thesis by blast
qed

lemma mem_key_state:
  fixes st :: "mem_world capi_state"
  defines "st \<equiv> snd (new_key SecretKey (capi_start mem_start))"
  shows "capi_wf st" "cs_keys st 0 = Some SecretKey" "cs_world st = mem_start"
  using capi_wf_new_key [OF capi_wf_start [of mem_start] key_wf_SecretKey, of 0 st]
  by (simp_all add: st_def new_key_def capi_start_def) (simp add: SecretKey_def lock_memory_def)

theorem capi_gcm_roundtrip_witness:
  "let st = snd (new_key SecretKey (capi_start mem_start)); pf = x86_platform 0 None in
   \<exists>nonce tag buf len st' n ct b2 st'' n2.
     aeslib_gcm_encrypt mem_posix pf (Some 0) (Some [1, 2, 3, 4]) 3 None 0 True st =
       Ret (AESLIB_OK, Some (nonce, tag, buf, len), st') \<and>
     cs_bufs st' buf = Some (n, ct) \<and>
     aeslib_gcm_decrypt pf (Some 0) (Some nonce) (Some tag) (Some ct) len None 0 True st' =
       Ret (AESLIB_OK, Some (b2, 3), st'') \<and> cs_bufs st'' b2 = Some (n2, [1, 2, 3])"
proof -
  let ?st = "snd (new_key SecretKey (capi_start mem_start))" and ?pf = "x86_platform 0 None"
  have c0: "sk_gcm_invocations SecretKey = 0"
    by (simp add: SecretKey_def lock_memory_def)
  obtain c where "gcm_encrypt mem_posix ?pf SecretKey [1, 2, 3] [] mem_start =
      Some (Inr c, SecretKey\<lparr>sk_gcm_invocations := sk_gcm_invocations SecretKey + 1\<rparr>, mem_start\<lparr>mw_calls := 2\<rparr>)"
    using gcm_encrypt_succeeds [OF mem_random_documented(1) _ _ mem_fill_12, of "[1, 2, 3]" SecretKey ?pf "[]"]
      gcm_validate_iff [of "Suc (Suc (Suc 0))"] c0 by auto
  then have "\<exists>nonce tag buf len st'. aeslib_gcm_encrypt mem_posix ?pf (Some 0) (Some [1, 2, 3, 4]) 3 None 0 True ?st =
       Ret (AESLIB_OK, Some (nonce, tag, buf, len), st')"
    by (simp add: aeslib_gcm_encrypt_def deref_key_def mem_key_state to_bytes_def c_try_def
        allocate_output_def new_buf_def)
  then obtain nonce tag buf len st' where e:
    "aeslib_gcm_encrypt mem_posix ?pf (Some 0) (Some [1, 2, 3, 4]) 3 None 0 True ?st =
       Ret (AESLIB_OK, Some (nonce, tag, buf, len), st')" by blast
  show ?thesis
    unfolding Let_def using e
      capi_gcm_roundtrip [OF mem_random_documented(1) mem_key_state(1) _ _ e, of ?pf]
    by (fastforce simp: numeral_3_eq_3)
qed

lemma mem_generate: "\<exists>k w. generate mem_posix Aes128 mem_start = Some (Inr k, w)"
  by (simp add: generate_def Let_def SecretKey_def lock_memory_def kKeySizeBytes_def mem_fill_simps)

theorem capi_reachable_invariant_witness:
  "\<exists>st k. capi_reach mem_posix (x86_platform 0 None) (capi_start mem_start) st \<and>
     cs_freed st 0 = Some (replicate 32 0) \<and> aeslib_key_free (Some 0) st = Undef"
proof -
  let ?pf = "x86_platform 0 None" and ?s = "capi_start mem_start"
  obtain k w where g: "generate mem_posix Aes128 mem_start = Some (Inr k, w)" using mem_generate by blast
  define k' where "k' = fst (move_construct k)"
  define s1 where "s1 = snd (new_key k' (?s\<lparr>cs_world := w\<rparr>))"
  define s2 where "s2 = delete_key 0 s1"
  have s1: "aeslib_key_generate mem_posix 128 True ?s = Ret (AESLIB_OK, Some 0, s1)" "cs_keys s1 0 = Some k'"
    by (simp_all add: aeslib_key_generate_def Let_def c_try_def g capi_start_def s1_def k'_def new_key_def)
  have s2: "aeslib_key_free (Some 0) s1 = Ret s2" "aeslib_key_free (Some 0) s2 = Undef" "cs_freed s2 0 \<noteq> None"
    using s1(2) by (simp_all add: aeslib_key_free_def deref_key_def s2_def delete_key_def)
  have r: "capi_reach mem_posix ?pf ?s s2"
    using reach_step [OF reach_step [OF reach_refl step_key_generate [OF s1(1)]] step_key_free [OF s2(1)]] .
  show ?thesis
    using r s2 capi_reachable_invariant [OF mem_files_documented mem_random_documented(1) r] by blast
qed



end
