(* ===== verification/Capi_Memory.thy ===== *)
theory Capi_Memory
  imports Capi
begin

text \<open>
  The C interface of \<^verbatim>\<open>src/capi.cpp\<close> when memory runs out. \<open>mem\<close> lists the answers to the
  requests for memory that a wrapper makes itself, in order; a request that needs no
  memory (a string short enough to be stored in place, an empty vector) is one that is
  granted, and past the end of the list every request is. \<open>fault\<close> says that an
  allocation inside the library throws instead, with what it has changed by then.
  \<open>what\<close> is the text of \<^verbatim>\<open>std::bad_alloc::what()\<close>. With every request granted the wrappers
  are those of \<open>Capi\<close>.
\<close>

section \<open>Definitions\<close>

fun grant :: "bool list \<Rightarrow> bool \<times> bool list" where
  "grant [] = (True, [])"
| "grant (answer # mem) = (answer, mem)"

text \<open>
  A call returns, does not return, has undefined behaviour by its arguments, or lets an
  exception unwind into its caller.
\<close>

datatype 'r mem_call = M_Ret 'r | M_NoReturn | M_Undef | M_Unwind

text \<open>
  \<^verbatim>\<open>set_last_error\<close>: the argument is made into a string, then assigned. \<open>None\<close> when
  \<^verbatim>\<open>std::bad_alloc\<close> leaves the function.
\<close>

definition set_last_error_mem ::
  "string \<Rightarrow> 'w capi_state \<times> bool list \<Rightarrow> ('w capi_state \<times> bool list) option" where
  "set_last_error_mem message = (\<lambda>(st, mem).
     case grant mem of (copied, mem) \<Rightarrow>
       if \<not> copied then None
       else (case grant mem of (assigned, mem) \<Rightarrow>
         if \<not> assigned then None else Some (set_last_error message st, mem)))"

text \<open>\<^verbatim>\<open>translate_exception\<close>; it has no handler around its own calls of \<^verbatim>\<open>set_last_error\<close>.\<close>

definition translate_exception_mem ::
  "aes_error \<Rightarrow> 'w capi_state \<times> bool list \<Rightarrow> (aeslib_status \<times> 'w capi_state \<times> bool list) option" where
  "translate_exception_mem e s =
     (case e of
        AuthenticationError m \<Rightarrow> map_option (Pair AESLIB_ERR_AUTHENTICATION) (set_last_error_mem m s)
      | LimitError m \<Rightarrow> map_option (Pair AESLIB_ERR_LIMIT) (set_last_error_mem m s)
      | FormatError m \<Rightarrow> map_option (Pair AESLIB_ERR_FORMAT) (set_last_error_mem m s)
      | IoError m \<Rightarrow> map_option (Pair AESLIB_ERR_IO) (set_last_error_mem m s)
      | LogicError m \<Rightarrow> map_option (Pair AESLIB_ERR_UNKNOWN) (set_last_error_mem m s)
      | StdException m \<Rightarrow> map_option (Pair AESLIB_ERR_UNKNOWN) (set_last_error_mem m s))"

text \<open>
  What a \<^verbatim>\<open>try\<close> block comes to: it does not end, or it ends with an exception or without
  one, with the outputs it has stored by then.
\<close>

type_synonym ('w, 'o) try_block = "(aes_error option \<times> 'o \<times> 'w capi_state \<times> bool list) option"

type_synonym ('w, 'o) wrapper_call = "(aeslib_status \<times> 'o \<times> 'w capi_state \<times> bool list) mem_call"

definition catch_all :: "('w, 'o) try_block \<Rightarrow> ('w, 'o) wrapper_call" where
  "catch_all b =
     (case b of
        None \<Rightarrow> M_NoReturn
      | Some (None, out, st, mem) \<Rightarrow> M_Ret (AESLIB_OK, out, st, mem)
      | Some (Some e, out, st, mem) \<Rightarrow>
          (case translate_exception_mem e (st, mem) of
             None \<Rightarrow> M_Unwind
           | Some (s, st, mem) \<Rightarrow> M_Ret (s, out, st, mem)))"

definition invalid_argument_mem ::
  "string \<Rightarrow> 'o \<Rightarrow> 'w capi_state \<times> bool list \<Rightarrow> ('w, 'o) wrapper_call" where
  "invalid_argument_mem message out s =
     (case set_last_error_mem message s of
        None \<Rightarrow> M_Unwind
      | Some (st, mem) \<Rightarrow> M_Ret (AESLIB_ERR_INVALID_ARGUMENT, out, st, mem))"

text \<open>A request for memory in the \<^verbatim>\<open>try\<close> block of a wrapper.\<close>

definition request :: "string \<Rightarrow> 'o \<Rightarrow> ('w capi_state \<times> bool list \<Rightarrow> ('w, 'o) try_block) \<Rightarrow>
    'w capi_state \<times> bool list \<Rightarrow> ('w, 'o) try_block" where
  "request what out k = (\<lambda>(st, mem).
     case grant mem of (granted, mem) \<Rightarrow>
       if granted then k (st, mem) else Some (Some (StdException what), out, st, mem))"

text \<open>A call of the library; \<open>fault\<close> is the world at the time an allocation in it throws.\<close>

definition lib_call :: "string \<Rightarrow> 'w option \<Rightarrow> 'o \<Rightarrow> ('a res \<times> 'w) option \<Rightarrow>
    ('a \<Rightarrow> 'w capi_state \<times> bool list \<Rightarrow> ('w, 'o) try_block) \<Rightarrow>
    'w capi_state \<times> bool list \<Rightarrow> ('w, 'o) try_block" where
  "lib_call what fault out m k = (\<lambda>(st, mem).
     case fault of
       Some w \<Rightarrow> Some (Some (StdException what), out, st\<lparr>cs_world := w\<rparr>, mem)
     | None \<Rightarrow>
         (case m of
            None \<Rightarrow> None
          | Some (Inl e, w) \<Rightarrow> Some (Some e, out, st\<lparr>cs_world := w\<rparr>, mem)
          | Some (Inr x, w) \<Rightarrow> k x (st\<lparr>cs_world := w\<rparr>, mem)))"

text \<open>
  \<^verbatim>\<open>allocate_output\<close> as the last statement of a block: the address and the length are stored
  after the buffer has been allocated. \<open>stored\<close> are the outputs with these two.
\<close>

definition allocate_output_mem :: "string \<Rightarrow> 'o \<Rightarrow> bytes \<Rightarrow> (nat \<times> nat \<Rightarrow> 'o) \<Rightarrow>
    'w capi_state \<times> bool list \<Rightarrow> ('w, 'o) try_block" where
  "allocate_output_mem what out bs stored =
     request what out (\<lambda>(st, mem).
       case allocate_output bs st of (p, st) \<Rightarrow> Some (None, stored p, st, mem))"

text \<open>\<^verbatim>\<open>std::make_unique\<close> of a handle, then \<^verbatim>\<open>*out_key = handle.release()\<close>.\<close>

definition make_handle :: "string \<Rightarrow> secret_key \<Rightarrow> 'w capi_state \<times> bool list \<Rightarrow>
    ('w, nat option) try_block" where
  "make_handle what key =
     request what None (\<lambda>(st, mem).
       case new_key (fst (move_construct key)) st of (a, st) \<Rightarrow> Some (None, Some a, st, mem))"

definition deref_key_mem :: "nat option \<Rightarrow> 'w capi_state \<Rightarrow> (nat \<Rightarrow> secret_key \<Rightarrow> 'r mem_call) \<Rightarrow>
    'r mem_call" where
  "deref_key_mem key st f =
     (case key of
        None \<Rightarrow> M_Undef
      | Some a \<Rightarrow> (case cs_keys st a of None \<Rightarrow> M_Undef | Some k \<Rightarrow> f a k))"

text \<open>
  The wrappers. An output component is \<open>None\<close> while nothing has been stored through its
  parameter; the nonce and the tag are copied out before the ciphertext's buffer is
  allocated.
\<close>

definition aeslib_key_generate_mem :: "'w system \<Rightarrow> string \<Rightarrow> 'w option \<Rightarrow> int \<Rightarrow> bool \<Rightarrow>
    'w capi_state \<times> bool list \<Rightarrow> ('w, nat option) wrapper_call" where
  "aeslib_key_generate_mem os what fault key_size_bits out_key s =
     (if \<not> out_key then invalid_argument_mem ''out_key must not be null'' None s
      else if key_size_bits \<noteq> 128 \<and> key_size_bits \<noteq> 256 then
        invalid_argument_mem ''key_size_bits must be 128 or 256'' None s
      else
        let size = (if key_size_bits = 128 then Aes128 else Aes256)
        in catch_all (lib_call what fault None (generate os size (cs_world (fst s))) (make_handle what) s))"

definition aeslib_key_save_to_file_mem :: "'w system \<Rightarrow> string \<Rightarrow> 'w option \<Rightarrow> nat option \<Rightarrow> string option \<Rightarrow>
    'w capi_state \<times> bool list \<Rightarrow> ('w, unit option) wrapper_call" where
  "aeslib_key_save_to_file_mem os what fault key path s =
     (case path of
        None \<Rightarrow> invalid_argument_mem ''key and path must not be null'' None s
      | Some p \<Rightarrow>
          if key = None then invalid_argument_mem ''key and path must not be null'' None s
          else deref_key_mem key (fst s) (\<lambda>_ k.
            catch_all (lib_call what fault None (save_to_file os k p (cs_world (fst s)))
              (\<lambda>u (st, mem). Some (None, Some u, st, mem)) s)))"

definition aeslib_key_load_from_file_mem :: "'w system \<Rightarrow> string \<Rightarrow> 'w option \<Rightarrow> string option \<Rightarrow> bool \<Rightarrow>
    'w capi_state \<times> bool list \<Rightarrow> ('w, nat option) wrapper_call" where
  "aeslib_key_load_from_file_mem os what fault path out_key s =
     (case path of
        None \<Rightarrow> invalid_argument_mem ''path and out_key must not be null'' None s
      | Some p \<Rightarrow>
          if \<not> out_key then invalid_argument_mem ''path and out_key must not be null'' None s
          else catch_all (lib_call what fault None (load_from_file os p (cs_world (fst s))) (make_handle what) s))"

definition aeslib_ctr_encrypt_mem :: "'w system \<Rightarrow> platform \<Rightarrow> string \<Rightarrow> 'w option \<Rightarrow> nat option \<Rightarrow>
    bytes option \<Rightarrow> nat \<Rightarrow> bool \<Rightarrow> 'w capi_state \<times> bool list \<Rightarrow>
    ('w, bytes option \<times> (nat \<times> nat) option) wrapper_call" where
  "aeslib_ctr_encrypt_mem os pf what fault key plaintext plaintext_len outs s =
     (if key = None \<or> plaintext = None \<and> plaintext_len \<noteq> 0 \<or> \<not> outs then
        invalid_argument_mem ''invalid argument to aeslib_ctr_encrypt'' (None, None) s
      else deref_key_mem key (fst s) (\<lambda>_ k.
        catch_all
          (request what (None, None)
            (lib_call what fault (None, None)
              (ctr_encrypt os pf k (to_bytes plaintext plaintext_len) (cs_world (fst s))) (\<lambda>c.
            allocate_output_mem what (Some (ct_nonce c), None) (ct_ciphertext c) (\<lambda>p. (Some (ct_nonce c), Some p)))) s)))"

definition aeslib_ctr_decrypt_mem :: "platform \<Rightarrow> string \<Rightarrow> bool \<Rightarrow> nat option \<Rightarrow> bytes option \<Rightarrow>
    bytes option \<Rightarrow> nat \<Rightarrow> bool \<Rightarrow> 'w capi_state \<times> bool list \<Rightarrow> ('w, (nat \<times> nat) option) wrapper_call" where
  "aeslib_ctr_decrypt_mem pf what fault key nonce ciphertext ciphertext_len outs s =
     (case nonce of
        None \<Rightarrow> invalid_argument_mem ''invalid argument to aeslib_ctr_decrypt'' None s
      | Some nmem \<Rightarrow>
          if key = None \<or> ciphertext = None \<and> ciphertext_len \<noteq> 0 \<or> \<not> outs then
            invalid_argument_mem ''invalid argument to aeslib_ctr_decrypt'' None s
          else deref_key_mem key (fst s) (\<lambda>_ k.
            let w = cs_world (fst s)
            in catch_all
              (request what None
                (lib_call what (if fault then Some w else None) None
                  (Some (ctr_decrypt pf k \<lparr>ct_nonce = take 12 nmem,
                     ct_ciphertext = to_bytes ciphertext ciphertext_len\<rparr>, w)) (\<lambda>plaintext.
                allocate_output_mem what None plaintext Some)) s)))"

text \<open>The flag of \<open>fault\<close> says whether the invocation counter had been advanced.\<close>

definition aeslib_gcm_encrypt_mem :: "'w system \<Rightarrow> platform \<Rightarrow> string \<Rightarrow> ('w \<times> bool) option \<Rightarrow> nat option \<Rightarrow>
    bytes option \<Rightarrow> nat \<Rightarrow> bytes option \<Rightarrow> nat \<Rightarrow> bool \<Rightarrow> 'w capi_state \<times> bool list \<Rightarrow>
    ('w, (bytes \<times> bytes) option \<times> (nat \<times> nat) option) wrapper_call" where
  "aeslib_gcm_encrypt_mem os pf what fault key plaintext plaintext_len aad aad_len outs s =
     (if key = None \<or> plaintext = None \<and> plaintext_len \<noteq> 0 \<or> aad = None \<and> aad_len \<noteq> 0 \<or> \<not> outs then
        invalid_argument_mem ''invalid argument to aeslib_gcm_encrypt'' (None, None) s
      else deref_key_mem key (fst s) (\<lambda>a k.
        catch_all
          (request what (None, None)
            (request what (None, None) (\<lambda>(st, mem).
              case fault of
                Some (w, advanced) \<Rightarrow>
                  let k' = (if advanced then snd (consume_gcm_invocation k) else k)
                  in Some (Some (StdException what), (None, None),
                       st\<lparr>cs_keys := (cs_keys st)(a \<mapsto> k'), cs_world := w\<rparr>, mem)
              | None \<Rightarrow>
                  (case gcm_encrypt os pf k (to_bytes plaintext plaintext_len) (to_bytes aad aad_len) (cs_world st) of
                     None \<Rightarrow> None
                   | Some (r, k', w) \<Rightarrow>
                       lib_call what None (None, None) (Some (r, w)) (\<lambda>c.
                         allocate_output_mem what (Some (gc_nonce c, gc_tag c), None) (gc_ciphertext c)
                           (\<lambda>p. (Some (gc_nonce c, gc_tag c), Some p)))
                         (st\<lparr>cs_keys := (cs_keys st)(a \<mapsto> k')\<rparr>, mem)))) s)))"

definition aeslib_gcm_decrypt_mem :: "platform \<Rightarrow> string \<Rightarrow> bool \<Rightarrow> nat option \<Rightarrow> bytes option \<Rightarrow> bytes option \<Rightarrow>
    bytes option \<Rightarrow> nat \<Rightarrow> bytes option \<Rightarrow> nat \<Rightarrow> bool \<Rightarrow> 'w capi_state \<times> bool list \<Rightarrow>
    ('w, (nat \<times> nat) option) wrapper_call" where
  "aeslib_gcm_decrypt_mem pf what fault key nonce tag ciphertext ciphertext_len aad aad_len outs s =
     (case (nonce, tag) of
        (Some nmem, Some tmem) \<Rightarrow>
          if key = None \<or> ciphertext = None \<and> ciphertext_len \<noteq> 0 \<or> aad = None \<and> aad_len \<noteq> 0 \<or> \<not> outs then
            invalid_argument_mem ''invalid argument to aeslib_gcm_decrypt'' None s
          else deref_key_mem key (fst s) (\<lambda>_ k.
            let w = cs_world (fst s)
            in catch_all
              (request what None
                (request what None
                  (lib_call what (if fault then Some w else None) None
                    (Some (gcm_decrypt pf k \<lparr>gc_nonce = take 12 nmem, gc_tag = take 16 tmem,
                       gc_ciphertext = to_bytes ciphertext ciphertext_len\<rparr> (to_bytes aad aad_len), w)) (\<lambda>plaintext.
                  allocate_output_mem what None plaintext Some))) s))
      | _ \<Rightarrow> invalid_argument_mem ''invalid argument to aeslib_gcm_decrypt'' None s)"

section \<open>With memory granted\<close>

text \<open>A result of \<open>Capi\<close> as one of this theory; \<open>f\<close> adapts the outputs.\<close>

definition granted_call :: "('o option \<Rightarrow> 'p) \<Rightarrow> (aeslib_status \<times> 'o option \<times> 'w capi_state) c_call \<Rightarrow>
    ('w, 'p) wrapper_call" where
  "granted_call f r =
     (case r of
        Ret (s, out, st) \<Rightarrow> M_Ret (s, f out, st, [])
      | NoReturn \<Rightarrow> M_NoReturn
      | Undef \<Rightarrow> M_Undef)"

lemma granted_call_simps [simp]:
  "granted_call f (Ret (s, out, st)) = M_Ret (s, f out, st, [])"
  "granted_call f NoReturn = M_NoReturn" "granted_call f Undef = M_Undef"
  by (simp_all add: granted_call_def)

lemma set_last_error_granted [simp]: "set_last_error_mem m (st, []) = Some (set_last_error m st, [])"
  by (simp add: set_last_error_mem_def)

lemma translate_granted [simp]:
  "translate_exception_mem e (st, []) = (case translate_exception e st of (s, st) \<Rightarrow> Some (s, st, []))"
  by (simp add: translate_exception_mem_def translate_exception_def split: aes_error.split)

lemma catch_all_None [simp]: "catch_all None = M_NoReturn"
  by (simp add: catch_all_def)

lemma request_granted [simp]: "request what out k (st, []) = k (st, [])"
  by (simp add: request_def)

lemma invalid_granted:
  "invalid_argument_mem m (f None) (st, []) = granted_call f (invalid_argument m st)"
  by (simp add: invalid_argument_mem_def invalid_argument_def)

lemma catch_lib_granted:
  assumes "\<And>x w. k x (st\<lparr>cs_world := w\<rparr>, []) = (case h x (st\<lparr>cs_world := w\<rparr>) of (out, st) \<Rightarrow> Some (None, f (Some out), st, []))"
  shows "catch_all (lib_call what None (f None) m k (st, [])) = granted_call f (c_try m h st)"
  by (auto simp: catch_all_def lib_call_def c_try_def assms split: option.split sum.split prod.split)

lemma deref_granted:
  assumes "\<And>a k. cs_keys st a = Some k \<Longrightarrow> g a k = granted_call f (h a k)"
  shows "deref_key_mem key st g = granted_call f (deref_key key st h)"
  using assms by (simp add: deref_key_mem_def deref_key_def split: option.split)

abbreviation ctr_outputs :: "(bytes \<times> nat \<times> nat) option \<Rightarrow> bytes option \<times> (nat \<times> nat) option" where
  "ctr_outputs x \<equiv> (map_option fst x, map_option snd x)"

abbreviation gcm_outputs ::
  "(bytes \<times> bytes \<times> nat \<times> nat) option \<Rightarrow> (bytes \<times> bytes) option \<times> (nat \<times> nat) option" where
  "gcm_outputs x \<equiv> (map_option (\<lambda>(n, t, _). (n, t)) x, map_option (\<lambda>(_, _, p). p) x)"

text \<open>The same frames for outputs that need no adapting, and for the two encryptions.\<close>

lemmas plain_granted = invalid_granted [where f = "\<lambda>x. x"] catch_lib_granted [where f = "\<lambda>x. x"]
lemmas ctr_granted = invalid_granted [where f = ctr_outputs, simplified] catch_lib_granted [where f = ctr_outputs, simplified]
lemmas gcm_granted = invalid_granted [where f = gcm_outputs, simplified] catch_lib_granted [where f = gcm_outputs, simplified]

lemma key_wrappers_granted:
  "aeslib_key_generate_mem os what None bits out_key (st, []) =
     granted_call (\<lambda>x. x) (aeslib_key_generate os bits out_key st)"
  "aeslib_key_load_from_file_mem os what None path out_key (st, []) =
     granted_call (\<lambda>x. x) (aeslib_key_load_from_file os path out_key st)"
  "aeslib_key_save_to_file_mem os what None key path (st, []) =
     granted_call (\<lambda>x. x) (aeslib_key_save_to_file os key path st)"
  by (auto simp: aeslib_key_generate_mem_def aeslib_key_generate_def aeslib_key_load_from_file_mem_def
      aeslib_key_load_from_file_def aeslib_key_save_to_file_mem_def aeslib_key_save_to_file_def
      plain_granted Let_def make_handle_def intro!: plain_granted(2) deref_granted split: option.split prod.split)

lemma decrypt_wrappers_granted:
  "aeslib_ctr_decrypt_mem pf what False key nonce ct ct_len outs (st, []) =
     granted_call (\<lambda>x. x) (aeslib_ctr_decrypt pf key nonce ct ct_len outs st)"
  "aeslib_gcm_decrypt_mem pf what False key nonce tag ct ct_len aad aad_len outs (st, []) =
     granted_call (\<lambda>x. x) (aeslib_gcm_decrypt pf key nonce tag ct ct_len aad aad_len outs st)"
  by (auto simp: aeslib_ctr_decrypt_mem_def aeslib_ctr_decrypt_def aeslib_gcm_decrypt_mem_def
      aeslib_gcm_decrypt_def allocate_output_mem_def Let_def plain_granted(1)
      intro!: deref_granted plain_granted(2) split: option.split prod.split)

lemma encrypt_wrappers_granted:
  "aeslib_ctr_encrypt_mem os pf what None key pt pt_len outs (st, []) =
     granted_call ctr_outputs (aeslib_ctr_encrypt os pf key pt pt_len outs st)"
  "aeslib_gcm_encrypt_mem os pf what None key pt pt_len aad aad_len outs (st, []) =
     granted_call gcm_outputs (aeslib_gcm_encrypt os pf key pt pt_len aad aad_len outs st)"
  by (auto simp: aeslib_ctr_encrypt_mem_def aeslib_ctr_encrypt_def aeslib_gcm_encrypt_mem_def
      aeslib_gcm_encrypt_def allocate_output_mem_def Let_def ctr_granted(1) gcm_granted(1)
      intro!: deref_granted ctr_granted(2) gcm_granted(2) split: option.split prod.split)

section \<open>With memory refused\<close>

text \<open>
  A state within a call: the call has created no object so far, and the answers left are
  among the ones it started with.
\<close>

definition within_call :: "'w capi_state \<Rightarrow> bool list \<Rightarrow> 'w capi_state \<times> bool list \<Rightarrow> bool" where
  "within_call st mem s \<longleftrightarrow> same_objects st (fst s) \<and> set (snd s) \<subseteq> set mem"

text \<open>
  What holds of a call that starts in \<open>st\<close> with the answers \<open>mem\<close>: its behaviour is defined,
  an exception leaves it only after a refusal, \<^verbatim>\<open>AESLIB_OK\<close> is returned exactly when the
  handle or buffer has been stored, any other status comes with no new object, and an
  output stored with another status means a refusal.
\<close>

definition contained :: "'w capi_state \<Rightarrow> bool list \<Rightarrow> 'o \<Rightarrow> ('o \<Rightarrow> bool) \<Rightarrow> ('w, 'o) wrapper_call \<Rightarrow> bool" where
  "contained st mem out0 stored r \<longleftrightarrow> r \<noteq> M_Undef \<and> (r = M_Unwind \<longrightarrow> False \<in> set mem) \<and>
     (\<forall>s out st' mem'. r = M_Ret (s, out, st', mem') \<longrightarrow>
        (s = AESLIB_OK \<longleftrightarrow> stored out) \<and> (s \<noteq> AESLIB_OK \<longrightarrow> same_objects st st') \<and>
        (s \<noteq> AESLIB_OK \<and> out \<noteq> out0 \<longrightarrow> False \<in> set mem))"

text \<open>The same of a \<^verbatim>\<open>try\<close> block.\<close>

definition block_ok :: "'w capi_state \<Rightarrow> bool list \<Rightarrow> 'o \<Rightarrow> ('o \<Rightarrow> bool) \<Rightarrow> ('w, 'o) try_block \<Rightarrow> bool" where
  "block_ok st mem out0 stored b \<longleftrightarrow> (\<forall>e out st' mem'. b = Some (e, out, st', mem') \<longrightarrow>
     set mem' \<subseteq> set mem \<and> (e = None \<longleftrightarrow> stored out) \<and>
     (e \<noteq> None \<longrightarrow> same_objects st st' \<and> (out \<noteq> out0 \<longrightarrow> False \<in> set mem)))"

lemma grant_set: "grant mem = (b, mem') \<Longrightarrow> set mem' \<subseteq> set mem \<and> (\<not> b \<longrightarrow> False \<in> set mem)"
  by (cases mem) auto

lemma same_objects_refl [simp]: "same_objects st st"
  by (simp add: same_objects_def)

lemma same_objects_world [simp]: "same_objects st (st'\<lparr>cs_world := w\<rparr>) = same_objects st st'"
  by (simp add: same_objects_def)

lemma within_start [simp]: "within_call st mem (st, mem)"
  by (simp add: within_call_def)

lemma set_last_error_mem_cases:
  "set_last_error_mem m (st, mem) = None \<Longrightarrow> False \<in> set mem"
  "set_last_error_mem m (st, mem) = Some (st', mem') \<Longrightarrow> st' = set_last_error m st \<and> set mem' \<subseteq> set mem"
  by (auto simp: set_last_error_mem_def split: prod.splits if_splits dest!: grant_set)

lemma translate_mem_cases:
  "translate_exception_mem e (st, mem) = None \<Longrightarrow> False \<in> set mem"
  "translate_exception_mem e (st, mem) = Some (s, st', mem') \<Longrightarrow>
     s \<noteq> AESLIB_OK \<and> (\<exists>m. st' = set_last_error m st) \<and> set mem' \<subseteq> set mem"
  by (auto simp: translate_exception_mem_def dest: set_last_error_mem_cases split: aes_error.splits)

lemma contained_invalid: "\<not> stored out0 \<Longrightarrow> contained st mem out0 stored (invalid_argument_mem m out0 (st, mem))"
  by (auto simp: contained_def invalid_argument_mem_def same_objects_def set_last_error_def
      dest: set_last_error_mem_cases split: option.splits)

lemma contained_catch:
  assumes "block_ok st mem out0 stored b"
  shows "contained st mem out0 stored (catch_all b)"
proof (cases b)
  case None
  then show ?thesis by (simp add: contained_def)
next
  case (Some r)
  obtain e out st1 mem1 where r: "r = (e, out, st1, mem1)" by (cases r)
  note ok = assms [unfolded block_ok_def Some r, rule_format, OF refl]
  show ?thesis
  proof (cases e)
    case None
    with ok show ?thesis by (simp add: contained_def catch_all_def Some r)
  next
    case (Some x)
    have upd: "same_objects st st1 \<Longrightarrow> same_objects st (set_last_error m st1)" for m
      by (simp add: same_objects_def set_last_error_def)
    show ?thesis
      using ok translate_mem_cases [of x st1 mem1]
      by (auto simp: contained_def catch_all_def \<open>b = Some r\<close> r Some upd split: option.splits)
  qed
qed

lemma contained_deref:
  assumes "key \<noteq> None" and "\<And>a. key = Some a \<Longrightarrow> cs_keys st a \<noteq> None"
    and "\<And>a k. cs_keys st a = Some k \<Longrightarrow> contained st mem out0 stored (f a k)"
  shows "contained st mem out0 stored (deref_key_mem key st f)"
  using assms by (auto simp: deref_key_mem_def split: option.split)

lemma block_none [simp]: "block_ok st mem out0 stored None"
  by (simp add: block_ok_def)

lemma block_throw:
  "within_call st mem s \<Longrightarrow> \<not> stored out \<Longrightarrow> out = out0 \<or> False \<in> set mem \<Longrightarrow>
   block_ok st mem out0 stored (Some (Some e, out, s))"
  by (cases s) (auto simp: block_ok_def within_call_def)

lemma block_request:
  assumes "within_call st mem s" and "\<not> stored out"
    and "\<And>s'. within_call st mem s' \<Longrightarrow> fst s' = fst s \<Longrightarrow> block_ok st mem out0 stored (k s')"
  shows "block_ok st mem out0 stored (request what out k s)"
proof -
  obtain st1 mem1 b mem2 where s: "s = (st1, mem1)" and g: "grant mem1 = (b, mem2)" by fastforce
  have w: "within_call st mem (st1, mem2)" and f: "\<not> b \<Longrightarrow> False \<in> set mem"
    using assms(1) grant_set [OF g] by (auto simp: within_call_def s)
  show ?thesis
    using assms(3) [OF w] block_throw [where out = out and stored = stored, OF w assms(2)] f by (simp add: request_def s g)
qed

lemma block_lib:
  assumes "within_call st mem s" and "\<not> stored out0"
    and "\<And>x s'. within_call st mem s' \<Longrightarrow> block_ok st mem out0 stored (k x s')"
  shows "block_ok st mem out0 stored (lib_call what fault out0 m k s)"
proof -
  obtain st1 mem1 where s: "s = (st1, mem1)" by fastforce
  have w: "within_call st mem (st1\<lparr>cs_world := w\<rparr>, mem1)" for w
    using assms(1) by (simp add: within_call_def s)
  show ?thesis
    using assms(3) [OF w] block_throw [where out = out0 and stored = stored, OF w assms(2) disjI1 [OF refl]]
    by (auto simp: lib_call_def s split: option.split sum.split)
qed

lemma block_allocate:
  assumes "within_call st mem s" and "\<not> stored out" and "\<And>p. stored (f p)"
  shows "block_ok st mem out0 stored (allocate_output_mem what out bs f s)"
  unfolding allocate_output_mem_def
  using assms
  by (intro block_request) (auto simp: block_ok_def within_call_def split: prod.split)

lemma block_handle:
  assumes "within_call st mem s"
  shows "block_ok st mem None (\<lambda>out. out \<noteq> None) (make_handle what key s)"
  unfolding make_handle_def
  using assms
  by (intro block_request) (auto simp: block_ok_def within_call_def split: prod.split)

text \<open>The library call of the GCM encryption, which also changes the key object.\<close>

lemma within_update:
  "within_call st mem (st1, mem1) \<Longrightarrow> cs_keys st1 a = Some k \<Longrightarrow>
   within_call st mem (st1\<lparr>cs_keys := (cs_keys st1)(a \<mapsto> k')\<rparr>, mem1)"
  by (auto simp: within_call_def same_objects_def)

lemma within_world: "within_call st mem (st1, mem1) \<Longrightarrow> within_call st mem (st1\<lparr>cs_world := w\<rparr>, mem1)"
  by (simp add: within_call_def)

lemmas block_intros = block_request block_lib block_allocate block_handle

lemma key_wrappers_contained:
  assumes "key = None \<or> (\<exists>a k. key = Some a \<and> cs_keys st a = Some k)"
  shows "contained st mem None (\<lambda>out. out \<noteq> None) (aeslib_key_generate_mem os what fault bits out_key (st, mem))"
    and "contained st mem None (\<lambda>out. out \<noteq> None) (aeslib_key_load_from_file_mem os what fault path out_key (st, mem))"
    and "contained st mem None (\<lambda>out. out \<noteq> None) (aeslib_key_save_to_file_mem os what fault key path (st, mem))"
proof -
  have unit_ok: "block_ok st mem None (\<lambda>out. out \<noteq> None) (Some (None, Some u, s))" if "within_call st mem s" for s and u :: unit
    using that by (cases s) (auto simp: block_ok_def within_call_def)
  show "contained st mem None (\<lambda>out. out \<noteq> None) (aeslib_key_generate_mem os what fault bits out_key (st, mem))"
    by (auto simp del: not_None_eq simp: aeslib_key_generate_mem_def Let_def intro!: contained_invalid contained_catch block_intros)
  show "contained st mem None (\<lambda>out. out \<noteq> None) (aeslib_key_load_from_file_mem os what fault path out_key (st, mem))"
    by (auto simp del: not_None_eq simp: aeslib_key_load_from_file_mem_def intro!: contained_invalid contained_catch block_intros split: option.split)
  show "contained st mem None (\<lambda>out. out \<noteq> None) (aeslib_key_save_to_file_mem os what fault key path (st, mem))"
    using assms
    by (auto simp del: not_None_eq simp: aeslib_key_save_to_file_mem_def intro!: contained_invalid contained_deref contained_catch block_lib unit_ok
        split: option.split)
qed

lemma ctr_wrappers_contained:
  assumes "key = None \<or> (\<exists>a k. key = Some a \<and> cs_keys st a = Some k)"
  shows "contained st mem (None, None) (\<lambda>out. snd out \<noteq> None)
      (aeslib_ctr_encrypt_mem os pf what fault key pt pt_len outs (st, mem))"
    and "contained st mem None (\<lambda>out. out \<noteq> None)
      (aeslib_ctr_decrypt_mem pf what flt key nonce ct ct_len outs (st, mem))"
  using assms
  by (auto simp del: not_None_eq simp: aeslib_ctr_encrypt_mem_def aeslib_ctr_decrypt_mem_def Let_def
      intro!: contained_invalid contained_deref contained_catch block_intros split: option.split)

lemma gcm_decrypt_contained:
  assumes "key = None \<or> (\<exists>a k. key = Some a \<and> cs_keys st a = Some k)"
  shows "contained st mem None (\<lambda>out. out \<noteq> None)
      (aeslib_gcm_decrypt_mem pf what flt key nonce tag ct ct_len aad aad_len outs (st, mem))"
  using assms
  by (auto simp del: not_None_eq simp: aeslib_gcm_decrypt_mem_def Let_def
      intro!: contained_invalid contained_deref contained_catch block_intros split: option.split)

lemma gcm_encrypt_contained:
  assumes "key = None \<or> (\<exists>a k. key = Some a \<and> cs_keys st a = Some k)"
  shows "contained st mem (None, None) (\<lambda>out. snd out \<noteq> None)
      (aeslib_gcm_encrypt_mem os pf what fault key pt pt_len aad aad_len outs (st, mem))"
  using assms
  by (auto simp del: not_None_eq simp: aeslib_gcm_encrypt_mem_def Let_def
      intro!: contained_invalid contained_deref contained_catch block_request block_throw block_lib block_allocate
        within_world within_update
      split: option.split)

section \<open>The state invariant\<close>

text \<open>
  The invariant holds after every call, and a call that returns \<^verbatim>\<open>AESLIB_OK\<close> leaves the last
  error as it was.
\<close>

definition keeps :: "string \<Rightarrow> 'w capi_state \<Rightarrow> bool" where
  "keeps msg st \<longleftrightarrow> capi_wf st \<and> cs_last_error st = msg"

definition block_keeps :: "string \<Rightarrow> ('w, 'o) try_block \<Rightarrow> bool" where
  "block_keeps msg b \<longleftrightarrow> (\<forall>e out st' mem'. b = Some (e, out, st', mem') \<longrightarrow> keeps msg st')"

definition call_keeps :: "string \<Rightarrow> ('w, 'o) wrapper_call \<Rightarrow> bool" where
  "call_keeps msg r \<longleftrightarrow> (\<forall>s out st' mem'. r = M_Ret (s, out, st', mem') \<longrightarrow>
     capi_wf st' \<and> (s = AESLIB_OK \<longrightarrow> cs_last_error st' = msg))"

lemma keeps_world [simp]: "keeps msg (st\<lparr>cs_world := w\<rparr>) = keeps msg st"
  by (simp add: keeps_def)

lemma keeps_allocate: "keeps msg st \<Longrightarrow> allocate_output bs st = (p, st') \<Longrightarrow> keeps msg st'"
  using capi_wf_allocate [of st bs p st'] by (auto simp: keeps_def allocate_output_def new_buf_def)

lemma keeps_new_key: "keeps msg st \<Longrightarrow> key_wf k \<Longrightarrow> new_key (fst (move_construct k)) st = (a, st') \<Longrightarrow> keeps msg st'"
  using moved_key_wf [of k] capi_wf_new_key [of st "fst (move_construct k)" a st']
  by (auto simp: keeps_def new_key_def)

lemma keeps_update_key:
  "keeps msg st \<Longrightarrow> cs_keys st a = Some k \<Longrightarrow> (key_wf k \<Longrightarrow> sk_locked k \<Longrightarrow> key_wf k' \<and> sk_locked k') \<Longrightarrow>
   keeps msg (st\<lparr>cs_keys := (cs_keys st)(a \<mapsto> k')\<rparr>)"
  using capi_wf_update_key [of st a k k'] unfolding keeps_def by (simp add: capi_wf_def)

lemma keeps_invalid: "keeps msg st \<Longrightarrow> call_keeps msg (invalid_argument_mem m out (st, mem))"
  by (auto simp: call_keeps_def invalid_argument_mem_def keeps_def dest: set_last_error_mem_cases split: option.splits)

lemma keeps_catch: "block_keeps msg b \<Longrightarrow> call_keeps msg (catch_all b)"
  by (auto simp: call_keeps_def catch_all_def block_keeps_def keeps_def dest: translate_mem_cases
      split: option.splits prod.splits)

lemma keeps_deref:
  "(\<And>a k. cs_keys st a = Some k \<Longrightarrow> call_keeps msg (f a k)) \<Longrightarrow> call_keeps msg (deref_key_mem key st f)"
  by (simp add: call_keeps_def deref_key_mem_def split: option.split)

lemma keeps_throw: "keeps msg (fst s) \<Longrightarrow> block_keeps msg (Some (e, out, s))"
  by (cases s) (simp add: block_keeps_def)

lemma keeps_none [simp]: "block_keeps msg None"
  by (simp add: block_keeps_def)

lemma keeps_request:
  assumes "keeps msg (fst s)" and "\<And>s'. fst s' = fst s \<Longrightarrow> block_keeps msg (k s')"
  shows "block_keeps msg (request what out k s)"
  using assms by (cases s) (auto simp: request_def intro: keeps_throw split: prod.split)

lemma keeps_lib:
  assumes "keeps msg (fst s)"
    and "\<And>x w s'. m = Some (Inr x, w) \<Longrightarrow> keeps msg (fst s') \<Longrightarrow> block_keeps msg (k x s')"
  shows "block_keeps msg (lib_call what fault out m k s)"
  using assms by (cases s) (auto simp: lib_call_def intro: keeps_throw split: option.split sum.split)

lemma keeps_allocate_mem: "keeps msg (fst s) \<Longrightarrow> block_keeps msg (allocate_output_mem what out bs f s)"
  unfolding allocate_output_mem_def
  by (rule keeps_request) (auto intro!: keeps_throw dest: keeps_allocate split: prod.split)

lemma keeps_handle: "keeps msg (fst s) \<Longrightarrow> key_wf key \<Longrightarrow> block_keeps msg (make_handle what key s)"
  unfolding make_handle_def
  by (rule keeps_request) (auto intro!: keeps_throw dest: keeps_new_key split: prod.split)

lemmas keeps_intros = keeps_invalid keeps_catch keeps_deref keeps_request keeps_lib keeps_allocate_mem

lemma key_wrappers_keep:
  assumes "keeps msg st"
  shows "random_documented os \<Longrightarrow> call_keeps msg (aeslib_key_generate_mem os what fault bits out_key (st, mem))"
    and "files_documented os fv \<Longrightarrow> call_keeps msg (aeslib_key_load_from_file_mem os what fault path out_key (st, mem))"
    and "call_keeps msg (aeslib_key_save_to_file_mem os what fault key path (st, mem))"
proof -
  show "random_documented os \<Longrightarrow> call_keeps msg (aeslib_key_generate_mem os what fault bits out_key (st, mem))"
    using assms
    by (auto simp: aeslib_key_generate_mem_def Let_def intro!: keeps_intros keeps_handle dest: key_wf_generate)
  show "files_documented os fv \<Longrightarrow> call_keeps msg (aeslib_key_load_from_file_mem os what fault path out_key (st, mem))"
    using assms
    by (auto simp: aeslib_key_load_from_file_mem_def intro!: keeps_intros keeps_handle dest: load_from_file_key_wf
        split: option.split)
  show "call_keeps msg (aeslib_key_save_to_file_mem os what fault key path (st, mem))"
    using assms
    by (auto simp: aeslib_key_save_to_file_mem_def intro!: keeps_intros keeps_throw split: option.split)
qed

lemma ctr_wrappers_keep:
  assumes "keeps msg st"
  shows "call_keeps msg (aeslib_ctr_encrypt_mem os pf what fault key pt pt_len outs (st, mem))"
    and "call_keeps msg (aeslib_ctr_decrypt_mem pf what flt key nonce ct ct_len outs (st, mem))"
  using assms
  by (auto simp: aeslib_ctr_encrypt_mem_def aeslib_ctr_decrypt_mem_def Let_def intro!: keeps_intros split: option.split)

lemma gcm_wrappers_keep:
  assumes "keeps msg st"
  shows "call_keeps msg (aeslib_gcm_encrypt_mem os pf what fault key pt pt_len aad aad_len outs (st, mem))"
    and "call_keeps msg (aeslib_gcm_decrypt_mem pf what flt key nonce tag ct ct_len aad aad_len outs (st, mem))"
proof -
  have consumed: "keeps msg (st\<lparr>cs_keys := (cs_keys st)(a \<mapsto> snd (consume_gcm_invocation k))\<rparr>)"
    "keeps msg (st\<lparr>cs_keys := (cs_keys st)(a \<mapsto> k)\<rparr>)" if "cs_keys st a = Some k" for a k
    using keeps_update_key [OF assms that] by (simp_all add: consume_gcm_invocation_def key_wf_def)
  have encrypted: "keeps msg (st\<lparr>cs_keys := (cs_keys st)(a \<mapsto> k')\<rparr>)"
    if "cs_keys st a = Some k" "gcm_encrypt os pf k p d v = Some (r, k', w)" for a k p d v r k' w
    using keeps_update_key [OF assms that(1), of k'] gcm_encrypt_key_wf [OF that(2)] by simp
  note block = keeps_catch keeps_deref keeps_request keeps_lib keeps_allocate_mem
  show "call_keeps msg (aeslib_gcm_encrypt_mem os pf what fault key pt pt_len aad aad_len outs (st, mem))"
    unfolding aeslib_gcm_encrypt_mem_def Let_def
    by (auto intro!: block keeps_throw keeps_invalid simp: assms consumed encrypted split: option.split)
  show "call_keeps msg (aeslib_gcm_decrypt_mem pf what flt key nonce tag ct ct_len aad aad_len outs (st, mem))"
    using assms
    by (auto simp: aeslib_gcm_decrypt_mem_def Let_def intro!: keeps_intros split: option.split)
qed

section \<open>Properties\<close>

text \<open>
  With memory at hand the interface with allocation failure is the interface without it:
  when no request is refused and the library does not run out of memory, each of the
  wrappers returns the status, the outputs and the state that its counterpart without
  allocation failure returns, and is undefined or does not return exactly when that one is
  or does not.
\<close>

theorem capi_with_memory:
  "aeslib_key_generate_mem os what None bits out_key (st, []) =
     granted_call (\<lambda>x. x) (aeslib_key_generate os bits out_key st) \<and>
   aeslib_key_save_to_file_mem os what None key path (st, []) =
     granted_call (\<lambda>x. x) (aeslib_key_save_to_file os key path st) \<and>
   aeslib_key_load_from_file_mem os what None path out_key (st, []) =
     granted_call (\<lambda>x. x) (aeslib_key_load_from_file os path out_key st) \<and>
   aeslib_ctr_encrypt_mem os pf what None key pt pt_len outs (st, []) =
     granted_call ctr_outputs (aeslib_ctr_encrypt os pf key pt pt_len outs st) \<and>
   aeslib_ctr_decrypt_mem pf what False key nonce ct ct_len outs (st, []) =
     granted_call (\<lambda>x. x) (aeslib_ctr_decrypt pf key nonce ct ct_len outs st) \<and>
   aeslib_gcm_encrypt_mem os pf what None key pt pt_len aad aad_len outs (st, []) =
     granted_call gcm_outputs
       (aeslib_gcm_encrypt os pf key pt pt_len aad aad_len outs st) \<and>
   aeslib_gcm_decrypt_mem pf what False key nonce tag ct ct_len aad aad_len outs (st, []) =
     granted_call (\<lambda>x. x) (aeslib_gcm_decrypt pf key nonce tag ct ct_len aad aad_len outs st)"
  by (intro conjI key_wrappers_granted encrypt_wrappers_granted decrypt_wrappers_granted)



lemma gcm_encrypt_mem_run:
  assumes "cs_keys st a = Some k" and "plaintext \<noteq> None \<or> pt_len = 0" and "aad \<noteq> None \<or> aad_len = 0"
    and "gcm_encrypt os pf k (to_bytes plaintext pt_len) (to_bytes aad aad_len) (cs_world st) = Some (Inr c, k', w)"
  shows "aeslib_gcm_encrypt_mem os pf what None (Some a) plaintext pt_len aad aad_len True (st, True # True # mem) =
    catch_all (allocate_output_mem what (Some (gc_nonce c, gc_tag c), None) (gc_ciphertext c)
      (\<lambda>p. (Some (gc_nonce c, gc_tag c), Some p)) (st\<lparr>cs_keys := (cs_keys st)(a \<mapsto> k'), cs_world := w\<rparr>, mem))"
  using assms by (auto simp: aeslib_gcm_encrypt_mem_def deref_key_mem_def request_def lib_call_def)


lemma mem_gcm_encrypt:
  "\<exists>c k' w. gcm_encrypt mem_posix (x86_platform 0 None) SecretKey [1, 2] [] mem_start = Some (Inr c, k', w)"
  using gcm_encrypt_succeeds [OF mem_random_documented(1) _ _ mem_fill_12, of "[1, 2]" SecretKey "x86_platform 0 None" "[]"]
    gcm_validate_iff [of "Suc (Suc 0)"]
  by (fastforce simp: SecretKey_def lock_memory_def)


end
