(* ===== verification/Capi_Threads.thy ===== *)
theory Capi_Threads
  imports Capi_Memory
begin

text \<open>
  The C interface used by several threads of one process. The objects are shared; the last
  error (\<^verbatim>\<open>thread_local std::string g_last_error\<close>) belongs to a thread. A thread's call is one
  step, and any request for memory in it may be refused; what concurrent encryptions on
  one key do to each other within a call is the subject of \<open>Gcm_Threads\<close>.
\<close>

section \<open>Definitions\<close>

text \<open>A call on the state that a thread sees, with its status; releasing an object has none.\<close>

inductive capi_mem_step ::
  "'w system \<Rightarrow> platform \<Rightarrow> string \<Rightarrow> 'w capi_state \<Rightarrow> aeslib_status option \<Rightarrow> 'w capi_state \<Rightarrow> bool"
  for os pf what where
  mem_key_generate: "aeslib_key_generate_mem os what fault bits out_key (st, mem) = M_Ret (s, kout, st', mem') \<Longrightarrow>
    capi_mem_step os pf what st (Some s) st'"
| mem_key_save: "aeslib_key_save_to_file_mem os what fault key path (st, mem) = M_Ret (s, uout, st', mem') \<Longrightarrow>
    capi_mem_step os pf what st (Some s) st'"
| mem_key_load: "aeslib_key_load_from_file_mem os what fault path out_key (st, mem) = M_Ret (s, kout, st', mem') \<Longrightarrow>
    capi_mem_step os pf what st (Some s) st'"
| mem_ctr_encrypt: "aeslib_ctr_encrypt_mem os pf what fault key pt pt_len outs (st, mem) = M_Ret (s, nout, st', mem') \<Longrightarrow>
    capi_mem_step os pf what st (Some s) st'"
| mem_ctr_decrypt: "aeslib_ctr_decrypt_mem pf what dfault key nonce ct ct_len outs (st, mem) =
      M_Ret (s, bout, st', mem') \<Longrightarrow> capi_mem_step os pf what st (Some s) st'"
| mem_gcm_encrypt: "aeslib_gcm_encrypt_mem os pf what gfault key pt pt_len aad aad_len outs (st, mem) =
      M_Ret (s, gout, st', mem') \<Longrightarrow> capi_mem_step os pf what st (Some s) st'"
| mem_gcm_decrypt: "aeslib_gcm_decrypt_mem pf what dfault key nonce tag ct ct_len aad aad_len outs (st, mem) =
      M_Ret (s, bout, st', mem') \<Longrightarrow> capi_mem_step os pf what st (Some s) st'"
| mem_key_free: "aeslib_key_free key st = Ret st' \<Longrightarrow> capi_mem_step os pf what st None st'"
| mem_buffer_free: "aeslib_buffer_free buffer st = Ret st' \<Longrightarrow> capi_mem_step os pf what st None st'"

text \<open>
  The calls of a process so far, the latest first: the thread, the status, and what
  \<^verbatim>\<open>aeslib_last_error_message\<close> returns on that thread after the call.
\<close>

type_synonym call_log = "(nat \<times> aeslib_status option \<times> string) list"

text \<open>The last errors of the threads, the shared state and the calls made.\<close>

inductive capi_threads ::
  "'w system \<Rightarrow> platform \<Rightarrow> string \<Rightarrow> 'w \<Rightarrow> (nat \<Rightarrow> string) \<times> 'w capi_state \<times> call_log \<Rightarrow> bool"
  for os pf what w where
  threads_start: "capi_threads os pf what w (\<lambda>_. [], capi_start w, [])"
| threads_call: "capi_threads os pf what w (errs, st, log) \<Longrightarrow>
    capi_mem_step os pf what (st\<lparr>cs_last_error := errs t\<rparr>) s st' \<Longrightarrow>
    capi_threads os pf what w (errs(t := cs_last_error st'), st', (t, s, aeslib_last_error_message st') # log)"

text \<open>
  What \<^verbatim>\<open>capi.h\<close> promises of the message: that of the most recent failing call made on the
  thread.
\<close>

fun last_failure :: "nat \<Rightarrow> call_log \<Rightarrow> string" where
  "last_failure t [] = []"
| "last_failure t ((u, s, message) # log) =
     (if u = t \<and> s \<noteq> None \<and> s \<noteq> Some AESLIB_OK then message else last_failure t log)"

section \<open>Preservation\<close>

lemma keeps_own_error: "capi_wf st \<Longrightarrow> keeps (cs_last_error st) st"
  by (simp add: keeps_def)

lemma call_keepsD:
  "call_keeps msg r \<Longrightarrow> r = M_Ret (s, out, st', mem') \<Longrightarrow> capi_wf st' \<and> (s = AESLIB_OK \<longrightarrow> cs_last_error st' = msg)"
  by (simp add: call_keeps_def)

lemma frees_keep_error:
  "aeslib_key_free key st = Ret st' \<Longrightarrow> cs_last_error st' = cs_last_error st"
  "aeslib_buffer_free buffer st = Ret st' \<Longrightarrow> cs_last_error st' = cs_last_error st"
  by (auto simp: aeslib_key_free_def aeslib_buffer_free_def deref_key_def delete_key_def delete_buf_def
      split: option.splits)

lemma mem_step_keeps:
  assumes "files_documented os fv" and "random_documented os" and "capi_mem_step os pf what st s st'" and "capi_wf st"
  shows "capi_wf st' \<and> (s = None \<or> s = Some AESLIB_OK \<longrightarrow> cs_last_error st' = cs_last_error st)"
proof -
  note k = keeps_own_error [OF assms(4)]
  note calls = key_wrappers_keep(1) [OF k assms(2)] key_wrappers_keep(2) [OF k assms(1)] key_wrappers_keep(3) [OF k]
    ctr_wrappers_keep [OF k] gcm_wrappers_keep [OF k]
  show ?thesis
    using assms(3)
    by (cases rule: capi_mem_step.cases)
      (auto dest: calls [THEN call_keepsD] capi_wf_frees [OF assms(4)] frees_keep_error)
qed

lemma capi_wf_last_error [simp]: "capi_wf (st\<lparr>cs_last_error := m\<rparr>) = capi_wf st"
  using capi_wf_simps(2) [of m st] by (simp add: set_last_error_def)

lemma capi_threads_wf:
  assumes "files_documented os fv" and "random_documented os" and "capi_threads os pf what w s"
  shows "capi_wf (fst (snd s)) \<and> (\<forall>t. fst s t = last_failure t (snd (snd s)))"
  using assms(3)
proof induction
  case threads_start
  show ?case by (simp add: capi_wf_start)
next
  case (threads_call errs st log t s st')
  note step = mem_step_keeps [OF assms(1,2) threads_call.hyps(2)]
  show ?case
    using step threads_call.IH by (auto simp: aeslib_last_error_message_def)
qed

section \<open>Properties\<close>



text \<open>
  A run of three calls: a call of thread 1 with a null argument, then thread 0 generates a
  key and releases it.
\<close>

lemma threads_callI:
  assumes "capi_threads os pf what w (errs, st, log)" and "st\<lparr>cs_last_error := errs t\<rparr> = st1"
    and "capi_mem_step os pf what st1 s st'" and "cs_last_error st' = m"
  shows "capi_threads os pf what w (errs(t := m), st', (t, s, m) # log)"
  using threads_call [OF assms(1), of t s st'] assms(2-4) by (simp add: aeslib_last_error_message_def)

lemma sample_run:
  "\<exists>errs st. capi_threads mem_posix (x86_platform 0 None) what mem_start (errs, st,
     [(0, None, []), (0, Some AESLIB_OK, []), (1, Some AESLIB_ERR_INVALID_ARGUMENT, ''out_key must not be null'')]) \<and>
     cs_freed st 0 \<noteq> None"
proof -
  let ?pf = "x86_platform 0 None" and ?m = "''out_key must not be null''"
  obtain k w where g: "generate mem_posix Aes128 mem_start = Some (Inr k, w)" using mem_generate by blast
  define k' where "k' = fst (move_construct k)"
  define s1 where "s1 = set_last_error ?m (capi_start mem_start)"
  define s2 where "s2 = snd (new_key k' (capi_start w))"
  define s3 where "s3 = delete_key 0 s2"
  have e: "(capi_start v)\<lparr>cs_last_error := []\<rparr> = capi_start v" "s2\<lparr>cs_last_error := []\<rparr> = s2"
      "s1\<lparr>cs_last_error := []\<rparr> = capi_start mem_start" for v :: mem_world
    by (simp_all add: capi_start_def s1_def s2_def set_last_error_def new_key_def)
  have w: "(capi_start mem_start)\<lparr>cs_world := w\<rparr> = capi_start w" "cs_world (capi_start mem_start) = mem_start"
    by (simp_all add: capi_start_def)
  have c1: "aeslib_key_generate_mem mem_posix what None 128 False (capi_start mem_start, []) =
      M_Ret (AESLIB_ERR_INVALID_ARGUMENT, None, s1, [])"
    by (simp add: aeslib_key_generate_mem_def invalid_argument_mem_def s1_def)
  have c2: "aeslib_key_generate_mem mem_posix what None 128 True (capi_start mem_start, []) =
      M_Ret (AESLIB_OK, Some 0, s2, [])"
    by (simp add: aeslib_key_generate_mem_def g w lib_call_def make_handle_def catch_all_def k'_def s2_def new_key_def)
      (simp add: capi_start_def)
  have c3: "aeslib_key_free (Some 0) s2 = Ret s3" "cs_freed s3 0 \<noteq> None"
    by (simp_all add: aeslib_key_free_def deref_key_def s3_def s2_def delete_key_def new_key_def capi_start_def)
  have msg: "cs_last_error s1 = ?m" "cs_last_error s2 = []" "cs_last_error s3 = []"
    by (simp_all add: s1_def s2_def s3_def set_last_error_def new_key_def delete_key_def capi_start_def)
  have r1: "capi_threads mem_posix ?pf what mem_start
      ((\<lambda>_. [])(1 := ?m), s1, [(1, Some AESLIB_ERR_INVALID_ARGUMENT, ?m)])"
    by (rule threads_callI [OF threads_start _ mem_key_generate [OF c1]]) (simp_all add: e msg)
  have r2: "capi_threads mem_posix ?pf what mem_start ((\<lambda>_. [])(1 := ?m, 0 := []), s2,
      [(0, Some AESLIB_OK, []), (1, Some AESLIB_ERR_INVALID_ARGUMENT, ?m)])"
    by (rule threads_callI [OF r1 _ mem_key_generate [OF c2]]) (simp_all add: e msg)
  have "capi_threads mem_posix ?pf what mem_start ((\<lambda>_. [])(1 := ?m, 0 := [], 0 := []), s3,
      [(0, None, []), (0, Some AESLIB_OK, []), (1, Some AESLIB_ERR_INVALID_ARGUMENT, ?m)])"
    by (rule threads_callI [OF r2 _ mem_key_free [OF c3(1)]]) (simp_all add: e msg)
  then show ?thesis using c3 by blast
qed



end
