(* ===== verification/Byte_View.thy ===== *)
theory Byte_View
  imports Gcm_Mode
begin

text \<open>
  The generic front end of \<^verbatim>\<open>include/aeslib/byte_view.hpp\<close> and the templates of
  \<^verbatim>\<open>aes256_ctr.hpp\<close> and \<^verbatim>\<open>aes_gcm.hpp\<close> over it: a value is viewed as raw bytes, encrypted,
  and rebuilt from the decrypted bytes. An element type is given by its \<^verbatim>\<open>sizeof\<close>, its
  object representation and the value read back from a representation; the locale
  \<open>byte_elem\<close> is the guarantee of a trivially copyable type. A container is the list of
  its elements.
\<close>

section \<open>Definitions\<close>

text \<open>
  The traits of a type the templates select on: contiguous storage with
  \<^verbatim>\<open>data()\<close>, \<^verbatim>\<open>size()\<close> and \<^verbatim>\<open>value_type\<close>; a \<^verbatim>\<open>resize\<close> member; trivial copyability of the
  element type and of the type itself.
\<close>

record type_traits =
  has_contiguous_storage :: bool
  is_resizable :: bool
  elem_trivially_copyable :: bool
  self_trivially_copyable :: bool

definition is_byte_container :: "type_traits \<Rightarrow> bool" where
  "is_byte_container t \<longleftrightarrow> has_contiguous_storage t \<and> elem_trivially_copyable t"

definition is_byte_object :: "type_traits \<Rightarrow> bool" where
  "is_byte_object t \<longleftrightarrow> self_trivially_copyable t \<and> \<not> is_byte_container t"

definition is_byte_viewable :: "type_traits \<Rightarrow> bool" where
  "is_byte_viewable t \<longleftrightarrow> is_byte_container t \<or> is_byte_object t"

text \<open>The conditions under which each overload takes part in overload resolution.\<close>

definition to_byte_vector_enabled :: "type_traits \<Rightarrow> bool list" where
  "to_byte_vector_enabled t = [is_byte_container t, is_byte_object t]"

definition from_byte_vector_enabled :: "type_traits \<Rightarrow> bool list" where
  "from_byte_vector_enabled t =
     [is_byte_container t \<and> is_resizable t, is_byte_container t \<and> \<not> is_resizable t, is_byte_object t]"

text \<open>A byte-container, and a single byte-object.\<close>

definition to_byte_vector :: "('e \<Rightarrow> bytes) \<Rightarrow> 'e list \<Rightarrow> bytes" where
  "to_byte_vector repr xs = concat (map repr xs)"

definition to_byte_vector_object :: "('e \<Rightarrow> bytes) \<Rightarrow> 'e \<Rightarrow> bytes" where
  "to_byte_vector_object repr x = repr x"

text \<open>\<^verbatim>\<open>memcpy\<close> of the bytes over \<open>n\<close> elements of the container.\<close>

definition copy_elements :: "nat \<Rightarrow> (bytes \<Rightarrow> 'e) \<Rightarrow> nat \<Rightarrow> bytes \<Rightarrow> 'e list" where
  "copy_elements esz val n bs = map (\<lambda>i. val (take esz (drop (i * esz) bs))) [0..<n]"

definition from_byte_vector_resizable :: "nat \<Rightarrow> (bytes \<Rightarrow> 'e) \<Rightarrow> bytes \<Rightarrow> 'e list res" where
  "from_byte_vector_resizable esz val bs =
     (if length bs mod esz \<noteq> 0 then
        Inl (FormatError ''decrypted byte length is not a whole multiple of the target element size'')
      else Inr (copy_elements esz val (length bs div esz) bs))"

definition from_byte_vector_fixed :: "nat \<Rightarrow> (bytes \<Rightarrow> 'e) \<Rightarrow> nat \<Rightarrow> bytes \<Rightarrow> 'e list res" where
  "from_byte_vector_fixed esz val capacity bs =
     (if length bs \<noteq> capacity * esz then
        Inl (FormatError ''decrypted byte length does not match the fixed-size container's capacity'')
      else Inr (copy_elements esz val capacity bs))"

definition from_byte_vector_object :: "nat \<Rightarrow> (bytes \<Rightarrow> 'e) \<Rightarrow> bytes \<Rightarrow> 'e res" where
  "from_byte_vector_object esz val bs =
     (if length bs \<noteq> esz then Inl (FormatError ''decrypted byte length does not match sizeof(T)'')
      else Inr (val (take esz bs)))"

text \<open>The templates: the caller's type enters through its two conversions.\<close>

definition ctr_encrypt_t ::
  "('t \<Rightarrow> bytes) \<Rightarrow> 'w system \<Rightarrow> platform \<Rightarrow> secret_key \<Rightarrow> 't \<Rightarrow> ('w, container) io" where
  "ctr_encrypt_t to_bv os pf key plaintext = ctr_encrypt os pf key (to_bv plaintext)"

definition ctr_decrypt_as :: "(bytes \<Rightarrow> 't res) \<Rightarrow> platform \<Rightarrow> secret_key \<Rightarrow> container \<Rightarrow> 't res" where
  "ctr_decrypt_as from_bv pf key container = res_bind (ctr_decrypt pf key container) from_bv"

definition gcm_encrypt_t :: "('t \<Rightarrow> bytes) \<Rightarrow> 'w system \<Rightarrow> platform \<Rightarrow> secret_key \<Rightarrow> 't \<Rightarrow> bytes \<Rightarrow> 'w \<Rightarrow>
    (gcm_container res \<times> secret_key \<times> 'w) option" where
  "gcm_encrypt_t to_bv os pf key plaintext aad = gcm_encrypt os pf key (to_bv plaintext) aad"

definition gcm_decrypt_as ::
  "(bytes \<Rightarrow> 't res) \<Rightarrow> platform \<Rightarrow> secret_key \<Rightarrow> gcm_container \<Rightarrow> bytes \<Rightarrow> 't res" where
  "gcm_decrypt_as from_bv pf key container aad = res_bind (gcm_decrypt pf key container aad) from_bv"

section \<open>Trivially copyable elements\<close>

text \<open>
  What the language guarantees of a trivially copyable type: an object occupies a fixed
  positive number of bytes, and copying its bytes into another object gives that object
  its value.
\<close>

locale byte_elem =
  fixes esz :: nat
    and repr :: "'e \<Rightarrow> bytes"
    and val :: "bytes \<Rightarrow> 'e"
  assumes size_pos: "0 < esz"
    and repr_length: "length (repr x) = esz"
    and val_repr: "val (repr x) = x"
begin

lemma length_to_byte_vector: "length (to_byte_vector repr xs) = length xs * esz"
  by (induction xs) (simp_all add: to_byte_vector_def repr_length)

lemma nth_field:
  "i < length xs \<Longrightarrow> take esz (drop (i * esz) (to_byte_vector repr xs)) = repr (xs ! i)"
proof (induction xs arbitrary: i)
  case (Cons x xs)
  show ?case
  proof (cases i)
    case 0
    then show ?thesis by (simp add: to_byte_vector_def repr_length)
  next
    case (Suc j)
    then have "drop (i * esz) (to_byte_vector repr (x # xs)) = drop (j * esz) (to_byte_vector repr xs)"
      by (simp add: to_byte_vector_def repr_length)
    with Suc Cons show ?thesis by simp
  qed
qed simp

lemma copy_to: "copy_elements esz val (length xs) (to_byte_vector repr xs) = xs"
  by (rule nth_equalityI) (simp_all add: copy_elements_def nth_field val_repr)

lemma resizable_roundtrip: "from_byte_vector_resizable esz val (to_byte_vector repr xs) = Inr xs"
  using size_pos copy_to [of xs] by (simp add: from_byte_vector_resizable_def length_to_byte_vector)

lemma fixed_roundtrip:
  "from_byte_vector_fixed esz val n (to_byte_vector repr xs) =
     (if length xs = n then Inr xs else
        Inl (FormatError ''decrypted byte length does not match the fixed-size container's capacity''))"
  using size_pos copy_to [of xs] by (auto simp: from_byte_vector_fixed_def length_to_byte_vector)

lemma object_roundtrip: "from_byte_vector_object esz val (to_byte_vector_object repr x) = Inr x"
  by (simp add: from_byte_vector_object_def to_byte_vector_object_def repr_length val_repr)

end

text \<open>
  \<^verbatim>\<open>std::uint8_t\<close> and, on the little-endian targets the library has backends for,
  \<^verbatim>\<open>std::uint32_t\<close> and \<^verbatim>\<open>std::uint64_t\<close>.
\<close>

interpretation elem_u8: byte_elem 1 "\<lambda>b. [b :: byte]" "\<lambda>bs. bs ! 0"
  by unfold_locales simp_all

interpretation elem_u32: byte_elem 4 "le_encode 4 :: u32 \<Rightarrow> bytes" le_decode
  by unfold_locales (simp_all add: le_decode_encode take_bit_word_eq_self)

interpretation elem_u64: byte_elem 8 "le_encode 8 :: u64 \<Rightarrow> bytes" le_decode
  by unfold_locales (simp_all add: le_decode_encode take_bit_word_eq_self)

section \<open>Properties\<close>

text \<open>
  The overloads never compete: for every byte-viewable type exactly one overload of
  \<^verbatim>\<open>to_byte_vector\<close> and exactly one of \<^verbatim>\<open>from_byte_vector\<close> is enabled, and for any other type
  none is.
\<close>

theorem byte_view_overloads_unambiguous:
  "length (filter id (to_byte_vector_enabled t)) = (if is_byte_viewable t then 1 else 0) \<and>
   length (filter id (from_byte_vector_enabled t)) = (if is_byte_viewable t then 1 else 0)"
  by (auto simp: to_byte_vector_enabled_def from_byte_vector_enabled_def is_byte_viewable_def is_byte_object_def)



end
