(* ===== verification/Key_Lifecycle.thy ===== *)
theory Key_Lifecycle
  imports Secret_Key
begin

text \<open>
  Key objects over time: a program holds a number of \<^verbatim>\<open>SecretKey\<close> objects and moves keys
  between them (\<^verbatim>\<open>src/key.cpp\<close>: move construction, move assignment, destruction). Copying
  is deleted in the class, so these are the ways a key's bytes can travel.
\<close>

section \<open>Steps\<close>

definition destroy :: "secret_key \<Rightarrow> secret_key" where
  "destroy key = wipe key"

text \<open>A new object is built from object \<open>j\<close>; object \<open>i\<close> is assigned from object \<open>j\<close>; object \<open>i\<close> is destroyed.\<close>

inductive key_step :: "secret_key list \<Rightarrow> secret_key list \<Rightarrow> bool" where
  step_construct: "j < length objs \<Longrightarrow> move_construct (objs ! j) = (new, old) \<Longrightarrow>
    key_step objs (objs[j := old] @ [new])"
| step_assign: "i < length objs \<Longrightarrow> j < length objs \<Longrightarrow> i \<noteq> j \<Longrightarrow>
    move_assign False (objs ! i) (objs ! j) = (this, other) \<Longrightarrow> key_step objs (objs[i := this, j := other])"
| step_self: "i < length objs \<Longrightarrow> move_assign True (objs ! i) (objs ! i) = (this, other) \<Longrightarrow>
    key_step objs (objs[i := this])"
| step_destroy: "i < length objs \<Longrightarrow> key_step objs (objs[i := destroy (objs ! i)])"

inductive key_steps :: "secret_key list \<Rightarrow> secret_key list \<Rightarrow> bool" for objs where
  steps_refl: "key_steps objs objs"
| steps_step: "key_steps objs objs1 \<Longrightarrow> key_step objs1 objs2 \<Longrightarrow> key_steps objs objs2"

inductive_cases key_stepE: "key_step objs objs'"

section \<open>Counting copies\<close>

definition copies :: "bytes \<Rightarrow> secret_key list \<Rightarrow> nat" where
  "copies bs objs = length (filter (\<lambda>k. sk_bytes k = bs) objs)"

lemma length_filter_update:
  "i < length xs \<Longrightarrow> length (filter P (xs[i := y])) + (if P (xs ! i) then 1 else 0) =
     length (filter P xs) + (if P y then 1 else 0)"
proof (induction xs arbitrary: i)
  case (Cons x xs)
  then show ?case by (cases i) (simp, use Cons.IH [of "i - 1"] in auto)
qed simp

lemma copies_update:
  "i < length objs \<Longrightarrow> copies bs (objs[i := k]) + (if sk_bytes (objs ! i) = bs then 1 else 0) =
     copies bs objs + (if sk_bytes k = bs then 1 else 0)"
  unfolding copies_def by (rule length_filter_update)

lemma copies_append: "copies bs (xs @ ys) = copies bs xs + copies bs ys"
  by (simp add: copies_def)

lemma wiped_bytes: "key_wf k \<Longrightarrow> sk_bytes (wipe k) = replicate 32 0"
  by (simp add: wipe_def unlock_memory_def key_wf_def map_replicate_const kKeySizeBytes_def)

lemma copies_wiped:
  "i < length objs \<Longrightarrow> key_wf k \<Longrightarrow> bs \<noteq> replicate 32 0 \<Longrightarrow>
   copies bs (objs[i := wipe k]) + (if sk_bytes (objs ! i) = bs then 1 else 0) = copies bs objs"
  using copies_update [of i objs bs "wipe k"] wiped_bytes [of k] by auto

lemma move_construct_parts:
  "move_construct k = (new, old) \<Longrightarrow> key_wf new = key_wf k \<and> key_wf old = key_wf k \<and> sk_bytes new = sk_bytes k \<and> sk_size new = sk_size k \<and>
     sk_gcm_invocations new = sk_gcm_invocations k \<and> sk_locked new \<and> old = wipe k"
  by (auto simp: move_construct_def lock_memory_def) (simp_all add: key_wf_def)

lemma move_assign_parts:
  "move_assign False k1 k2 = (this, other) \<Longrightarrow> key_wf this = key_wf k2 \<and> key_wf other = key_wf k2 \<and> sk_bytes this = sk_bytes k2 \<and> sk_size this = sk_size k2 \<and>
     sk_gcm_invocations this = sk_gcm_invocations k2 \<and> sk_locked this \<and> other = wipe k2"
  by (auto simp: move_assign_def lock_memory_def) (simp_all add: key_wf_def)

lemma key_step_wf:
  assumes "key_step objs objs'" and "\<forall>k \<in> set objs. key_wf k"
  shows "\<forall>k \<in> set objs'. key_wf k"
  using assms
proof (cases rule: key_step.cases)
  case (step_construct j new old)
  then have "key_wf new" "key_wf old"
    using assms(2) move_construct_parts [OF step_construct(3)] nth_mem [of j objs] by auto
  with step_construct assms(2) show ?thesis
    using set_update_subset_insert [of objs j old] by auto
next
  case (step_assign i j this other)
  then have "key_wf this" "key_wf other"
    using assms(2) move_assign_parts [OF step_assign(5)] nth_mem [of j objs] by auto
  with step_assign assms(2) show ?thesis
    using set_update_subset_insert [of "objs[i := this]" j other] set_update_subset_insert [of objs i this] by auto
next
  case (step_self i this other)
  with assms(2) show ?thesis
    by (auto simp: move_assign_def)
next
  case (step_destroy i)
  with assms(2) show ?thesis
    using set_update_subset_insert [of objs i "destroy (objs ! i)"] by (auto simp: destroy_def)
qed

lemma key_step_copies:
  assumes "key_step objs objs'" and "\<forall>k \<in> set objs. key_wf k" and "bs \<noteq> replicate 32 0"
  shows "copies bs objs' \<le> copies bs objs"
  using assms(1)
proof (cases rule: key_step.cases)
  case (step_construct j new old)
  note p = move_construct_parts [OF step_construct(3)]
  have "copies bs (objs[j := old]) + (if sk_bytes (objs ! j) = bs then 1 else 0) = copies bs objs"
    using copies_wiped [OF step_construct(2) _ assms(3)] p assms(2) step_construct(2) by simp
  with p show ?thesis
    by (simp add: step_construct(1) copies_append copies_def split: if_splits)
next
  case (step_assign i j this other)
  note p = move_assign_parts [OF step_assign(5)]
  have "copies bs (objs[i := this, j := other]) + (if sk_bytes (objs ! j) = bs then 1 else 0) =
      copies bs (objs[i := this])"
    using copies_wiped [of j "objs[i := this]" "objs ! j" bs] p assms(2,3) step_assign(2-4) by simp
  with copies_update [OF step_assign(2), of bs this] p show ?thesis
    by (simp add: step_assign(1) split: if_splits)
next
  case (step_self i this other)
  then show ?thesis by (auto simp: move_assign_def)
next
  case (step_destroy i)
  then show ?thesis
    using copies_wiped [of i objs "objs ! i" bs] assms(2,3) by (simp add: destroy_def)
qed

section \<open>Properties\<close>



end
