(* ===== verification/Gcm_Threads.thy ===== *)
theory Gcm_Threads
  imports Gcm_Mode Key_Lifecycle
begin

text \<open>
  Concurrent calls of \<^verbatim>\<open>AesGcm::encrypt\<close> (\<^verbatim>\<open>src/aes_gcm.cpp\<close>) on one key object. The key is
  passed by reference; its invocation counter is a \<^verbatim>\<open>std::atomic\<close>, incremented by
  \<^verbatim>\<open>fetch_add\<close> (\<^verbatim>\<open>src/internal.hpp\<close>). A call is split at the points where it touches what
  the threads share: the increment, and the draw of the nonce. Between two steps of a
  call any other call may run.
\<close>

section \<open>Definitions\<close>

text \<open>
  Where a call is: entered; after the increment, holding the count before it; past the
  limit check; holding its nonce; returned, with the count it got and its result.
\<close>

datatype gcm_call =
    Called bytes bytes
  | Consumed u64 bytes bytes
  | Admitted u64 bytes bytes
  | Nonced u64 bytes bytes bytes
  | Returned "u64 option" "gcm_container res"

text \<open>
  The next step of a call, with the key object and the world it shares. \<open>None\<close>: the call
  has returned, or the random source does not answer.
\<close>

fun gcm_call_step ::
  "'w system \<Rightarrow> platform \<Rightarrow> secret_key \<times> 'w \<times> gcm_call \<Rightarrow> (secret_key \<times> 'w \<times> gcm_call) option" where
  "gcm_call_step os pf (key, w, Called plaintext aad) =
     (case gcm_validate_block_count (length plaintext) of
        Inl e \<Rightarrow> Some (key, w, Returned None (Inl e))
      | Inr _ \<Rightarrow> (case consume_gcm_invocation key of (prior, key) \<Rightarrow> Some (key, w, Consumed prior plaintext aad)))"
| "gcm_call_step os pf (key, w, Consumed prior plaintext aad) =
     (case check_gcm_invocation_count prior of
        Inl e \<Rightarrow> Some (key, w, Returned (Some prior) (Inl e))
      | Inr _ \<Rightarrow> Some (key, w, Admitted prior plaintext aad))"
| "gcm_call_step os pf (key, w, Admitted prior plaintext aad) =
     (case gcm_generate_nonce os w of
        None \<Rightarrow> None
      | Some (Inl e, w) \<Rightarrow> Some (key, w, Returned (Some prior) (Inl e))
      | Some (Inr nonce, w) \<Rightarrow> Some (key, w, Nonced prior nonce plaintext aad))"
| "gcm_call_step os pf (key, w, Nonced prior nonce plaintext aad) =
     Some (key, w, Returned (Some prior)
       (res_bind (gcm_apply_keystream pf key nonce plaintext) (\<lambda>ciphertext.
        res_bind (compute_tag pf key nonce aad ciphertext) (\<lambda>tag.
          Inr \<lparr>gc_nonce = nonce, gc_tag = tag, gc_ciphertext = ciphertext\<rparr>))))"
| "gcm_call_step os pf (key, w, Returned prior r) = None"

text \<open>One step of one of the calls.\<close>

inductive gcm_threads_step ::
  "'w system \<Rightarrow> platform \<Rightarrow> secret_key \<times> 'w \<times> gcm_call list \<Rightarrow> secret_key \<times> 'w \<times> gcm_call list \<Rightarrow> bool"
  for os pf where
  "i < length calls \<Longrightarrow> gcm_call_step os pf (key, w, calls ! i) = Some (key', w', c) \<Longrightarrow>
     gcm_threads_step os pf (key, w, calls) (key', w', calls[i := c])"

inductive gcm_threads_reach ::
  "'w system \<Rightarrow> platform \<Rightarrow> secret_key \<times> 'w \<times> gcm_call list \<Rightarrow> secret_key \<times> 'w \<times> gcm_call list \<Rightarrow> bool"
  for os pf s where
  threads_refl: "gcm_threads_reach os pf s s"
| threads_step: "gcm_threads_reach os pf s s1 \<Longrightarrow> gcm_threads_step os pf s1 s2 \<Longrightarrow> gcm_threads_reach os pf s s2"

inductive_cases gcm_threads_stepE: "gcm_threads_step os pf (key, w, calls) s'"

fun call_prior :: "gcm_call \<Rightarrow> u64 option" where
  "call_prior (Called p a) = None"
| "call_prior (Consumed n p a) = Some n"
| "call_prior (Admitted n p a) = Some n"
| "call_prior (Nonced n nonce p a) = Some n"
| "call_prior (Returned n r) = n"

text \<open>A call that has passed the limit check, as far as its state tells.\<close>

fun call_admitted :: "gcm_call \<Rightarrow> bool" where
  "call_admitted (Admitted n p a) = True"
| "call_admitted (Nonced n nonce p a) = True"
| "call_admitted (Returned n (Inr c)) = True"
| "call_admitted c = False"

section \<open>A call that runs alone\<close>

text \<open>Taken without interleaving, the steps of a call are \<^verbatim>\<open>AesGcm::encrypt\<close>.\<close>

fun gcm_call_run :: "'w system \<Rightarrow> platform \<Rightarrow> nat \<Rightarrow> secret_key \<times> 'w \<times> gcm_call \<Rightarrow> (secret_key \<times> 'w \<times> gcm_call) option" where
  "gcm_call_run os pf 0 s = Some s"
| "gcm_call_run os pf (Suc n) (key, w, Returned prior r) = Some (key, w, Returned prior r)"
| "gcm_call_run os pf (Suc n) s = (case gcm_call_step os pf s of None \<Rightarrow> None | Some s' \<Rightarrow> gcm_call_run os pf n s')"

lemma gcm_call_run_encrypt:
  "map_option (\<lambda>(key, w, c). (key, w, case c of Returned prior r \<Rightarrow> Some r | _ \<Rightarrow> None))
     (gcm_call_run os pf 4 (key, w, Called plaintext aad)) =
   map_option (\<lambda>(r, key, w). (key, w, Some r)) (gcm_encrypt os pf key plaintext aad w)"
  by (auto simp: numeral_eq_Suc gcm_encrypt_def consume_gcm_invocation_def split: sum.split option.split)

section \<open>The invariant\<close>

text \<open>
  The counter is the start value plus the number of calls that have incremented it; the
  counts these calls hold are pairwise different and below it; a call past the check
  holds a count below the limit.
\<close>

definition consumed :: "gcm_call list \<Rightarrow> nat" where
  "consumed calls = length (filter (\<lambda>c. call_prior c \<noteq> None) calls)"

definition threads_inv :: "nat \<Rightarrow> nat \<Rightarrow> secret_key \<times> 'w \<times> gcm_call list \<Rightarrow> bool" where
  "threads_inv c0 n = (\<lambda>(key, w, calls). length calls = n \<and>
     unat (sk_gcm_invocations key) = c0 + consumed calls \<and>
     (\<forall>i < n. \<forall>p. call_prior (calls ! i) = Some p \<longrightarrow> c0 \<le> unat p \<and> unat p < c0 + consumed calls) \<and>
     (\<forall>i < n. \<forall>j < n. i \<noteq> j \<longrightarrow> call_prior (calls ! i) \<noteq> None \<longrightarrow> call_prior (calls ! i) \<noteq> call_prior (calls ! j)) \<and>
     (\<forall>i < n. call_admitted (calls ! i) \<longrightarrow> (\<exists>p. call_prior (calls ! i) = Some p \<and> unat p < 2 ^ 32)))"

lemma threads_invD:
  assumes "threads_inv c0 n (key, w, calls)"
  shows "length calls = n" "unat (sk_gcm_invocations key) = c0 + consumed calls"
    "i < n \<Longrightarrow> call_prior (calls ! i) = Some p \<Longrightarrow> c0 \<le> unat p \<and> unat p < c0 + consumed calls"
    "i < n \<Longrightarrow> j < n \<Longrightarrow> i \<noteq> j \<Longrightarrow> call_prior (calls ! i) \<noteq> None \<Longrightarrow> call_prior (calls ! i) \<noteq> call_prior (calls ! j)"
    "i < n \<Longrightarrow> call_admitted (calls ! i) \<Longrightarrow> \<exists>p. call_prior (calls ! i) = Some p \<and> unat p < 2 ^ 32"
  using assms unfolding threads_inv_def by (blast+)

text \<open>A step keeps the count a call holds, or it is the increment.\<close>

lemma gcm_call_step_shape:
  assumes "gcm_call_step os pf (key, w, c) = Some (key', w', c')"
  shows "sk_gcm_invocations key' = sk_gcm_invocations key \<and> call_prior c' = call_prior c \<and>
      (call_admitted c' \<longrightarrow> call_admitted c \<or> (\<exists>p. call_prior c = Some p \<and> unat p < 2 ^ 32)) \<or>
    call_prior c = None \<and> call_prior c' = Some (sk_gcm_invocations key) \<and>
      sk_gcm_invocations key' = sk_gcm_invocations key + 1 \<and> \<not> call_admitted c'"
  using assms
  by (cases c) (auto simp: consume_gcm_invocation_def check_gcm_invocation_iff split: sum.splits option.splits)

lemma consumed_update:
  "i < length calls \<Longrightarrow> consumed (calls[i := c]) + (if call_prior (calls ! i) \<noteq> None then 1 else 0) =
     consumed calls + (if call_prior c \<noteq> None then 1 else 0)"
  unfolding consumed_def by (rule length_filter_update)

lemma consumed_le: "i < length calls \<Longrightarrow> call_prior (calls ! i) = None \<Longrightarrow> consumed calls < length calls"
  unfolding consumed_def by (intro length_filter_less [of "calls ! i"]) simp_all

lemma threads_inv_keep:
  assumes "threads_inv c0 n (key, w, calls)" and "i < length calls"
    and "sk_gcm_invocations key' = sk_gcm_invocations key" and "call_prior c = call_prior (calls ! i)"
    and "call_admitted c \<longrightarrow> call_admitted (calls ! i) \<or> (\<exists>p. call_prior (calls ! i) = Some p \<and> unat p < 2 ^ 32)"
  shows "threads_inv c0 n (key', w', calls[i := c])"
proof -
  have "consumed (calls[i := c]) = consumed calls"
    using consumed_update [OF assms(2), of c] assms(4) by simp
  with assms show ?thesis
    unfolding threads_inv_def by (auto simp: nth_list_update)
qed

lemma threads_inv_consume:
  assumes inv: "threads_inv c0 n (key, w, calls)" and i: "i < length calls" and "c0 + n < 2 ^ 64"
    and "call_prior (calls ! i) = None" and c: "call_prior c = Some (sk_gcm_invocations key)" "\<not> call_admitted c"
    and "sk_gcm_invocations key' = sk_gcm_invocations key + 1"
  shows "threads_inv c0 n (key', w', calls[i := c])"
proof -
  have k: "consumed (calls[i := c]) = consumed calls + 1"
    using consumed_update [OF i, of c] assms(4) c by simp
  have n: "length calls = n" "unat (sk_gcm_invocations key) = c0 + consumed calls"
    using threads_invD(1,2) [OF inv] by simp_all
  have "unat (sk_gcm_invocations key') = c0 + consumed calls + 1"
    using consumed_le [OF i assms(4)] n assms(3,7) by (simp add: unat_add_1)
  moreover have fresh: "call_prior (calls ! j) \<noteq> Some (sk_gcm_invocations key)" if "j < n" for j
  proof
    assume "call_prior (calls ! j) = Some (sk_gcm_invocations key)"
    from threads_invD(3) [OF inv that this] n show False by simp
  qed
  moreover note fresh [symmetric]
  ultimately show ?thesis
    using inv k n c i unfolding threads_inv_def by (auto simp: nth_list_update less_Suc_eq)
qed

lemma threads_inv_step:
  assumes "threads_inv c0 n s" and "c0 + n < 2 ^ 64" and "gcm_threads_step os pf s s'"
  shows "threads_inv c0 n s'"
  using assms(3)
proof cases
  case (1 i calls key w key' w' c)
  have inv: "threads_inv c0 n (key, w, calls)" using assms(1) 1(1) by simp
  from gcm_call_step_shape [OF 1(4)] show ?thesis
  proof (elim disjE conjE)
    assume "sk_gcm_invocations key' = sk_gcm_invocations key" "call_prior c = call_prior (calls ! i)"
      "call_admitted c \<longrightarrow> call_admitted (calls ! i) \<or> (\<exists>p. call_prior (calls ! i) = Some p \<and> unat p < 2 ^ 32)"
    then show ?thesis unfolding 1(2) by (rule threads_inv_keep [OF inv 1(3)])
  next
    assume "call_prior (calls ! i) = None" "call_prior c = Some (sk_gcm_invocations key)"
      "sk_gcm_invocations key' = sk_gcm_invocations key + 1" "\<not> call_admitted c"
    then show ?thesis unfolding 1(2) by (intro threads_inv_consume [OF inv 1(3) assms(2)])
  qed
qed

lemma threads_inv_reach:
  assumes "gcm_threads_reach os pf s s'" and "threads_inv c0 n s" and "c0 + n < 2 ^ 64"
  shows "threads_inv c0 n s'"
  using assms(1) by induction (use assms threads_inv_step in blast)+

lemma threads_inv_start:
  assumes "\<forall>c \<in> set calls. \<exists>p a. c = Called p a"
  shows "threads_inv (unat (sk_gcm_invocations key)) (length calls) (key, w, calls)"
proof -
  have "call_prior c = None \<and> \<not> call_admitted c" if "c \<in> set calls" for c
    using assms that by fastforce
  then show ?thesis
    by (auto simp: threads_inv_def consumed_def)
qed

lemma admitted_card:
  assumes "threads_inv c0 n (key, w, calls)"
  shows "card {i. i < n \<and> call_admitted (calls ! i)} \<le> 2 ^ 32 - c0"
proof -
  let ?A = "{i. i < n \<and> call_admitted (calls ! i)}" and ?f = "\<lambda>i. unat (the (call_prior (calls ! i)))"
  have p: "\<exists>p. call_prior (calls ! i) = Some p \<and> c0 \<le> unat p \<and> unat p < 2 ^ 32" if "i \<in> ?A" for i
    using that threads_invD(3,5) [OF assms, of i] by fastforce
  have "inj_on ?f ?A"
  proof (rule inj_onI)
    fix i j
    assume ij: "i \<in> ?A" "j \<in> ?A" "?f i = ?f j"
    obtain a b where "call_prior (calls ! i) = Some a" "call_prior (calls ! j) = Some b"
      using p [OF ij(1)] p [OF ij(2)] by blast
    with threads_invD(4) [OF assms, of i j] ij show "i = j"
      by (cases "i = j") (auto dest: unsigned_word_eqI)
  qed
  moreover have "?f ` ?A \<subseteq> {c0..<2 ^ 32}"
    using p by fastforce
  ultimately have "card ?A \<le> card {c0..<2 ^ 32}"
    by (intro card_inj_on_le [of ?f]) simp_all
  then show ?thesis by simp
qed

section \<open>Properties\<close>

text \<open>
  C11. The per-key limit holds for concurrent calls. Any number of calls of
  \<^verbatim>\<open>AesGcm::encrypt\<close> on one key object, interleaved in any way, as long as they do not
  overflow the 64-bit counter: no increment is lost, no two calls ever hold the same
  count, and the number of calls that have passed the limit check is at most what the
  start value of the counter leaves of \<open>2 ^ 32\<close>.
\<close>

theorem gcm_limit_under_interleaving:
  assumes "\<forall>c \<in> set calls. \<exists>plaintext aad. c = Called plaintext aad"
    and "unat (sk_gcm_invocations key) + length calls < 2 ^ 64"
    and "gcm_threads_reach os pf (key, w, calls) (key', w', calls')"
  shows "unat (sk_gcm_invocations key') = unat (sk_gcm_invocations key) + consumed calls' \<and>
    (\<forall>i j. i < j \<and> j < length calls \<and> call_prior (calls' ! i) \<noteq> None \<longrightarrow>
      call_prior (calls' ! i) \<noteq> call_prior (calls' ! j)) \<and>
    card {i. i < length calls \<and> call_admitted (calls' ! i)} \<le> 2 ^ 32 - unat (sk_gcm_invocations key)"
proof -
  have inv: "threads_inv (unat (sk_gcm_invocations key)) (length calls) (key', w', calls')"
    by (rule threads_inv_reach [OF assms(3) threads_inv_start [OF assms(1)] assms(2)])
  show ?thesis
    using threads_invD(2) [OF inv] threads_invD(4) [OF inv] admitted_card [OF inv] by simp
qed

theorem gcm_limit_under_interleaving_witness:
  "\<exists>key' calls'. gcm_threads_reach mem_posix (x86_platform 0 None)
      (SecretKey\<lparr>sk_gcm_invocations := 2 ^ 32 - 1\<rparr>, mem_start, [Called [1] [], Called [2] []]) (key', mem_start, calls') \<and>
    calls' = [Consumed (2 ^ 32) [1] [], Consumed (2 ^ 32 - 1) [2] []] \<and>
    unat (sk_gcm_invocations key') = 2 ^ 32 + 1 \<and> card {i. i < 2 \<and> call_admitted (calls' ! i)} \<le> 1"
proof -
  let ?pf = "x86_platform 0 None" and ?k = "\<lambda>n. SecretKey\<lparr>sk_gcm_invocations := n\<rparr>"
  let ?c0 = "[Called [1] [], Called [2] []]" and ?c1 = "[Called [1] [], Consumed (2 ^ 32 - 1) [2] []]"
  let ?c2 = "[Consumed (2 ^ 32) [1] [], Consumed (2 ^ 32 - 1) [2] []]"
  have v: "gcm_validate_block_count (Suc 0) = Inr ()" using gcm_validate_iff [of 1] by simp
  have "gcm_threads_step mem_posix ?pf (?k (2 ^ 32 - 1), mem_start, ?c0) (?k (2 ^ 32), mem_start, ?c1)"
    using gcm_threads_step.intros [of 1 ?c0 mem_posix ?pf "?k (2 ^ 32 - 1)" mem_start]
    by (simp add: v consume_gcm_invocation_def)
  moreover have "gcm_threads_step mem_posix ?pf (?k (2 ^ 32), mem_start, ?c1) (?k (2 ^ 32 + 1), mem_start, ?c2)"
    using gcm_threads_step.intros [of 0 ?c1 mem_posix ?pf "?k (2 ^ 32)" mem_start]
    by (simp add: v consume_gcm_invocation_def)
  ultimately have r: "gcm_threads_reach mem_posix ?pf (?k (2 ^ 32 - 1), mem_start, ?c0) (?k (2 ^ 32 + 1), mem_start, ?c2)"
    by (blast intro: threads_refl threads_step)
  have l: "length ?c0 = 2" by simp
  have "card {i. i < 2 \<and> call_admitted (?c2 ! i)} \<le> 1"
    using gcm_limit_under_interleaving [OF _ _ r, unfolded l] by simp
  with r show ?thesis by (intro exI [of _ "?k (2 ^ 32 + 1)"] exI [of _ ?c2]) simp
qed

end
