(* ===== verification/Win32_Files.thy ===== *)
theory Win32_Files
  imports Key_Storage
begin

text \<open>
  What is particular to the Windows branches of \<^verbatim>\<open>src/container.cpp\<close>, \<^verbatim>\<open>src/key.cpp\<close> and
  \<^verbatim>\<open>src/key_storage.cpp\<close>: the refusal of reparse points, and the single \<^verbatim>\<open>WriteFile\<close> whose
  length is a 32-bit \<^verbatim>\<open>DWORD\<close>. What the branches share with POSIX is shown with the functions.
\<close>

section \<open>A complete write\<close>

text \<open>The count is a \<^verbatim>\<open>DWORD\<close>, so a write of \<open>2 ^ 32\<close> bytes or more is never complete.\<close>

lemma w32_write_all_iff:
  "fst (w32_write_all os h data w) \<longleftrightarrow>
     length data < 2 ^ 32 \<and> (\<exists>w'. w32_WriteFile os h data w = (True, of_nat (length data), w'))"
proof (cases "length data < 2 ^ 32")
  case True
  then have n: "unat (of_nat (length data) :: u32) = length data"
    by (simp add: unsigned_of_nat take_bit_nat_eq_self)
  obtain r c w' where c: "w32_WriteFile os h data w = (r, c, w')" by (cases "w32_WriteFile os h data w")
  have "unat c = length data \<longleftrightarrow> c = of_nat (length data)"
    using n by (metis unsigned_word_eqI)
  with True n c show ?thesis by (auto simp: w32_write_all_def)
next
  case False
  have "unat c \<noteq> length data" for c :: u32
    using False unsigned_less [of c, where 'a = nat] by auto
  with False show ?thesis by (simp add: w32_write_all_def split: prod.split)
qed

section \<open>Reparse points\<close>

text \<open>
  A reparse point that the attribute query reports is refused by each of the three
  writers: the handle is closed and nothing has been written through it.
\<close>

lemma win32_writers_refuse:
  assumes "sys_target os = OsWindows" and "w32_create_wr os path w = (Some h, w1)"
    and "w32_file_information os h w1 = (Some attributes, w2)" and "attributes AND 0x400 \<noteq> 0"
  shows "\<exists>m. write_file os path data w = Some (Inl (IoError m), w32_CloseHandle os h w2)"
    "\<exists>m. save_to_file os key path w = Some (Inl (IoError m), w32_CloseHandle os h w2)"
    "\<exists>m. write_wrapped_file os path part tag w = Some (Inl (IoError m), w32_CloseHandle os h w2)"
proof -
  have "w32_is_reparse_point os h w1 = (True, w2)"
    using assms(3,4) by (simp add: w32_is_reparse_point_def kFileAttributeReparsePoint_def)
  with assms(1,2) show "\<exists>m. write_file os path data w = Some (Inl (IoError m), w32_CloseHandle os h w2)"
    "\<exists>m. save_to_file os key path w = Some (Inl (IoError m), w32_CloseHandle os h w2)"
    "\<exists>m. write_wrapped_file os path part tag w = Some (Inl (IoError m), w32_CloseHandle os h w2)"
    by (simp_all add: write_file_def write_file_win32_def save_to_file_def save_to_file_win32_def
        write_wrapped_file_def write_wrapped_win32_def)
qed

section \<open>Properties\<close>

text \<open>
  C29. The verdict of \<^verbatim>\<open>write_file\<close> on Windows. It throws \<^verbatim>\<open>IoError\<close> or succeeds, and it
  succeeds exactly when the file could be created, the attribute query did not report a
  reparse point (a query that fails lets the write go on), and the data is empty or is
  shorter than \<open>2 ^ 32\<close> bytes and one \<^verbatim>\<open>WriteFile\<close> took all of it. So no file of 4 GiB or
  more can be written, although the container format and the modes allow 64 GiB.
\<close>

theorem win32_write_file_verdict:
  assumes "sys_target os = OsWindows"
  shows "(\<exists>r w'. write_file os path data w = Some (r, w') \<and> (r = Inr () \<or> (\<exists>m. r = Inl (IoError m)))) \<and>
    ((\<exists>w'. write_file os path data w = Some (Inr (), w')) \<longleftrightarrow>
      (\<exists>h w1 info w2. w32_create_wr os path w = (Some h, w1) \<and> w32_file_information os h w1 = (info, w2) \<and>
        (\<forall>attributes. info = Some attributes \<longrightarrow> attributes AND 0x400 = 0) \<and>
        (data = [] \<or> length data < 2 ^ 32 \<and>
          (\<exists>w3. w32_WriteFile os h data w2 = (True, of_nat (length data), w3)))))"
    (is "_ \<and> (?ok \<longleftrightarrow> ?R)")
proof
  show "\<exists>r w'. write_file os path data w = Some (r, w') \<and> (r = Inr () \<or> (\<exists>m. r = Inl (IoError m)))"
    using write_file_win32_returns assms by (simp add: write_file_def)
  show "?ok \<longleftrightarrow> ?R"
  proof (cases "w32_create_wr os path w")
    case (Pair ho w1)
    show ?thesis
    proof (cases ho)
      case None
      with Pair assms show ?thesis by (simp add: write_file_def write_file_win32_def)
    next
      case (Some h)
      obtain info w2 where i: "w32_file_information os h w1 = (info, w2)" by fastforce
      have r: "w32_is_reparse_point os h w1 =
          (\<not> (\<forall>attributes. info = Some attributes \<longrightarrow> attributes AND 0x400 = 0), w2)"
        using i by (cases info) (simp_all add: w32_is_reparse_point_def kFileAttributeReparsePoint_def)
      obtain ok w3 where a: "w32_write_all os h data w2 = (ok, w3)" by fastforce
      have "ok \<longleftrightarrow> length data < 2 ^ 32 \<and> (\<exists>w3. w32_WriteFile os h data w2 = (True, of_nat (length data), w3))"
        using w32_write_all_iff [of os h data w2] a by simp
      with Pair Some i r a assms show ?thesis
        by (auto simp: write_file_def write_file_win32_def Let_def)
    qed
  qed
qed

theorem win32_write_file_verdict_witness:
  "(\<exists>w'. write_file mem_win32 ''f'' [1, 2, 3] mem_start = Some (Inr (), w')) \<and>
   \<not> (\<exists>w'. write_file mem_win32 ''f'' (replicate (2 ^ 32) 7) mem_start = Some (Inr (), w')) \<and>
   \<not> (\<exists>w'. write_file (mem_win32\<lparr>w32_file_information := (\<lambda>h w. (Some 0x420, w))\<rparr>) ''f'' [1, 2, 3] mem_start =
       Some (Inr (), w'))"
proof (intro conjI)
  show "\<exists>w'. write_file mem_win32 ''f'' [1, 2, 3] mem_start = Some (Inr (), w')"
    unfolding conjunct2 [OF win32_write_file_verdict [OF mem_target(2)]]
    by (simp add: mem_win32_def mem_posix_def mem_start_def)
  show "\<not> (\<exists>w'. write_file mem_win32 ''f'' (replicate (2 ^ 32) 7) mem_start = Some (Inr (), w'))"
    unfolding conjunct2 [OF win32_write_file_verdict [OF mem_target(2)]] length_replicate by simp
  have t: "sys_target (mem_win32\<lparr>w32_file_information := (\<lambda>h w. (Some 0x420, w))\<rparr>) = OsWindows" by simp
  show "\<not> (\<exists>w'. write_file (mem_win32\<lparr>w32_file_information := (\<lambda>h w. (Some 0x420, w))\<rparr>) ''f'' [1, 2, 3]
      mem_start = Some (Inr (), w'))"
    unfolding conjunct2 [OF win32_write_file_verdict [OF t]] by simp
qed

end
