(* ===== verification/Key_Scratch.thy ===== *)
theory Key_Scratch
  imports Key_Storage Key_Lifecycle
begin

text \<open>
  The secret scratch buffers of \<^verbatim>\<open>src/key_storage.cpp\<close> and the scope guard
  \<^verbatim>\<open>ScopedWipe\<close> of \<^verbatim>\<open>src/internal.hpp\<close>. The functions of \<open>Key_Storage\<close> are run again with
  a record of what each buffer holds when its scope has been left, by a return or by an
  exception that unwinds it. A buffer that has not been constructed yet is \<open>None\<close>.
\<close>

section \<open>Definitions\<close>

text \<open>The destructor of a guard over a whole buffer.\<close>

definition scoped_wipe :: "bytes \<Rightarrow> bytes" where
  "scoped_wipe data = secure_wipe data (length data)"

record save_scratch =
  ss_derived :: "bytes option"
  ss_wrap_key :: "bytes option"
  ss_plaintext_key :: "bytes option"
  ss_mac_key :: "bytes option"

definition save_none :: save_scratch where
  "save_none = \<lparr>ss_derived = None, ss_wrap_key = None, ss_plaintext_key = None, ss_mac_key = None\<rparr>"

text \<open>
  \<^verbatim>\<open>derived\<close> and \<^verbatim>\<open>mac_key_array\<close> are guarded, \<^verbatim>\<open>wrap_key\<close> is a key object that wipes itself;
  \<^verbatim>\<open>plaintext_key\<close> is a plain vector, wiped by a statement after the encryption.
\<close>

definition save_to_file_encrypted_run ::
  "'w system \<Rightarrow> platform \<Rightarrow> secret_key \<Rightarrow> string \<Rightarrow> bytes \<Rightarrow> u32 \<Rightarrow> 'w \<Rightarrow>
   (unit res \<times> save_scratch \<times> 'w) option" where
  "save_to_file_encrypted_run os pf key path passphrase iterations w =
     (let key_len = key_size_bytes key
      in if iterations < kMinPbkdf2Iterations then
           Some (Inl (LimitError (''PBKDF2 iteration count must be at least '' @
             to_string (unat kMinPbkdf2Iterations))), save_none, w)
         else
           (case fill_random os kSaltSize w of
              None \<Rightarrow> None
            | Some (Inl e, w) \<Rightarrow> Some (Inl e, save_none, w)
            | Some (Inr salt, w) \<Rightarrow>
           (case pbkdf2_hmac_sha256 passphrase salt iterations of
              None \<Rightarrow> None
            | Some derived \<Rightarrow>
           let wrap_key = SecretKey\<lparr>sk_bytes := take kKeySizeBytes derived\<rparr>;
               scratch = save_none\<lparr>ss_derived := Some (scoped_wipe derived),
                 ss_wrap_key := Some (sk_bytes (destroy wrap_key))\<rparr>
           in case fill_random os kNonceSize w of
              None \<Rightarrow> None
            | Some (Inl e, w) \<Rightarrow> Some (Inl e, scratch, w)
            | Some (Inr nonce, w) \<Rightarrow>
           let plaintext_key = take key_len (key_bytes key)
           in case ctr_encrypt os pf wrap_key plaintext_key w of
              None \<Rightarrow> None
            | Some (Inl e, w) \<Rightarrow> Some (Inl e, scratch\<lparr>ss_plaintext_key := Some plaintext_key\<rparr>, w)
            | Some (Inr wrapped_container, w) \<Rightarrow>
           let plaintext_key = secure_wipe plaintext_key (length plaintext_key);
               scratch = scratch\<lparr>ss_plaintext_key := Some plaintext_key\<rparr>
           in if length (ct_ciphertext wrapped_container) \<noteq> key_len then
                Some (Inl (IoError ''internal: wrapped key ciphertext size mismatch''), scratch, w)
              else
           let plaintext_part = wrapped_part key_len salt iterations
                 (ct_nonce wrapped_container) (ct_ciphertext wrapped_container)
           in if length plaintext_part \<noteq> kWrappedKeyOffset + key_len then
                Some (Inl (IoError ''internal: wrapped key file layout error''), scratch, w)
              else
           let mac_key_array = take kKeySizeBytes (drop kKeySizeBytes derived);
               tag = hmac_sha256 mac_key_array plaintext_part;
               mac_key_array = secure_wipe mac_key_array (length mac_key_array);
               derived = secure_wipe derived (length derived);
               scratch = scratch\<lparr>ss_derived := Some (scoped_wipe derived),
                 ss_mac_key := Some (scoped_wipe mac_key_array)\<rparr>
           in case write_wrapped_file os path plaintext_part tag w of
                None \<Rightarrow> None
              | Some (r, w) \<Rightarrow> Some (r, scratch, w))))"

record load_scratch =
  ls_derived :: "bytes option"
  ls_mac_key :: "bytes option"
  ls_wrap_key :: "bytes option"
  ls_decrypted :: "bytes option"

text \<open>\<^verbatim>\<open>load_from_file_encrypted\<close> from the key derivation on; all buffers are guarded.\<close>

definition unwrap_verify_run ::
  "platform \<Rightarrow> bytes \<Rightarrow> bytes \<Rightarrow> byte \<Rightarrow> bytes \<Rightarrow> u32 \<Rightarrow> bytes \<Rightarrow> bytes \<Rightarrow> bytes \<Rightarrow>
   (secret_key res \<times> load_scratch) option" where
  "unwrap_verify_run pf passphrase file_data size_marker salt iterations nonce wrapped_ciphertext stored_tag =
     (let key_len = unat size_marker
      in case pbkdf2_hmac_sha256 passphrase salt iterations of
           None \<Rightarrow> None
         | Some derived \<Rightarrow>
             let mac_key_array = take kKeySizeBytes (drop kKeySizeBytes derived);
                 scratch = \<lparr>ls_derived = Some (scoped_wipe derived), ls_mac_key = Some (scoped_wipe mac_key_array),
                   ls_wrap_key = None, ls_decrypted = None\<rparr>;
                 computed_tag = hmac_sha256 mac_key_array (take (kWrappedKeyOffset + key_len) file_data)
             in if \<not> constant_time_equal computed_tag stored_tag kTagSize then
                  Some (Inl (AuthenticationError (''encrypted key file '' @
                    ''authentication failed: wrong passphrase or corrupted file'')), scratch)
                else
                  let wrap_key = SecretKey\<lparr>sk_bytes := take kKeySizeBytes derived\<rparr>;
                      scratch = scratch\<lparr>ls_wrap_key := Some (sk_bytes (destroy wrap_key))\<rparr>;
                      wrapped_container = \<lparr>ct_nonce = nonce, ct_ciphertext = wrapped_ciphertext\<rparr>
                  in case ctr_decrypt pf wrap_key wrapped_container of
                       Inl e \<Rightarrow> Some (Inl e, scratch)
                     | Inr decrypted_bytes \<Rightarrow>
                         let scratch = scratch\<lparr>ls_decrypted := Some (scoped_wipe decrypted_bytes)\<rparr>
                         in if length decrypted_bytes \<noteq> key_len then
                              Some (Inl (FormatError ''encrypted key file: decrypted key has wrong size''), scratch)
                            else
                              let result = SecretKey\<lparr>sk_size := key_size_cast size_marker\<rparr>
                              in Some (Inr (result\<lparr>sk_bytes := decrypted_bytes @ drop key_len (sk_bytes result)\<rparr>),
                                   scratch))"

section \<open>The runs are the functions\<close>

text \<open>Forgetting the scratch record gives the functions of \<open>Key_Storage\<close>.\<close>

lemma save_run_result:
  "map_option (\<lambda>(r, s, w). (r, w)) (save_to_file_encrypted_run os pf key path passphrase iterations w) =
     save_to_file_encrypted os pf key path passphrase iterations w"
  unfolding save_to_file_encrypted_run_def save_to_file_encrypted_def Let_def io_bind_def io_option_def
  by (simp split: option.split sum.split prod.split)

lemma unwrap_verify_result:
  assumes "length salt = 16" and "length nonce = 12" and "length ct = key_size_value sz" and "length tag = 32"
    and "1000 \<le> it" and "it \<le> 50000000"
  defines "f \<equiv> wrapped_part (key_size_value sz) salt it nonce ct @ tag"
  shows "map_option fst (unwrap_verify_run pf passphrase f (of_nat (key_size_value sz)) salt it nonce ct tag) =
    unwrap_key pf passphrase f"
proof -
  have b: "\<not> (it < 1000 \<or> 50000000 < it)" using assms(5,6) by (simp add: not_less)
  have E: "constant_time_equal (hmac_sha256 k m) tag 32 \<longleftrightarrow> hmac_sha256 k m = tag" for k m
    using assms(4) by (intro constant_time_equal_iff) simp_all
  have L: "take (kWrappedKeyOffset + key_size_value sz) f = wrapped_part (key_size_value sz) salt it nonce ct"
    using wrapped_fields(10) [OF assms(1-4), of it] by (simp add: f_def layout_defs)
  show ?thesis
    unfolding f_def unwrap_key_fields [OF assms(1-4)] unfolding f_def [symmetric]
    unfolding unwrap_verify_run_def unwrap_fields_def Let_def size_marker_roundtrip L if_not_P [OF b]
    by (auto simp: E kTagSize_def kKeySizeBytes_def wrap_key_from_bytes [unfolded kKeySizeBytes_def]
        key_from_bytes_def Let_def split: option.split sum.split)
qed

section \<open>What is left in the buffers\<close>

definition wiped :: "bytes option \<Rightarrow> bool" where
  "wiped b = (case b of None \<Rightarrow> True | Some bs \<Rightarrow> list_all (\<lambda>x. x = 0) bs)"

lemma wiped_simps [simp]:
  "wiped None" "wiped (Some (scoped_wipe data))" "wiped (Some (secure_wipe data (length data)))"
  "wiped (Some (sk_bytes (destroy key)))"
  by (simp_all add: wiped_def scoped_wipe_def secure_wipe_zero list_all_iff destroy_def wipe_def unlock_memory_def)

lemma wiped_take [simp]: "wiped (Some (secure_wipe (take n data) (min (length data) n)))"
  using wiped_simps(3) [of "take n data"] by simp

lemma save_none_wiped [simp]:
  "wiped (ss_derived save_none)" "wiped (ss_wrap_key save_none)" "wiped (ss_plaintext_key save_none)"
  "wiped (ss_mac_key save_none)"
  by (simp_all add: save_none_def)

text \<open>The guarded buffers of a save, and the vector.\<close>

lemma save_run_guarded:
  assumes "save_to_file_encrypted_run os pf key path passphrase iterations w = Some (r, s, w')"
  shows "wiped (ss_derived s) \<and> wiped (ss_wrap_key s) \<and> wiped (ss_mac_key s)"
  using assms unfolding save_to_file_encrypted_run_def Let_def
  by (auto split: if_splits option.splits sum.splits)

lemma save_run_vector:
  assumes "save_to_file_encrypted_run os pf key path passphrase iterations w = Some (r, s, w')"
  shows "wiped (ss_plaintext_key s) \<or>
    ss_plaintext_key s = Some (take (key_size_bytes key) (sk_bytes key)) \<and>
    (\<exists>e wrap_key w0. r = Inl e \<and>
      ctr_encrypt os pf wrap_key (take (key_size_bytes key) (sk_bytes key)) w0 = Some (Inl e, w'))"
  using assms unfolding save_to_file_encrypted_run_def Let_def key_bytes_def
  by (auto split: if_splits option.splits sum.splits) blast

lemma unwrap_run_wiped:
  assumes "unwrap_verify_run pf passphrase file_data size_marker salt iterations nonce ct tag = Some (r, s)"
  shows "wiped (ls_derived s) \<and> wiped (ls_mac_key s) \<and> wiped (ls_wrap_key s) \<and> wiped (ls_decrypted s)"
  using assms unfolding unwrap_verify_run_def Let_def
  by (auto split: if_splits option.splits sum.splits)

text \<open>If the nonce of the encryption cannot be drawn, the raw key stays in the vector.\<close>

lemma save_run_leak:
  assumes "random_documented os" and "1000 \<le> it" and "it \<noteq> - 1" and "fill_random os 16 w = Some (Inr salt, w1)"
    and "fill_random os 12 w1 = Some (Inr nonce, w2)" and "fill_random os 12 w2 = Some (Inl e, w3)"
  shows "\<exists>s. save_to_file_encrypted_run os pf key path passphrase it w = Some (Inl e, s, w3) \<and>
    ss_plaintext_key s = Some (take (key_size_bytes key) (sk_bytes key))"
proof -
  have "validate_block_count (length (take (key_size_bytes key) (sk_bytes key))) = Inr ()"
    using key_size_value_le [of "sk_size key"]
    by (intro iffD2 [OF validate_block_count_iff]) (auto simp: key_size_bytes_def kKeySizeBytes_def)
  then have "ctr_encrypt os pf k (take (key_size_bytes key) (sk_bytes key)) w2 = Some (Inl e, w3)" for k
    using assms(6) by (simp add: ctr_encrypt_def generate_nonce_def kNonceSizeBytes_def)
  moreover have "it \<noteq> 0" using assms(2) by auto
  moreover from this obtain d where "pbkdf2_hmac_sha256 passphrase salt it = Some d"
    using pbkdf2_hmac_sha256_F [of it passphrase salt] assms(3) by auto
  ultimately show ?thesis
    using assms(2,4,5) leD [OF assms(2)] unfolding save_to_file_encrypted_run_def Let_def key_bytes_def
    by (simp add: kMinPbkdf2Iterations_def kSaltSize_def kNonceSize_def)
qed

text \<open>A Windows system whose third draw of random bytes fails.\<close>

definition third_draw_fails :: "mem_world system" where
  "third_draw_fails = mem_win32\<lparr>w32_BCryptGenRandom := (\<lambda>k w.
     if mw_calls w = 2 then (None, w)
     else (Some (replicate (unat k) 0), w\<lparr>mw_calls := mw_calls w + 1\<rparr>))\<rparr>"

lemma third_draw_fails_draws:
  "random_documented third_draw_fails"
  "fill_random third_draw_fails 16 mem_start = Some (Inr (replicate 16 0), mem_start\<lparr>mw_calls := 1\<rparr>)"
  "fill_random third_draw_fails 12 (mem_start\<lparr>mw_calls := 1\<rparr>) =
     Some (Inr (replicate 12 0), mem_start\<lparr>mw_calls := 2\<rparr>)"
  "fill_random third_draw_fails 12 (mem_start\<lparr>mw_calls := 2\<rparr>) =
     Some (Inl (IoError ''BCryptGenRandom failed''), mem_start\<lparr>mw_calls := 2\<rparr>)"
  by (auto simp: third_draw_fails_def random_documented_def fill_random_def fill_random_win32_def mem_start_def
      split: if_splits)

section \<open>Properties\<close>

text \<open>
  C12. What \<^verbatim>\<open>save_to_file_encrypted\<close> leaves in memory. However it ends, by success or by any
  exception, the derived keys, the MAC key and the wrapping key have been overwritten with
  zeros. The vector with the raw key bytes has been overwritten too, unless
  \<^verbatim>\<open>Aes256Ctr::encrypt\<close> threw: then the exception passes the statement that wipes it, and
  the vector is released with the raw key in it.
\<close>

theorem save_encrypted_scratch:
  assumes "save_to_file_encrypted_run os pf key path passphrase iterations w = Some (r, s, w')"
  shows "save_to_file_encrypted os pf key path passphrase iterations w = Some (r, w') \<and>
    wiped (ss_derived s) \<and> wiped (ss_wrap_key s) \<and> wiped (ss_mac_key s) \<and>
    (wiped (ss_plaintext_key s) \<or>
     ss_plaintext_key s = Some (take (key_size_bytes key) (sk_bytes key)) \<and>
     (\<exists>e wrap_key w0. r = Inl e \<and>
       ctr_encrypt os pf wrap_key (take (key_size_bytes key) (sk_bytes key)) w0 = Some (Inl e, w')))"
  using save_run_result [of os pf key path passphrase iterations w] assms save_run_guarded [OF assms]
    save_run_vector [OF assms]
  by simp

theorem save_encrypted_scratch_witness:
  "\<exists>s. save_to_file_encrypted_run third_draw_fails (x86_platform 0 None) (key_from_bytes (replicate 32 7) Aes256)
      ''k'' [112, 119] 1000 mem_start = Some (Inl (IoError ''BCryptGenRandom failed''), s, mem_start\<lparr>mw_calls := 2\<rparr>) \<and>
    wiped (ss_derived s) \<and> wiped (ss_wrap_key s) \<and> wiped (ss_mac_key s) \<and>
    ss_plaintext_key s = Some (replicate 32 7)"
proof -
  let ?k = "key_from_bytes (replicate 32 7) Aes256"
  have k: "take (key_size_bytes ?k) (sk_bytes ?k) = replicate 32 7"
    by (simp add: key_size_bytes_def key_from_bytes_sel kKeySizeBytes_def)
  have it: "(1000 :: u32) \<noteq> - 1" by simp
  obtain s where s: "save_to_file_encrypted_run third_draw_fails (x86_platform 0 None) ?k ''k'' [112, 119] 1000 mem_start =
      Some (Inl (IoError ''BCryptGenRandom failed''), s, mem_start\<lparr>mw_calls := 2\<rparr>)"
    "ss_plaintext_key s = Some (replicate 32 7)"
    using save_run_leak [OF third_draw_fails_draws(1) order_refl it third_draw_fails_draws(2-4), of "x86_platform 0 None" ?k]
    unfolding k by blast
  with save_encrypted_scratch [OF s(1)] show ?thesis by blast
qed

end
