(* ===== verification/Fuzz_Drivers.thy ===== *)
theory Fuzz_Drivers
  imports Gcm_Mode Key_Storage
begin

text \<open>
  The fuzz targets of \<^verbatim>\<open>fuzz/\<close>: each hands arbitrary bytes to a parser and catches the
  exceptions it expects. An exception that is not caught ends the process, which is how a
  fuzzer reports a failure. The write through \<^verbatim>\<open>std::ofstream\<close>, the temporary directory and
  the process id are parameters.
\<close>

section \<open>Definitions\<close>

datatype fuzz_outcome = Fuzz_return int | Fuzz_uncaught aes_error

definition fuzz_container :: "bytes \<Rightarrow> fuzz_outcome" where
  "fuzz_container data =
     (case deserialize data of
        Inr c \<Rightarrow> Fuzz_return 0
      | Inl (FormatError m) \<Rightarrow> Fuzz_return 0
      | Inl e \<Rightarrow> Fuzz_uncaught e)"

definition fuzz_gcm_container :: "bytes \<Rightarrow> fuzz_outcome" where
  "fuzz_gcm_container data =
     (case deserialize_gcm data of
        Inr c \<Rightarrow> Fuzz_return 0
      | Inl (FormatError m) \<Rightarrow> Fuzz_return 0
      | Inl e \<Rightarrow> Fuzz_uncaught e)"

definition fuzz_key_file_path :: "string \<Rightarrow> nat \<Rightarrow> string" where
  "fuzz_key_file_path temp_directory_path pid =
     temp_directory_path @ ''/'' @ ''aeslib_fuzz_key_'' @ to_string pid @ ''.tmp''"

definition fuzz_passphrase :: bytes where
  "fuzz_passphrase = map of_char ''fuzz-harness-passphrase''"

definition fuzz_key_file ::
  "'w system \<Rightarrow> platform \<Rightarrow> (string \<Rightarrow> bytes \<Rightarrow> 'w \<Rightarrow> 'w) \<Rightarrow> string \<Rightarrow> nat \<Rightarrow> bytes \<Rightarrow> 'w \<Rightarrow>
   (fuzz_outcome \<times> 'w) option" where
  "fuzz_key_file os pf ofstream_write temp_directory_path pid data w =
     (let path = fuzz_key_file_path temp_directory_path pid;
          w = ofstream_write path data w
      in case load_from_file_encrypted os pf path fuzz_passphrase w of
           None \<Rightarrow> None
         | Some (Inr key, w) \<Rightarrow> Some (Fuzz_return 0, w)
         | Some (Inl (FormatError m), w) \<Rightarrow> Some (Fuzz_return 0, w)
         | Some (Inl (AuthenticationError m), w) \<Rightarrow> Some (Fuzz_return 0, w)
         | Some (Inl e, w) \<Rightarrow> Some (Fuzz_uncaught e, w))"

section \<open>The errors of the parsers\<close>

lemma deserialize_error: "deserialize data = Inl e \<Longrightarrow> \<exists>m. e = FormatError m"
  by (auto simp: deserialize_def Let_def split: if_splits)

lemma deserialize_gcm_error: "deserialize_gcm data = Inl e \<Longrightarrow> \<exists>m. e = FormatError m"
  by (auto simp: deserialize_gcm_def Let_def split: if_splits)

lemma unwrap_key_error:
  assumes "unwrap_key pf passphrase f = Some (Inl e)"
  shows "\<exists>m. e = FormatError m \<or> e = AuthenticationError m"
proof (cases "\<exists>m. unwrap_key pf passphrase f = Some (Inl (FormatError m))")
  case False
  then obtain sz salt it nonce ct tag where f: "f = wrapped_part (key_size_value sz) salt it nonce ct @ tag"
    and l: "length salt = 16" "length nonce = 12" "length ct = key_size_value sz" "length tag = 32"
    by (rule unwrap_key_layout)
  have "length ct \<le> 2 ^ 36"
    using l(3) key_size_value_le [of sz] by (simp add: kKeySizeBytes_def)
  then have "validate_block_count (length ct) = Inr ()"
    by (intro iffD2 [OF validate_block_count_iff]) simp_all
  then have "\<exists>bs. ctr_decrypt pf k \<lparr>ct_nonce = nonce, ct_ciphertext = ct\<rparr> = Inr bs" for k
    using apply_keystream_stream [OF l(2), of pf k ct] by (simp add: ctr_decrypt_def)
  then obtain d where d: "ctr_decrypt pf k \<lparr>ct_nonce = nonce, ct_ciphertext = ct\<rparr> = Inr (d k)" for k
    by metis
  show ?thesis
    using assms unfolding f unwrap_key_fields [OF l] unwrap_fields_def d res_bind_simps
    by (auto split: if_splits option.splits)
qed (use assms in auto)

section \<open>Properties\<close>


end
