(* ===== verification/Sha_Vectors.thy ===== *)
theory Sha_Vectors
  imports Sha256
begin

text \<open>
  A published digest that \<^verbatim>\<open>tests/test_key_storage.cpp\<close> checks, as a theorem about the
  model. The constants and the round function are common to \<open>process_block\<close> and to its
  specification; the digest shows that they are those of the standard. A block is
  evaluated from its message schedule, which is given and checked.
\<close>

definition block_check :: "bytes \<Rightarrow> u32 list \<Rightarrow> sha_state \<Rightarrow> sha_state \<Rightarrow> bool" where
  "block_check b ws hs hs' \<longleftrightarrow> length ws = 64 \<and>
     list_all (\<lambda>i. ws ! i = be_decode (take 4 (drop (4 * i) b))) [0..<16] \<and>
     list_all (\<lambda>i. ws ! i = gamma1 (ws ! (i - 2)) + ws ! (i - 7) + gamma0 (ws ! (i - 15)) + ws ! (i - 16)) [16..<64] \<and>
     add_state hs (fold (sha_round ws) [0..<64] hs) = hs'"

lemma block_checkD:
  assumes "block_check b ws hs hs'"
  shows "fips_compress b hs = hs'"
proof -
  have first: "ws ! i = be_decode (take 4 (drop (4 * i) b))" if "i < 16" for i
    using assms that unfolding block_check_def list_all_iff set_upt by auto
  have rest: "ws ! i = gamma1 (ws ! (i - 2)) + ws ! (i - 7) + gamma0 (ws ! (i - 15)) + ws ! (i - 16)"
    if "16 \<le> i" "i < 64" for i
    using assms that unfolding block_check_def list_all_iff set_upt by auto
  have "fips_W b i = ws ! i" if "i < 64" for i
    using that
  proof (induction i rule: less_induct)
    case (less i)
    then show ?case
      by (cases "i < 16") (simp_all add: fips_W.simps [of b i] first rest)
  qed
  then have "map (fips_W b) [0..<64] = map (\<lambda>i. ws ! i) [0..<64]"
    by (intro map_cong) (simp_all only: set_upt atLeastLessThan_iff)
  also have "\<dots> = ws"
    using assms by (metis block_check_def map_nth)
  finally show ?thesis
    using assms by (simp only: fips_compress_def block_check_def)
qed

section \<open>The block of the message abc\<close>

definition abc_words :: "u32 list" where
  "abc_words =
    [0x61626380, 0x00000000, 0x00000000, 0x00000000, 0x00000000, 0x00000000, 0x00000000, 0x00000000,
     0x00000000, 0x00000000, 0x00000000, 0x00000000, 0x00000000, 0x00000000, 0x00000000, 0x00000018,
     0x61626380, 0x000f0000, 0x7da86405, 0x600003c6, 0x3e9d7b78, 0x0183fc00, 0x12dcbfdb, 0xe2e2c38e,
     0xc8215c1a, 0xb73679a2, 0xe5bc3909, 0x32663c5b, 0x9d209d67, 0xec8726cb, 0x702138a4, 0xd3b7973b,
     0x93f5997f, 0x3b68ba73, 0xaff4ffc1, 0xf10a5c62, 0x0a8b3996, 0x72af830a, 0x9409e33e, 0x24641522,
     0x9f47bf94, 0xf0a64f5a, 0x3e246a79, 0x27333ba3, 0x0c4763f2, 0x840abf27, 0x7a290d5d, 0x065c43da,
     0xfb3e89cb, 0xcc7617db, 0xb9e66c34, 0xa9993667, 0x84badedd, 0xc21462bc, 0x1487472c, 0xb20f7a99,
     0xef57b9cd, 0xebe6b238, 0x9fe3095e, 0x78bc8d4b, 0xa43fcf15, 0x668b2ff8, 0xeeaba2cc, 0x12b1edeb]"

lemma abc_block:
  "block_check
    ([0x61, 0x62, 0x63, 0x80] @ replicate 52 0 @ [0, 0, 0, 0, 0, 0, 0, 24])
    abc_words sha256_init
    (0xba7816bf, 0x8f01cfea, 0x414140de, 0x5dae2223, 0xb00361a3, 0x96177a9c, 0xb410ff61, 0xf20015ad)"
  by code_simp

text \<open>FIPS 180-4, the one-block example.\<close>

theorem sha256_abc:
  "sha256 [0x61, 0x62, 0x63] =
    [0xba, 0x78, 0x16, 0xbf, 0x8f, 0x01, 0xcf, 0xea, 0x41, 0x41, 0x40, 0xde, 0x5d, 0xae, 0x22, 0x23,
      0xb0, 0x03, 0x61, 0xa3, 0x96, 0x17, 0x7a, 0x9c, 0xb4, 0x10, 0xff, 0x61, 0xf2, 0x00, 0x15, 0xad]"
proof -
  have "be_encode 8 (24 :: u64) = [0, 0, 0, 0, 0, 0, 0, 24]"
    by code_simp
  then have "sha_pad [0x61, 0x62, 0x63] = [0x61, 0x62, 0x63, 0x80] @ replicate 52 0 @ [0, 0, 0, 0, 0, 0, 0, 24]"
    by (simp add: sha_pad_def)
  moreover have "chunks64 ([0x61, 0x62, 0x63, 0x80] @ replicate 52 0 @ [0, 0, 0, 0, 0, 0, 0, 24]) =
      [[0x61, 0x62, 0x63, 0x80] @ replicate 52 0 @ [0, 0, 0, 0, 0, 0, 0, 24]]"
    by (intro chunks64_one) simp
  ultimately have "sha256 [0x61, 0x62, 0x63] = state_bytes
      (0xba7816bf, 0x8f01cfea, 0x414140de, 0x5dae2223, 0xb00361a3, 0x96177a9c, 0xb410ff61, 0xf20015ad)"
    by (simp only: sha256_eq_spec sha256_spec_def fold_simps block_checkD [OF abc_block])
  also have "\<dots> =
    [0xba, 0x78, 0x16, 0xbf, 0x8f, 0x01, 0xcf, 0xea, 0x41, 0x41, 0x40, 0xde, 0x5d, 0xae, 0x22, 0x23,
      0xb0, 0x03, 0x61, 0xa3, 0x96, 0x17, 0x7a, 0x9c, 0xb4, 0x10, 0xff, 0x61, 0xf2, 0x00, 0x15, 0xad]"
    by code_simp
  finally show ?thesis .
qed

end
