(* ===== verification/Main_Program.thy ===== *)
theory Main_Program
  imports Key_File
begin

text \<open>
  The end-to-end program \<^verbatim>\<open>main.cpp\<close>: it encrypts a sample file under a fresh key, stores
  ciphertext and key, loads both back, decrypts and compares. \<open>fs_exists\<close> stands for
  \<^verbatim>\<open>std::filesystem::exists\<close>, which throws when it cannot tell; the text written to the
  standard streams is collected.
\<close>

section \<open>Definitions\<close>

definition kHardwareBackendName :: "target_arch \<Rightarrow> string" where
  "kHardwareBackendName arch =
     (case arch of
        ArchX86 \<Rightarrow> ''Hardware (AES-NI)''
      | ArchArm64 \<Rightarrow> ''Hardware (ARM Crypto Extensions)''
      | ArchRiscv64 \<Rightarrow> ''Hardware (RV64 Zkne)''
      | ArchOther \<Rightarrow> ''Hardware'')"

definition newline :: string where
  "newline = [char_of (10 :: nat)]"

text \<open>A path is printed in double quotes.\<close>

definition quoted :: "string \<Rightarrow> string" where
  "quoted path = [char_of (34 :: nat)] @ path @ [char_of (34 :: nat)]"

definition make_sample_plaintext :: bytes where
  "make_sample_plaintext = map of_char
     (''The quick brown fox jumps over the lazy dog. AES-256-CTR round-trip '' @
      ''test payload for the Spara take-home challenge.'' @ newline)"

text \<open>\<^verbatim>\<open>SecretKey::generate()\<close> without a size.\<close>

definition generate_default :: "'w system \<Rightarrow> ('w, secret_key) io" where
  "generate_default os = generate os Aes256"

datatype main_exit = Exit_match | Exit_mismatch | Exit_exception aes_error

fun exit_code :: "main_exit \<Rightarrow> nat" where
  "exit_code Exit_match = 0"
| "exit_code Exit_mismatch = 1"
| "exit_code (Exit_exception e) = 1"

fun error_what :: "aes_error \<Rightarrow> string" where
  "error_what (IoError m) = m"
| "error_what (FormatError m) = m"
| "error_what (LimitError m) = m"
| "error_what (AuthenticationError m) = m"
| "error_what (LogicError m) = m"
| "error_what (StdException m) = m"

type_synonym 'w main_result = "(main_exit \<times> string list \<times> 'w) option"

text \<open>A statement of the \<^verbatim>\<open>try\<close> block that may throw, and the \<^verbatim>\<open>catch\<close> clause.\<close>

definition m_try :: "('w, 'a) io \<Rightarrow> string list \<Rightarrow> ('a \<Rightarrow> 'w \<Rightarrow> 'w main_result) \<Rightarrow> 'w \<Rightarrow> 'w main_result" where
  "m_try m log k w =
     (case m w of
        None \<Rightarrow> None
      | Some (Inl e, w) \<Rightarrow> Some (Exit_exception e, log @ [''FAILURE: '' @ error_what e @ newline], w)
      | Some (Inr x, w) \<Rightarrow> k x w)"

text \<open>Step 1: the sample plaintext and the line reporting where it came from.\<close>

definition main_plaintext :: "'w system \<Rightarrow> (string \<Rightarrow> 'w \<Rightarrow> bool res) \<Rightarrow> string \<Rightarrow> ('w, bytes \<times> string) io" where
  "main_plaintext os fs_exists plaintext_path w =
     (case fs_exists plaintext_path w of
        Inl e \<Rightarrow> Some (Inl e, w)
      | Inr found \<Rightarrow>
          if found then
            io_bind (read_file os plaintext_path) (\<lambda>plaintext.
              io_return (plaintext, ''Loaded existing sample plaintext from '' @ quoted plaintext_path @ newline)) w
          else
            let plaintext = make_sample_plaintext
            in io_bind (write_file os plaintext_path plaintext) (\<lambda>_.
                 io_return (plaintext, ''Generated sample plaintext at '' @ quoted plaintext_path @ newline)) w)"

definition main_run :: "'w system \<Rightarrow> platform \<Rightarrow> (string \<Rightarrow> 'w \<Rightarrow> bool res) \<Rightarrow> 'w \<Rightarrow> 'w main_result" where
  "main_run os pf fs_exists =
     (let plaintext_path = ''sample_plaintext.bin'';
          key_path = ''sample.key'';
          ciphertext_path = ''sample_ciphertext.aesc''
      in m_try (io_lift (active_backend pf)) [''Backend in use: ''] (\<lambda>backend.
         let log = [''Backend in use: '',
               (if backend = Hardware then kHardwareBackendName (pf_arch pf) else ''Software'') @ newline]
         in m_try (main_plaintext os fs_exists plaintext_path) log (\<lambda>(plaintext, msg).
            let log = log @ [msg]
            in m_try (generate_default os) log (\<lambda>key.
               m_try (ctr_encrypt os pf key plaintext) log (\<lambda>container.
               m_try (save_container os container ciphertext_path) log (\<lambda>_.
               m_try (save_to_file os key key_path) log (\<lambda>_.
               let log = log @ [''Stored ciphertext at '' @ quoted ciphertext_path @ '' and key at '' @
                 quoted key_path @ newline]
               in m_try (load_container os ciphertext_path) log (\<lambda>loaded_container.
                  m_try (load_from_file os key_path) log (\<lambda>loaded_key.
                  m_try (io_lift (ctr_decrypt pf loaded_key loaded_container)) log (\<lambda>decrypted w.
                    if decrypted = plaintext then
                      Some (Exit_match, log @ [''SUCCESS: round-tripped plaintext matches the original ('' @
                        to_string (length plaintext) @ '' bytes).'' @ newline], w)
                    else
                      Some (Exit_mismatch, log @
                        [''FAILURE: round-tripped plaintext does not match the original.'' @ newline], w)))))))))))"

section \<open>The run\<close>

lemma m_try_okE:
  assumes "m_try m log k w = Some (x, out, w')" and "\<nexists>e. x = Exit_exception e"
  obtains y w1 where "m w = Some (Inr y, w1)" "k y w1 = Some (x, out, w')"
  using assms by (auto simp: m_try_def split: option.splits sum.splits prod.splits)

lemma main_plaintext_length:
  assumes "files_documented os fv" and "\<forall>data. fv_cont fv w path = Some data \<longrightarrow> length data < 2 ^ 64"
    and "main_plaintext os fs_exists path w = Some (Inr pm, w')"
  shows "length (fst pm) < 2 ^ 64"
proof (cases "fs_exists path w = Inr True")
  case True
  then obtain w1 where "read_file os path w = Some (Inr (fst pm), w1)"
    using assms(3) by (auto simp: main_plaintext_def elim!: io_bind_InrE)
  with read_file_contents [OF assms(1)] assms(2) show ?thesis by blast
next
  case False
  then have "fst pm = make_sample_plaintext"
    using assms(3) by (auto simp: main_plaintext_def Let_def elim!: io_bind_InrE split: sum.splits if_splits)
  then show ?thesis by (simp add: make_sample_plaintext_def newline_def)
qed

lemma load_container_keeps_files:
  assumes "files_documented os fv" and "load_container os path w = Some (Inr c, w')"
  shows "fv_cont fv w' = fv_cont fv w" "\<exists>data. fv_cont fv w path = Some data \<and> deserialize data = Inr c"
proof -
  obtain data where "read_file os path w = Some (Inr data, w')" "deserialize data = Inr c"
    using assms(2) by (auto simp: load_container_def elim!: io_bind_InrE)
  then show "fv_cont fv w' = fv_cont fv w" "\<exists>data. fv_cont fv w path = Some data \<and> deserialize data = Inr c"
    using read_file_keeps_files [OF assms(1)] read_file_contents [OF assms(1)] by blast+
qed

text \<open>A generated 256-bit key is loaded back as itself.\<close>

lemma generated_key_from_bytes:
  assumes "random_documented os" and "generate_default os w = Some (Inr key, w')"
  shows "key = key_from_bytes (sk_bytes key) Aes256 \<and> length (sk_bytes key) = 32 \<and> key_size_bytes key = 32"
proof -
  obtain bs where "fill_random os 32 w = Some (Inr bs, w')" "key = SecretKey\<lparr>sk_size := Aes256, sk_bytes := bs\<rparr>"
    using assms(2) by (auto simp: generate_default_def generate_def Let_def SecretKey_def lock_memory_def
        kKeySizeBytes_def elim!: io_bind_InrE)
  then show ?thesis
    using fill_random_length [OF assms(1)] by (simp add: key_from_bytes_def Let_def key_size_bytes_def SecretKey_def
        lock_memory_def kKeySizeBytes_def)
qed

lemma loaded_key_same:
  assumes "files_documented os fv" and "random_documented os" and "generate_default os w0 = Some (Inr key, w1)"
    and "fv_cont fv w2 path = Some ([kKeyFileVersion, of_nat (key_size_bytes key)] @ take (key_size_bytes key) (sk_bytes key))"
    and "load_from_file os path w2 = Some (Inr key', w3)"
  shows "key' = key"
proof -
  note k = generated_key_from_bytes [OF assms(2,3)]
  obtain marker rest where l: "fv_cont fv w2 path = Some (kKeyFileVersion # marker # rest)"
    "key' = key_from_bytes (take (unat marker) rest) (key_size_cast marker)"
    using load_from_file_contents [OF assms(1,5)] by blast
  with assms(4) k have m: "marker = 32" "rest = sk_bytes key" by simp_all
  have "key' = key_from_bytes (sk_bytes key) Aes256"
    using k unfolding l(2) m by (simp add: key_size_cast_def)
  with k show ?thesis by simp
qed

text \<open>The files and the comparison, from the point where both files have been written.\<close>

lemma main_files_agree:
  assumes "files_documented os fv" and "random_documented os"
    and "generate_default os w0 = Some (Inr key, w1)"
    and "ctr_encrypt os pf key plaintext w1 = Some (Inr c, w2)" and "length plaintext < 2 ^ 64"
    and "save_container os c cpath w2 = Some (Inr (), w3)" and "save_to_file os key kpath w3 = Some (Inr (), w4)"
    and "cpath \<noteq> kpath" and "load_container os cpath w4 = Some (Inr c', w5)"
    and "load_from_file os kpath w5 = Some (Inr key', w6)"
  shows "ctr_decrypt pf key' c' = Inr plaintext"
proof -
  have e: "length (ct_nonce c) = 12" "length (ct_ciphertext c) = length plaintext" "ctr_decrypt pf key c = Inr plaintext"
    using ctr_encrypt_decrypt [OF assms(2,4), of pf] by simp_all
  have w3: "fv_cont fv w3 cpath = Some (serialize c)"
    using write_file_contents [OF assms(1) assms(6) [unfolded save_container_def]] by simp
  have w4: "fv_cont fv w4 = (fv_cont fv w3)(kpath \<mapsto>
      [kKeyFileVersion, of_nat (key_size_bytes key)] @ take (key_size_bytes key) (sk_bytes key))"
    by (rule save_to_file_contents [OF assms(1,7)])
  have "deserialize (serialize c) = Inr c"
    using e assms(5) by (intro ctr_file.dec_enc) (simp add: container_valid_def)
  then have c: "c' = c"
    using load_container_keeps_files(2) [OF assms(1,9)] w3 w4 assms(8) by simp
  have "key' = key"
    using w4 load_container_keeps_files(1) [OF assms(1,9)]
    by (intro loaded_key_same [OF assms(1,2,3) _ assms(10)]) simp
  with c e show ?thesis by simp
qed

lemma main_run_matches:
  assumes "files_documented os fv" and "random_documented os"
    and "\<forall>data. fv_cont fv w ''sample_plaintext.bin'' = Some data \<longrightarrow> length data < 2 ^ 64"
    and "main_run os pf fs_exists w = Some (x, out, w')"
  shows "x = Exit_match \<or> (\<exists>e. x = Exit_exception e)"
proof (cases "\<exists>e. x = Exit_exception e")
  case no: False
  obtain backend pm w2 key w3 c w4 w5 w6 c' w7 key' w8 log decrypted w9 where r:
    "io_lift (active_backend pf) w = Some (Inr backend, w2)"
    "main_plaintext os fs_exists ''sample_plaintext.bin'' w2 = Some (Inr pm, w3)"
    "generate_default os w3 = Some (Inr key, w4)" "ctr_encrypt os pf key (fst pm) w4 = Some (Inr c, w5)"
    "save_container os c ''sample_ciphertext.aesc'' w5 = Some (Inr (), w6)"
    "save_to_file os key ''sample.key'' w6 = Some (Inr (), w7)"
    "load_container os ''sample_ciphertext.aesc'' w7 = Some (Inr c', w8)"
    "load_from_file os ''sample.key'' w8 = Some (Inr key', w9)"
    "io_lift (ctr_decrypt pf key' c') w9 = Some (Inr decrypted, w')"
    "x = (if decrypted = fst pm then Exit_match else Exit_mismatch)"
    using assms(4) unfolding main_run_def Let_def case_prod_unfold
    by (elim m_try_okE [OF _ no]) (auto split: if_splits)
  have "w2 = w" using r(1) by simp
  with main_plaintext_length [OF assms(1,3)] r(2) have "length (fst pm) < 2 ^ 64" by blast
  then have "ctr_decrypt pf key' c' = Inr (fst pm)"
    using main_files_agree [OF assms(1,2) r(3,4) _ r(5,6) _ r(7,8)] by simp
  with r(9,10) show ?thesis by simp
qed auto

text \<open>Every statement of the program returns.\<close>

lemma m_try_returns:
  "m w \<noteq> None \<Longrightarrow> (\<And>y w1. k y w1 \<noteq> None) \<Longrightarrow> m_try m log k w \<noteq> None"
  by (auto simp: m_try_def split: sum.split)

lemma io_bind_returns: "m w \<noteq> None \<Longrightarrow> (\<And>x w1. f x w1 \<noteq> None) \<Longrightarrow> io_bind m f w \<noteq> None"
  by (auto simp: io_bind_def split: sum.split)

lemma library_returns:
  assumes "files_documented os fv" and "write_progress os" and "getrandom_progress os m"
  shows "main_plaintext os ex path w \<noteq> None" "generate_default os w \<noteq> None" "ctr_encrypt os pf key p w \<noteq> None"
    "save_container os c path w \<noteq> None" "save_to_file os key path w \<noteq> None" "load_container os path w \<noteq> None"
    "load_from_file os path w \<noteq> None"
proof -
  have r: "fill_random os n v \<noteq> None" "write_file os path d v \<noteq> None" "read_file os path v \<noteq> None" for n v d
    using fill_random_returns [OF assms(3)] write_file_returns [OF assms(1,2), of path d v]
      read_file_returns [of os path v]
    by auto
  show "main_plaintext os ex path w \<noteq> None"
  proof (cases "ex path w")
    case (Inr found)
    then show ?thesis
      unfolding main_plaintext_def Let_def Inr sum.case
      by (cases found; simp only: if_True if_False) (rule io_bind_returns, rule r, simp)+
  qed (simp add: main_plaintext_def)
  show "generate_default os w \<noteq> None"
    unfolding generate_default_def generate_def Let_def by (rule io_bind_returns [OF r(1)]) simp
  show "ctr_encrypt os pf key p w \<noteq> None"
    unfolding ctr_encrypt_def generate_nonce_def by (intro io_bind_returns r(1)) simp_all
  show "save_container os c path w \<noteq> None" unfolding save_container_def by (rule r(2))
  show "load_container os path w \<noteq> None" unfolding load_container_def by (rule io_bind_returns [OF r(3)]) simp
  show "save_to_file os key path w \<noteq> None" using save_to_file_returns [OF assms(1,2), of key path w] by auto
  show "load_from_file os path w \<noteq> None" using load_from_file_returns [of os path w] by auto
qed

lemma main_run_returns:
  assumes "files_documented os fv" and "write_progress os" and "getrandom_progress os m"
  shows "main_run os pf ex w \<noteq> None"
  unfolding main_run_def Let_def case_prod_unfold
  by (intro m_try_returns library_returns [OF assms]) simp_all

section \<open>Properties\<close>

text \<open>
  C40. The end-to-end program works: on files that behave as POSIX or Win32 documents, with a random
  source that is not interrupted forever, and for a sample file below \<open>2 ^ 64\<close> bytes, every run returns, and it
  ends either with the decrypted text equal to the original and exit code 0, or with the
  report of an exception; the branch for differing texts is dead.
\<close>

theorem main_returns_and_matches:
  assumes "files_documented os fv" and "write_progress os" and "random_documented os" and "getrandom_progress os m"
    and "\<forall>data. fv_cont fv w ''sample_plaintext.bin'' = Some data \<longrightarrow> length data < 2 ^ 64"
  shows "\<exists>x out w'. main_run os pf fs_exists w = Some (x, out, w') \<and>
    (x = Exit_match \<and> exit_code x = 0 \<or> (\<exists>e. x = Exit_exception e \<and> exit_code x = 1))"
proof -
  obtain x out w' where r: "main_run os pf fs_exists w = Some (x, out, w')"
    using main_run_returns [OF assms(1,2,4), of pf fs_exists w] by (cases "main_run os pf fs_exists w") auto
  with main_run_matches [OF assms(1,3,5) r] show ?thesis by auto
qed

theorem main_returns_and_matches_witness:
  "\<exists>x out w'. main_run mem_posix (x86_platform 0 None) (\<lambda>path w. Inr (mw_files w path \<noteq> None)) mem_start = Some (x, out, w') \<and>
     (x = Exit_match \<and> exit_code x = 0 \<or> (\<exists>e. x = Exit_exception e \<and> exit_code x = 1))"
  by (rule main_returns_and_matches [OF mem_files_documented mem_write_progress(1) mem_random_documented(1) mem_getrandom_progress(1)])
    (simp add: mem_view_def mem_start_def)

end
