(* ===== verification/Spec2Isabelle.thy ===== *)
theory Spec2Isabelle
  imports Capi_Threads Byte_View Gcm_Threads Win32_Files Key_Scratch Fuzz_Drivers Sha_Vectors Main_Program
begin

text \<open>
  aeslib, an AES-CTR and AES-GCM library in C++ with protected key storage and a C
  interface: a model of its code and the theorems that make it correct.

  \<^bold>\<open>The program.\<close> The library encrypts byte strings under 128- or 256-bit keys. A block
  cipher is provided by a portable software core and by three hardware backends, one of
  which is chosen at run time after a self-test. Counter mode and Galois/counter mode run
  over the block cipher; GHASH authenticates the latter. A container format carries nonce,
  tag and ciphertext on disk. Keys are objects that wipe themselves; they are stored in a
  plain key file or in a file wrapped under a passphrase by PBKDF2, counter mode and HMAC.
  A C interface hands out keys and buffers as pointers, a template layer accepts typed
  values, and a program runs the whole chain once.

  \<^bold>\<open>Theories, in the order of the dependencies, and the source they model.\<close>

  \<^item> \<open>Aes_Prelude\<close>: machine types, the exception classes (\<^verbatim>\<open>include/aeslib/exceptions.hpp\<close>) as
    the sum type \<open>aes_error\<close>, results \<open>'a res\<close>, generic lemmas on words and loops.
    \<open>Posix\<close>: the system calls of Windows, Linux and other POSIX systems as a record
    \<open>'w system\<close> over an abstract world \<open>'w\<close>, with the system the build is for, and the
    composition \<open>io_bind\<close> of computations that may fail or not return.
    \<open>Byte_Codec\<close>: integers as byte strings. \<open>Ct_Util\<close>: \<^verbatim>\<open>constant_time_equal\<close> and
    \<^verbatim>\<open>secure_wipe\<close> of \<^verbatim>\<open>src/sha256.cpp\<close>.
  \<^item> \<open>Csprng\<close>: \<^verbatim>\<open>src/csprng.cpp\<close>. \<open>Secret_Key\<close>: \<^verbatim>\<open>include/aeslib/key.hpp\<close>, the object
    operations of \<^verbatim>\<open>src/key.cpp\<close> and the access seam of \<^verbatim>\<open>src/internal.hpp\<close>.
    \<open>Key_Lifecycle\<close>: many key objects over time, as a step relation.
  \<^item> \<open>Shift_Field\<close>, \<open>Gf256\<close>: the field arithmetic and the S-box of \<^verbatim>\<open>src/aes_core_soft.cpp\<close>.
    \<open>Key_Schedule\<close>: \<^verbatim>\<open>src/aes_key_schedule.hpp\<close>. \<open>Aes_Soft\<close>: the software cipher.
    \<open>Kat_Vector\<close>: \<^verbatim>\<open>src/kat_vector.hpp\<close>.
  \<^item> \<open>Aes_Engine\<close> (the contract of a register-based backend), \<open>Aes_Ni\<close>, \<open>Aes_Arm\<close>,
    \<open>Aes_Riscv\<close>: \<^verbatim>\<open>src/aes_core_ni.cpp\<close>, \<^verbatim>\<open>src/aes_core_arm.cpp\<close>, \<^verbatim>\<open>src/aes_core_riscv.cpp\<close>.
    The processor's instructions are records of functions, constrained by what the
    architecture manuals document of them.
  \<^item> \<open>Cpu_Detect\<close>: \<^verbatim>\<open>src/aes_core_hw.cpp\<close> and \<^verbatim>\<open>src/cpu_detect.cpp\<close>, over a record
    \<open>platform\<close> of the build target and of what the capability reads report, and the
    throwing functions that the backend files define on other architectures.
  \<^item> \<open>Ghash\<close>: \<^verbatim>\<open>src/ghash.cpp\<close>. \<open>Ctr_Mode\<close>: \<^verbatim>\<open>src/aes256_ctr.cpp\<close>. \<open>Gcm_Mode\<close>:
    \<^verbatim>\<open>src/aes_gcm.cpp\<close>. \<open>Gcm_Threads\<close>: concurrent calls of its \<^verbatim>\<open>encrypt\<close> on one key object.
  \<^item> \<open>Container\<close>, \<open>Posix_Files\<close>: \<^verbatim>\<open>src/container.cpp\<close>, and what its file functions rely on.
    \<open>Key_File\<close>: the key file of \<^verbatim>\<open>src/key.cpp\<close>. \<open>Win32_Files\<close>: what is particular to the
    Windows branches of the three writers.
  \<^item> \<open>Sha256\<close>, \<open>Pbkdf2\<close>: \<^verbatim>\<open>src/sha256.cpp\<close>; \<open>Sha_Vectors\<close> evaluates a published digest. \<open>Key_Storage\<close>: \<^verbatim>\<open>src/key_storage.cpp\<close>.
    \<open>Key_Scratch\<close>: its secret buffers and the scope guard of \<^verbatim>\<open>src/internal.hpp\<close>.
  \<^item> \<open>Capi\<close>: \<^verbatim>\<open>src/capi.cpp\<close>. \<open>Capi_Memory\<close>: its wrappers when memory runs out, in them or
    in the library. \<open>Capi_Threads\<close>: its calls from several threads. \<open>Byte_View\<close>: \<^verbatim>\<open>include/aeslib/byte_view.hpp\<close> and the templates
    of the mode headers. \<open>Main_Program\<close>: \<^verbatim>\<open>main.cpp\<close>. \<open>Fuzz_Drivers\<close>: \<^verbatim>\<open>fuzz/\<close>.

  \<^bold>\<open>State and operations.\<close> A C++ object is a record (\<open>secret_key\<close>, \<open>container\<close>,
  \<open>gcm_container\<close>, \<open>capi_state\<close>), fixed arrays and vectors are byte lists, machine integers
  are words, so that a counter, a length field or a shift wraps as it does in the source. A
  function that throws returns \<open>Inl\<close> of the exception. Members that change an object
  return the changed object. System calls thread the world. Where the source selects a
  branch by \<^verbatim>\<open>#if\<close>, there is a function per branch (\<open>write_file_win32\<close>,
  \<open>write_file_posix\<close>) and one that selects by the field \<open>sys_target\<close> (\<open>write_file\<close>); the
  callers use the latter, so the theorems on them hold on every system.

  \<^bold>\<open>Interfaces, as locales.\<close> \<open>shift_field\<close>: a bit-serial multiplier, interpreted for
  GF(2^8) and for GHASH's field. \<open>aes_engine\<close>: a state representation with a key addition,
  interpreted for the byte list of the software core and met by the register formats of the
  three hardware backends. \<open>codec\<close>: an encoder and a parser, interpreted for both container
  formats. \<open>counter_loop\<close>: a keystream loop over a block function, interpreted for the loops
  of both modes. \<open>prf_contract\<close>: a function of fixed output length, interpreted for HMAC.
  \<open>object_store\<close>: heap objects behind pointers, interpreted for keys and for buffers.
  \<open>byte_elem\<close>: a trivially copyable element type, interpreted for the unsigned integers.

  \<^bold>\<open>What is shown.\<close>

  \<^item> Cipher: the constant-time S-box is the inversion and affine map of FIPS 197, the
    software cipher is the FIPS 197 cipher over the FIPS 197 schedule for both key sizes, a
    permutation of the blocks, correct on the published vectors, and it leaves a wiped
    schedule. Each hardware backend computes the same function as the software core.
  \<^item> Selection: hardware is used only when both known-answer tests passed and no override is
    set; the choice never throws; ciphertexts do not depend on the choice.
  \<^item> Modes: both modes decrypt what they encrypt, counter mode is the XOR with encrypted
    counter blocks, counter blocks within a message are distinct and never those of the tag
    or the hash key, GHASH evaluates the polynomial of SP 800-38D, decryption returns a
    plaintext exactly when the tag is the one of the inputs, the invocation limit holds over
    any sequence of calls and over any interleaving of concurrent calls.
  \<^item> Hashing: SHA-256, HMAC and PBKDF2 equal their standards' definitions, and the one
    iteration count at which the PBKDF2 loop does not end is identified.
  \<^item> Files: both parsers accept exactly the serialisations, and containers, keys and wrapped
    keys are read back as they were written; a wrapped key is released only if the file's
    tag verifies under the passphrase, within the bounds on the iteration count. On Windows
    the writers refuse reparse points, and a file of 4 GiB or more is never written. The
    random source fills its buffer or throws, on each of the three systems.
  \<^item> Secrets: however \<^verbatim>\<open>save_to_file_encrypted\<close> and the loader leave their scopes, the
    guarded buffers have been wiped; the one buffer without a guard is identified, with
    the exception that leaves it unwiped.
  \<^item> Interface: the C functions keep the invariant of the object store in every state that
    any threads can reach, whatever allocations fail; they let no exception escape unless
    they cannot store its message, return success exactly when they have stored an output,
    keep each thread's last error apart, and round-trip. With memory at hand the model of
    \<open>Capi_Memory\<close> is that of \<open>Capi\<close>, an equation per function. Moving key
    objects never multiplies a key; overload selection for typed values is unambiguous and
    typed values round-trip; every key object is well formed; the program ends, and reports
    a match or an exception; the fuzz targets report nothing on any input.

  \<^bold>\<open>Loops.\<close> Loops with a bound are \<open>fold\<close> over the index range or recursion with a
  termination proof. Three loops have no bound in the source and are partial functions whose
  value \<open>None\<close> means that the loop does not end: \<open>fill_random_loop\<close> (retries on an
  interrupted call), \<open>write_loop\<close> (partial writes; it ends when a write of a non-empty
  buffer never reports zero bytes) and \<open>pbkdf2_loop\<close> (a 32-bit counter compared
  inclusively; it ends below the largest count). No fuel is used.

  \<^bold>\<open>Parameters.\<close> System calls, processor instructions, capability reads, environment,
  \<^verbatim>\<open>std::filesystem::exists\<close>, \<^verbatim>\<open>std::ofstream\<close> and the object representation of a caller's
  type are not code of the repository. What the theorems rely on of them is stated by named
  predicates (\<open>files_documented\<close>, \<open>write_progress\<close>, \<open>random_documented\<close>,
  \<open>getrandom_progress\<close>, \<open>ni_documented\<close>, \<open>arm_documented\<close>, \<open>riscv_documented\<close>,
  \<open>platform_documented\<close>), each of which is met by a concrete instance: an in-memory file
  system behind the POSIX calls, with partial writes and an interrupted random source, and
  behind the Win32 calls; and reference instruction sets.

  \<^bold>\<open>Not modelled.\<close> Failure of a memory allocation at a particular place within the library:
  \<open>Capi_Memory\<close> only says with which state it may leave the library. Running time (that the comparison and the S-box take constant
  time), compiler effects on wiped memory and page locking itself: the model records that
  the calls are made. Symbolic links as such: that \<^verbatim>\<open>O_NOFOLLOW\<close> and the reparse-point flag
  keep an open from following them is behaviour of the system calls. Concurrency other than
  that of GCM encryptions on one key and of whole calls of the C interface.
  Tests, the Python binding and build files carry no logic of the library.
\<close>

end
